(* ===== verification/Prelude.thy ===== *)
theory Prelude
  imports
    Main
    "HOL-Library.State_Monad"
    "HOL-Library.Multiset"
    "HOL-Library.List_Lexorder"
    "HOL-Library.Char_ord"
    "HOL-Library.Product_Lexorder"
begin

text \<open>
  What the components share: the collections of proof rules, a weakest-precondition calculus
  for the state monad in which the handlers are written, Go's fixed-width integers, clock
  arithmetic, decimal formatting and parsing, the functions of Go's package strings that the
  program uses, and the selection loop ``keep the best element seen so far'' that several
  components contain.
\<close>

named_theorems wp_simps \<open>weakest preconditions of the program combinators\<close>
named_theorems go_defs \<open>definitions of Go library functions\<close>

section \<open>Programs and their weakest preconditions\<close>

abbreviation ret :: "'a \<Rightarrow> ('s, 'a) state" where
  "ret \<equiv> State_Monad.return"

text \<open>
  \<open>wp m Q s\<close>: running \<open>m\<close> in state \<open>s\<close> ends in a result and a state that satisfy \<open>Q\<close>.
  Programs are total and deterministic functions of the state, so this is total correctness.
\<close>

definition wp :: "('s, 'a) state \<Rightarrow> ('a \<Rightarrow> 's \<Rightarrow> bool) \<Rightarrow> 's \<Rightarrow> bool" where
  "wp m Q s = (case run_state m s of (a, s') \<Rightarrow> Q a s')"

section \<open>Go integers, durations and instants\<close>

type_synonym time = int  \<comment> \<open>an instant, in nanoseconds since the Unix epoch\<close>
type_synonym duration = int  \<comment> \<open>a \<open>time.Duration\<close>: a signed 64-bit count of nanoseconds\<close>

definition wrap32 :: "int \<Rightarrow> int" where
  "wrap32 x = (x + 2 ^ 31) mod 2 ^ 32 - 2 ^ 31"

definition wrap64 :: "int \<Rightarrow> int" where
  "wrap64 x = (x + 2 ^ 63) mod 2 ^ 64 - 2 ^ 63"

definition maxInt32 :: int where
  "maxInt32 = 2147483647"

definition minDuration :: int where
  "minDuration = - (2 ^ 63)"

definition maxDuration :: int where
  "maxDuration = 2 ^ 63 - 1"

text \<open>\<open>Time.Sub\<close> saturates at the least and the greatest \<open>Duration\<close>.\<close>

definition time_sub :: "time \<Rightarrow> time \<Rightarrow> duration" where
  "time_sub t u = max minDuration (min maxDuration (t - u))"

definition Second :: duration where
  "Second = 1000000000"

definition Minute :: duration where
  "Minute = 60 * Second"

definition Hour :: duration where
  "Hour = 60 * Minute"

text \<open>\<open>time.Duration(n) * time.Second\<close>: the product wraps around in 64 bits.\<close>

definition seconds :: "int \<Rightarrow> duration" where
  "seconds n = wrap64 (n * Second)"

text \<open>The zero \<open>time.Time\<close>: 1 January of the year 1, midnight UTC.\<close>

definition zeroTime :: time where
  "zeroTime = - 62135596800 * 1000000000"

text \<open>Go's \<open>/\<close> on signed integers truncates towards zero.\<close>

definition quot :: "int \<Rightarrow> int \<Rightarrow> int" where
  "quot a b = sgn a * sgn b * (\<bar>a\<bar> div \<bar>b\<bar>)"

section \<open>Go strings\<close>

definition HasPrefix :: "string \<Rightarrow> string \<Rightarrow> bool" where
  "HasPrefix s p = (take (length p) s = p)"

text \<open>\<open>strings.Join\<close>.\<close>

fun Join :: "string list \<Rightarrow> string \<Rightarrow> string" where
  "Join [] sep = []"
| "Join [x] sep = x"
| "Join (x # y # zs) sep = x @ sep @ Join (y # zs) sep"

text \<open>\<open>strings.Split\<close> at a one-character separator: never the empty list.\<close>

fun Split :: "char \<Rightarrow> string \<Rightarrow> string list" where
  "Split c [] = [[]]"
| "Split c (x # xs) =
     (if x = c then [] # Split c xs
      else (case Split c xs of [] \<Rightarrow> [[x]] | y # ys \<Rightarrow> (x # y) # ys))"

text \<open>
  \<open>strings.ReplaceAll(s, d, r)\<close> for a non-empty \<open>d\<close>: scan from the left, replace each
  occurrence, go on after it. (For an empty \<open>d\<close>, which the program never uses, the scan
  returns \<open>s\<close>.)
\<close>

function ReplaceAll :: "string \<Rightarrow> string \<Rightarrow> string \<Rightarrow> string" where
  "ReplaceAll [] d r = []"
| "ReplaceAll (c # cs) d r =
     (if d \<noteq> [] \<and> HasPrefix (c # cs) d
      then r @ ReplaceAll (drop (length d) (c # cs)) d r
      else c # ReplaceAll cs d r)"
  by pat_completeness auto
termination
  by (relation "measure (\<lambda>(s, d, r). length s)") (auto simp: Suc_diff_le neq_Nil_conv)

text \<open>The decimal text of an integer, as \<open>fmt.Sprintf("%d", n)\<close> prints it.\<close>

definition digit_char :: "nat \<Rightarrow> char" where
  "digit_char d = char_of (48 + d)"

fun show_nat :: "nat \<Rightarrow> string" where
  "show_nat n = (if n < 10 then [digit_char n] else show_nat (n div 10) @ [digit_char (n mod 10)])"

declare show_nat.simps [simp del]

definition itoa :: "int \<Rightarrow> string" where
  "itoa n = (if n < 0 then CHR ''-'' # show_nat (nat (- n)) else show_nat (nat n))"

definition isDigit :: "char \<Rightarrow> bool" where
  "isDigit c = (48 \<le> (of_char c :: nat) \<and> (of_char c :: nat) \<le> 57)"

definition digit_val :: "char \<Rightarrow> int" where
  "digit_val c = int (of_char c) - 48"

definition digits_val :: "string \<Rightarrow> int" where
  "digits_val ds = foldl (\<lambda>acc c. 10 * acc + digit_val c) 0 ds"

text \<open>
  \<open>strconv.Atoi\<close> and \<open>strconv.ParseInt(s, 10, 64)\<close>: an optional sign, at least one digit,
  nothing else, and a value of 64 bits. \<open>None\<close> is the error.
\<close>

definition parse_digits :: "string \<Rightarrow> int option" where
  "parse_digits ds = (if ds \<noteq> [] \<and> list_all isDigit ds then Some (digits_val ds) else None)"

definition Atoi :: "string \<Rightarrow> int option" where
  "Atoi s =
     (let (neg, ds) =
        (case s of [] \<Rightarrow> (False, [])
         | c # cs \<Rightarrow> if c = CHR ''-'' then (True, cs)
                    else if c = CHR ''+'' then (False, cs) else (False, s))
      in case parse_digits ds of None \<Rightarrow> None
         | Some n \<Rightarrow> (let v = (if neg then - n else n)
                     in if minDuration \<le> v \<and> v \<le> maxDuration then Some v else None))"

text \<open>Reading a Go map: a missing key gives the zero value, for strings the empty one.\<close>

definition mget :: "(string \<rightharpoonup> string) \<Rightarrow> string \<Rightarrow> string" where
  "mget m k = (case m k of None \<Rightarrow> [] | Some v \<Rightarrow> v)"

section \<open>The selection loop\<close>

text \<open>
  \<open>best := xs[0]; for _, x := range xs[1:] { if better(x, best) { best = x } }\<close>.
\<close>

fun pick :: "('a \<Rightarrow> 'a \<Rightarrow> bool) \<Rightarrow> 'a \<Rightarrow> 'a list \<Rightarrow> 'a" where
  "pick better b [] = b"
| "pick better b (x # xs) = pick better (if better x b then x else b) xs"

section \<open>Lemmas\<close>

subsection \<open>Weakest preconditions\<close>

text \<open>The rules are equations of functions of the state, so that they apply under a binder too.\<close>

lemma wp_return [wp_simps]: "wp (State_Monad.return a) Q = Q a"
  by (simp add: wp_def fun_eq_iff)

lemma wp_bind [wp_simps]: "wp (State_Monad.bind m f) Q = wp m (\<lambda>a. wp (f a) Q)"
  by (simp add: wp_def fun_eq_iff split: prod.split)

lemma wp_get [wp_simps]: "wp State_Monad.get Q = (\<lambda>s. Q s s)"
  by (simp add: wp_def fun_eq_iff)

lemma wp_set [wp_simps]: "wp (State_Monad.set s') Q = (\<lambda>s. Q () s')"
  by (simp add: wp_def fun_eq_iff)

lemma wp_if [wp_simps]: "wp (if b then m else n) Q = (\<lambda>s. if b then wp m Q s else wp n Q s)"
  by simp

lemma wp_Let [wp_simps]: "wp (Let t f) Q = wp (f t) Q"
  by simp

lemma wp_option [wp_simps]:
  "wp (case x of None \<Rightarrow> m | Some a \<Rightarrow> f a) Q = (\<lambda>s. case x of None \<Rightarrow> wp m Q s | Some a \<Rightarrow> wp (f a) Q s)"
  by (cases x) simp_all

lemma wp_sum [wp_simps]:
  "wp (case x of Inl a \<Rightarrow> f a | Inr b \<Rightarrow> g b) Q =
     (\<lambda>s. case x of Inl a \<Rightarrow> wp (f a) Q s | Inr b \<Rightarrow> wp (g b) Q s)"
  by (cases x) simp_all

lemma wp_prod [wp_simps]:
  "wp (case x of (a, b) \<Rightarrow> f a b) Q = (\<lambda>s. case x of (a, b) \<Rightarrow> wp (f a b) Q s)"
  by (cases x) simp

lemma wp_list [wp_simps]:
  "wp (case x of [] \<Rightarrow> m | y # ys \<Rightarrow> f y ys) Q = (\<lambda>s. case x of [] \<Rightarrow> wp m Q s | y # ys \<Rightarrow> wp (f y ys) Q s)"
  by (cases x) simp_all

lemma wp_all: "wp m Q s \<longleftrightarrow> (\<forall>a s'. run_state m s = (a, s') \<longrightarrow> Q a s')"
  by (auto simp: wp_def split: prod.splits)

lemma wp_mono: "wp m P s \<Longrightarrow> (\<And>a s'. P a s' \<Longrightarrow> Q a s') \<Longrightarrow> wp m Q s"
  by (auto simp: wp_def split: prod.splits)

lemma wp_conjI: "wp m P s \<Longrightarrow> wp m Q s \<Longrightarrow> wp m (\<lambda>a s'. P a s' \<and> Q a s') s"
  by (auto simp: wp_def split: prod.splits)

lemma wp_run: "wp m Q s \<Longrightarrow> run_state m s = (a, s') \<Longrightarrow> Q a s'"
  by (simp add: wp_def)

lemma wpI: "(\<And>a s'. run_state m s = (a, s') \<Longrightarrow> Q a s') \<Longrightarrow> wp m Q s"
  by (simp add: wp_def split: prod.split)

subsection \<open>Integers and time\<close>

lemma wrap32_range: "- (2 ^ 31) \<le> wrap32 x" "wrap32 x < 2 ^ 31"
  by (simp_all add: wrap32_def)

lemma wrap64_range: "minDuration \<le> wrap64 x" "wrap64 x \<le> maxDuration"
  by (simp_all add: wrap64_def minDuration_def maxDuration_def)

lemma wrap32_id: "- (2 ^ 31) \<le> x \<Longrightarrow> x < 2 ^ 31 \<Longrightarrow> wrap32 x = x"
  by (simp add: wrap32_def)

lemma wrap64_id: "minDuration \<le> x \<Longrightarrow> x \<le> maxDuration \<Longrightarrow> wrap64 x = x"
  by (simp add: wrap64_def minDuration_def maxDuration_def)

lemma time_sub_less: "minDuration < d \<Longrightarrow> d \<le> maxDuration \<Longrightarrow> time_sub t u < d \<longleftrightarrow> t - u < d"
  by (auto simp: time_sub_def minDuration_def maxDuration_def)

lemma time_sub_greater: "minDuration \<le> d \<Longrightarrow> d < maxDuration \<Longrightarrow> d < time_sub t u \<longleftrightarrow> d < t - u"
  by (auto simp: time_sub_def minDuration_def maxDuration_def)

lemma time_sub_id: "minDuration \<le> t - u \<Longrightarrow> t - u \<le> maxDuration \<Longrightarrow> time_sub t u = t - u"
  by (simp add: time_sub_def)

lemma seconds_small: "0 \<le> n \<Longrightarrow> n \<le> 9223372036 \<Longrightarrow> seconds n = n * 1000000000"
  by (simp add: seconds_def Second_def wrap64_id minDuration_def maxDuration_def)

subsection \<open>Strings\<close>

lemma HasPrefix_refl [simp]: "HasPrefix s s"
  by (simp add: HasPrefix_def)

lemma HasPrefix_append [simp]: "HasPrefix (p @ s) p"
  by (simp add: HasPrefix_def)

lemma HasPrefix_iff: "HasPrefix s p \<longleftrightarrow> (\<exists>t. s = p @ t)"
  by (metis HasPrefix_def HasPrefix_append append_take_drop_id)

lemma Split_nonempty [simp]: "Split c s \<noteq> []"
  by (induction s) (auto split: list.splits)

lemma length_ReplaceAll_empty: "length (ReplaceAll s d []) \<le> length s"
proof (induction s d "[] :: string" rule: ReplaceAll.induct)
  case (2 c cs d)
  show ?case
  proof (cases "d \<noteq> [] \<and> HasPrefix (c # cs) d")
    case True
    with 2(1) have "length (ReplaceAll (drop (length d) (c # cs)) d []) \<le> length (drop (length d) (c # cs))"
      by simp
    with True show ?thesis by simp
  next
    case False
    with 2(2) show ?thesis by (simp add: if_not_P)
  qed
qed simp

lemma ReplaceAll_skip:
  "d \<noteq> [] \<Longrightarrow> hd d \<notin> set u \<Longrightarrow> ReplaceAll (u @ s) d r = u @ ReplaceAll s d r"
  by (induction u) (auto simp: HasPrefix_def neq_Nil_conv)

lemma ReplaceAll_absent:
  assumes "\<And>u v. s \<noteq> u @ d @ v"
  shows "ReplaceAll s d r = s"
  using assms
proof (induction s)
  case (Cons c cs)
  have "\<not> HasPrefix (c # cs) d"
    using Cons.prems [of "[]"] by (auto simp: HasPrefix_iff)
  moreover have "ReplaceAll cs d r = cs"
    by (rule Cons.IH) (metis Cons.prems append_Cons)
  ultimately show ?case by simp
qed simp

subsection \<open>The selection loop\<close>

lemma pick_in: "pick better b xs \<in> set (b # xs)"
  by (induction xs arbitrary: b) auto

lemma pick_least:
  fixes key :: "'a \<Rightarrow> 'k :: linorder"
  assumes "y \<in> set (b # xs)"
  shows "key (pick (\<lambda>x y. key x < key y) b xs) \<le> key y"
  using assms
proof (induction xs arbitrary: b y)
  case (Cons x xs)
  let ?m = "if key x < key b then x else b"
  have m: "key (pick (\<lambda>x y. key x < key y) ?m xs) \<le> key ?m"
    by (rule Cons.IH) simp
  show ?case
  proof (cases "y \<in> set xs")
    case True
    then show ?thesis using Cons.IH [of y ?m] by simp
  next
    case False
    with Cons.prems have "key ?m \<le> key y" by auto
    with m show ?thesis by simp
  qed
qed simp

lemma pick_perm:
  fixes key :: "'a \<Rightarrow> 'k :: linorder"
  assumes "set (b # xs) = set (c # ys)" and "inj_on key (set (b # xs))"
  shows "pick (\<lambda>x y. key x < key y) b xs = pick (\<lambda>x y. key x < key y) c ys"
proof -
  let ?p = "pick (\<lambda>x y. key x < key y) b xs" and ?q = "pick (\<lambda>x y. key x < key y) c ys"
  have p: "?p \<in> set (b # xs)" and q: "?q \<in> set (b # xs)"
    using assms(1) pick_in [of _ b xs] pick_in [of _ c ys] by simp_all
  have "key ?p \<le> key ?q" using q by (rule pick_least)
  moreover have "key ?q \<le> key ?p"
    by (rule pick_least) (use p assms(1) in blast)
  ultimately have "key ?p = key ?q" by simp
  with assms(2) p q show ?thesis by (meson inj_onD)
qed

end
