(* ===== verification/Api_Types.thy ===== *)
theory Api_Types
  imports Prelude
begin

text \<open>
  The data the program works on. First the custom resource of
  \<open>src/api/v1alpha1/remediationjob_types.go\<close> with every field of its Go structs; then, of the
  Kubernetes structs that the program only uses (\<open>k8s.io/api\<close>), the fields it reads or writes.
  A pointer field is an \<open>option\<close>, a \<open>map[string]string\<close> a partial map, a UID a string.
  A Go \<open>DeepCopy\<close> yields an equal value without sharing; values of HOL are never shared, so
  only the field-by-field code of \<open>DeepCopyInto\<close> itself is modelled, in order to show that it
  forgets no field.
\<close>

section \<open>Object metadata and conditions\<close>

record OwnerReference =
  or_APIVersion :: string
  or_Kind :: string
  or_Name :: string
  or_UID :: string
  or_Controller :: "bool option"
  or_BlockOwnerDeletion :: "bool option"

record ObjectMeta =
  om_Name :: string
  om_Namespace :: string
  om_UID :: string
  om_Labels :: "string \<rightharpoonup> string"
  om_Annotations :: "string \<rightharpoonup> string"
  om_OwnerReferences :: "OwnerReference list"
  om_CreationTimestamp :: time
  om_Generation :: int

record Condition =
  c_Type :: string
  c_Status :: string
  c_Reason :: string
  c_Message :: string
  c_LastTransitionTime :: time

section \<open>The RemediationJob resource\<close>

text \<open>
  \<open>RemediationJobPhase\<close>: the string constants of the Go code, and the empty string with which
  an object is created. The CRD schema admits no other value.
\<close>

datatype RemediationJobPhase =
    PhaseNone | PhasePending | PhaseDispatched | PhaseRunning | PhaseSucceeded | PhaseFailed
  | PhaseCancelled | PhasePermanentlyFailed | PhaseSuppressed

fun phase_string :: "RemediationJobPhase \<Rightarrow> string" where
  "phase_string PhaseNone = ''''"
| "phase_string PhasePending = ''Pending''"
| "phase_string PhaseDispatched = ''Dispatched''"
| "phase_string PhaseRunning = ''Running''"
| "phase_string PhaseSucceeded = ''Succeeded''"
| "phase_string PhaseFailed = ''Failed''"
| "phase_string PhaseCancelled = ''Cancelled''"
| "phase_string PhasePermanentlyFailed = ''PermanentlyFailed''"
| "phase_string PhaseSuppressed = ''Suppressed''"

definition ConditionJobDispatched :: string where "ConditionJobDispatched = ''JobDispatched''"
definition ConditionJobComplete :: string where "ConditionJobComplete = ''JobComplete''"
definition ConditionJobFailed :: string where "ConditionJobFailed = ''JobFailed''"
definition ConditionPermanentlyFailed :: string where
  "ConditionPermanentlyFailed = ''PermanentlyFailed''"
definition ConditionCorrelationSuppressed :: string where
  "ConditionCorrelationSuppressed = ''CorrelationSuppressed''"
definition ConditionPRRecorded :: string where "ConditionPRRecorded = ''PRRecorded''"

record ResultRef =
  rr_Name :: string
  rr_Namespace :: string

record FindingSpec =
  fs_Kind :: string
  fs_Name :: string
  fs_Namespace :: string
  fs_ParentObject :: string
  fs_Errors :: string
  fs_Details :: string
  fs_ChainDepth :: int

record SinkRef =
  sr_Type :: string
  sr_URL :: string
  sr_Number :: int
  sr_Repo :: string

record RemediationJobSpec =
  sp_SourceResultRef :: ResultRef
  sp_Fingerprint :: string
  sp_SourceType :: string
  sp_SinkType :: string
  sp_Finding :: FindingSpec
  sp_GitOpsRepo :: string
  sp_GitOpsManifestRoot :: string
  sp_AgentImage :: string
  sp_AgentSA :: string
  sp_MaxRetries :: int
  sp_Severity :: string

record RemediationJobStatus =
  st_Phase :: RemediationJobPhase
  st_JobRef :: string
  st_PRRef :: string
  st_DispatchedAt :: "time option"
  st_CompletedAt :: "time option"
  st_Message :: string
  st_RetryCount :: int
  st_Conditions :: "Condition list"
  st_CorrelationGroupID :: string
  st_SinkRef :: SinkRef
  st_PRMerged :: bool
  st_PRMergedAt :: "time option"

record RemediationJob =
  rj_Meta :: ObjectMeta
  rj_Spec :: RemediationJobSpec
  rj_Status :: RemediationJobStatus

text \<open>
  \<open>DeepCopyInto\<close> starts from \<open>*out = *in\<close> and then assigns the fields one by one; the copied
  \<open>ObjectMeta\<close> is an equal value.
\<close>

definition DeepCopyInto :: "RemediationJob \<Rightarrow> RemediationJob \<Rightarrow> RemediationJob" where
  "DeepCopyInto src out =
     (let out = src;
          out = out\<lparr>rj_Meta := rj_Meta src\<rparr>;
          out = out\<lparr>rj_Spec := rj_Spec src\<rparr>;
          i = rj_Status src;
          s = rj_Status out;
          s = s\<lparr>st_Phase := st_Phase i, st_JobRef := st_JobRef i, st_PRRef := st_PRRef i,
                st_Message := st_Message i, st_RetryCount := st_RetryCount i\<rparr>;
          s = (case st_DispatchedAt i of None \<Rightarrow> s | Some t \<Rightarrow> s\<lparr>st_DispatchedAt := Some t\<rparr>);
          s = (case st_CompletedAt i of None \<Rightarrow> s | Some t \<Rightarrow> s\<lparr>st_CompletedAt := Some t\<rparr>);
          s = s\<lparr>st_Conditions := st_Conditions i\<rparr>;
          s = s\<lparr>st_CorrelationGroupID := st_CorrelationGroupID i, st_SinkRef := st_SinkRef i,
                st_PRMerged := st_PRMerged i\<rparr>;
          s = (case st_PRMergedAt i of None \<Rightarrow> s | Some t \<Rightarrow> s\<lparr>st_PRMergedAt := Some t\<rparr>)
      in out\<lparr>rj_Status := s\<rparr>)"

text \<open>\<open>DeepCopyObject\<close> of a non-nil receiver, and of a nil one.\<close>

definition DeepCopyObject :: "RemediationJob option \<Rightarrow> RemediationJob \<Rightarrow> RemediationJob option" where
  "DeepCopyObject p fresh = (case p of None \<Rightarrow> None | Some j \<Rightarrow> Some (DeepCopyInto j fresh))"

text \<open>Short names for paths that the handlers use all the time.\<close>

abbreviation rj_Name :: "RemediationJob \<Rightarrow> string" where
  "rj_Name j \<equiv> om_Name (rj_Meta j)"
abbreviation rj_Namespace :: "RemediationJob \<Rightarrow> string" where
  "rj_Namespace j \<equiv> om_Namespace (rj_Meta j)"
abbreviation rj_UID :: "RemediationJob \<Rightarrow> string" where
  "rj_UID j \<equiv> om_UID (rj_Meta j)"
abbreviation rj_Labels :: "RemediationJob \<Rightarrow> string \<rightharpoonup> string" where
  "rj_Labels j \<equiv> om_Labels (rj_Meta j)"
abbreviation rj_Annotations :: "RemediationJob \<Rightarrow> string \<rightharpoonup> string" where
  "rj_Annotations j \<equiv> om_Annotations (rj_Meta j)"
abbreviation rj_Created :: "RemediationJob \<Rightarrow> time" where
  "rj_Created j \<equiv> om_CreationTimestamp (rj_Meta j)"
abbreviation rj_Finding :: "RemediationJob \<Rightarrow> FindingSpec" where
  "rj_Finding j \<equiv> sp_Finding (rj_Spec j)"
abbreviation rj_Phase :: "RemediationJob \<Rightarrow> RemediationJobPhase" where
  "rj_Phase j \<equiv> st_Phase (rj_Status j)"
abbreviation rj_SinkURL :: "RemediationJob \<Rightarrow> string" where
  "rj_SinkURL j \<equiv> sr_URL (st_SinkRef (rj_Status j))"

definition set_phase :: "RemediationJobPhase \<Rightarrow> RemediationJob \<Rightarrow> RemediationJob" where
  "set_phase p j = j\<lparr>rj_Status := (rj_Status j)\<lparr>st_Phase := p\<rparr>\<rparr>"

definition set_label :: "string \<Rightarrow> string \<Rightarrow> RemediationJob \<Rightarrow> RemediationJob" where
  "set_label k v j = j\<lparr>rj_Meta := (rj_Meta j)\<lparr>om_Labels := (rj_Labels j)(k \<mapsto> v)\<rparr>\<rparr>"

text \<open>The Go zero value of the struct, and an object with a few fields set, for evaluation.\<close>

definition zero_meta :: ObjectMeta where
  "zero_meta = \<lparr>om_Name = [], om_Namespace = [], om_UID = [], om_Labels = Map.empty,
     om_Annotations = Map.empty, om_OwnerReferences = [], om_CreationTimestamp = zeroTime, om_Generation = 0\<rparr>"

definition zero_spec :: RemediationJobSpec where
  "zero_spec = \<lparr>sp_SourceResultRef = \<lparr>rr_Name = [], rr_Namespace = []\<rparr>, sp_Fingerprint = [],
     sp_SourceType = [], sp_SinkType = [],
     sp_Finding = \<lparr>fs_Kind = [], fs_Name = [], fs_Namespace = [], fs_ParentObject = [], fs_Errors = [],
                   fs_Details = [], fs_ChainDepth = 0\<rparr>,
     sp_GitOpsRepo = [], sp_GitOpsManifestRoot = [], sp_AgentImage = [], sp_AgentSA = [],
     sp_MaxRetries = 0, sp_Severity = []\<rparr>"

definition zero_status :: RemediationJobStatus where
  "zero_status = \<lparr>st_Phase = PhaseNone, st_JobRef = [], st_PRRef = [], st_DispatchedAt = None,
     st_CompletedAt = None, st_Message = [], st_RetryCount = 0, st_Conditions = [],
     st_CorrelationGroupID = [],
     st_SinkRef = \<lparr>sr_Type = [], sr_URL = [], sr_Number = 0, sr_Repo = []\<rparr>,
     st_PRMerged = False, st_PRMergedAt = None\<rparr>"

definition sample_rjob :: "string \<Rightarrow> string \<Rightarrow> string \<Rightarrow> time \<Rightarrow> RemediationJobPhase \<Rightarrow> RemediationJob" where
  "sample_rjob name kind object created phase = \<lparr>
     rj_Meta = zero_meta\<lparr>om_Name := name, om_UID := ''uid-'' @ name, om_CreationTimestamp := created\<rparr>,
     rj_Spec = zero_spec\<lparr>sp_Finding := (sp_Finding zero_spec)\<lparr>fs_Kind := kind, fs_Name := object\<rparr>\<rparr>,
     rj_Status = zero_status\<lparr>st_Phase := phase\<rparr>\<rparr>"

lemmas sample_defs = sample_rjob_def zero_meta_def zero_spec_def zero_status_def

section \<open>Kubernetes objects the program uses\<close>

record EnvVar =
  ev_Name :: string
  ev_Value :: string
  ev_SecretKeyRef :: "(string \<times> string) option"  \<comment> \<open>secret name and key\<close>

record VolumeMount =
  vm_Name :: string
  vm_MountPath :: string
  vm_ReadOnly :: bool

record SecurityContext =
  sc_ReadOnlyRootFilesystem :: "bool option"
  sc_RunAsNonRoot :: "bool option"
  sc_AllowPrivilegeEscalation :: "bool option"
  sc_Drop :: "string list"

text \<open>A \<open>resource.Quantity\<close> is represented by the text it was parsed from.\<close>

record ResourceRequirements =
  rq_Requests :: "string \<rightharpoonup> string"
  rq_Limits :: "string \<rightharpoonup> string"

record Container =
  ct_Name :: string
  ct_Image :: string
  ct_Command :: "string list"
  ct_Args :: "string list"
  ct_Env :: "EnvVar list"
  ct_VolumeMounts :: "VolumeMount list"
  ct_Resources :: ResourceRequirements
  ct_SecurityContext :: SecurityContext

datatype VolumeSource =
    EmptyDir
  | ProjectedConfigMaps "(string \<times> (string \<times> string) list) list"
  | SecretVolume string

record Volume =
  vo_Name :: string
  vo_Source :: VolumeSource

record PodTemplate =
  pt_ServiceAccountName :: string
  pt_RestartPolicy :: string
  pt_RunAsNonRoot :: "bool option"
  pt_RunAsUser :: "int option"
  pt_InitContainers :: "Container list"
  pt_Containers :: "Container list"
  pt_Volumes :: "Volume list"

record JobCondition =
  jc_Type :: string
  jc_Status :: string
  jc_Reason :: string
  jc_Message :: string

record Job =
  jb_Meta :: ObjectMeta
  jb_BackoffLimit :: "int option"
  jb_ActiveDeadlineSeconds :: "int option"
  jb_TTLSecondsAfterFinished :: "int option"
  jb_Template :: PodTemplate
  jb_Active :: int
  jb_Succeeded :: int
  jb_Failed :: int
  jb_CompletionTime :: "time option"
  jb_Conditions :: "JobCondition list"

section \<open>Lemmas\<close>

lemma phase_string_inj: "phase_string p = phase_string q \<Longrightarrow> p = q"
  by (cases p; cases q) simp_all

lemma set_phase_simps [simp]:
  "rj_Meta (set_phase p j) = rj_Meta j" "rj_Spec (set_phase p j) = rj_Spec j"
  "rj_Phase (set_phase p j) = p"
  "st_JobRef (rj_Status (set_phase p j)) = st_JobRef (rj_Status j)"
  "st_RetryCount (rj_Status (set_phase p j)) = st_RetryCount (rj_Status j)"
  "st_CompletedAt (rj_Status (set_phase p j)) = st_CompletedAt (rj_Status j)"
  "st_Conditions (rj_Status (set_phase p j)) = st_Conditions (rj_Status j)"
  "st_SinkRef (rj_Status (set_phase p j)) = st_SinkRef (rj_Status j)"
  by (simp_all add: set_phase_def)

lemma set_label_simps [simp]:
  "rj_Spec (set_label k v j) = rj_Spec j" "rj_Status (set_label k v j) = rj_Status j"
  "rj_UID (set_label k v j) = rj_UID j" "rj_Name (set_label k v j) = rj_Name j"
  "rj_Labels (set_label k v j) = (rj_Labels j)(k \<mapsto> v)"
  by (simp_all add: set_label_def)

end
