(* ===== verification/Kube.thy ===== *)
theory Kube
  imports Api_Types
begin

text \<open>
  The outside of the program. The API server, the clock, the random source and the event
  recorder are not code of the repository: they are the fields of a record \<open>'w kube\<close>, an
  argument of every definition that calls them. A field is a program over an unknown world
  \<open>'w\<close>: a call may return anything its type allows and may change the world, so two reads in
  one handler need not agree and other writers may act between any two calls.
  Of \<open>k8s.io/apimachinery\<close> the program uses the classification of API errors (\<open>IsNotFound\<close>,
  \<open>IsAlreadyExists\<close>), which is the constructor of an \<open>api_error\<close>, and two functions on
  condition lists, which are fields of the record.

  A handler runs on a \<open>sys\<close>: the world and the trace of the calls that leave a mark outside
  (writes, events, metrics), oldest first. Log lines are not part of the trace.
\<close>

section \<open>Errors, results, effects\<close>

datatype api_error = NotFound string | AlreadyExists string | OtherAPI string

datatype go_error =
    Api api_error
  | Err string
  | Wrap string go_error
  | Joined "go_error list"
  | GoPanic string

fun IsNotFound :: "api_error \<Rightarrow> bool" where
  "IsNotFound (NotFound _) = True"
| "IsNotFound _ = False"

fun IsAlreadyExists :: "api_error \<Rightarrow> bool" where
  "IsAlreadyExists (AlreadyExists _) = True"
| "IsAlreadyExists _ = False"

text \<open>\<open>ctrl.Result\<close>, and what a \<open>Reconcile\<close> returns.\<close>

record Result =
  rs_Requeue :: bool
  rs_RequeueAfter :: duration

type_synonym reconcile_result = "Result \<times> go_error option"

definition Done :: Result where "Done = \<lparr>rs_Requeue = False, rs_RequeueAfter = 0\<rparr>"
definition Requeue :: Result where "Requeue = \<lparr>rs_Requeue = True, rs_RequeueAfter = 0\<rparr>"
definition RequeueAfter :: "duration \<Rightarrow> Result" where
  "RequeueAfter d = \<lparr>rs_Requeue = False, rs_RequeueAfter = d\<rparr>"

text \<open>The calls of \<open>internal/metrics\<close>; their effect on the registry is in theory \<open>Metrics\<close>.\<close>

datatype metric =
    RecordDispatched string string
  | RecordSuppressed string
  | SetActiveJobs int
  | SetPendingJobs int
  | ObserveJobDuration string string time time
  | RecordPROpened
  | RecordPRClosed
  | RecordCircuitBreakerActivation

datatype event_target = OnSource | OnRJob RemediationJob

datatype effect =
    CreateRJob RemediationJob
  | PatchStatus RemediationJob RemediationJob  \<comment> \<open>base and new object of a merge patch\<close>
  | PatchRJob RemediationJob RemediationJob
  | DeleteRJob RemediationJob
  | CreateJob Job
  | DeleteConfigMap string string
  | CloseSink RemediationJob string
  | Event event_target string string string  \<comment> \<open>object, type, reason, message\<close>
  | Metric metric

section \<open>The client, the clock and the random source\<close>

type_synonym labels = "(string \<times> string) list"

record 'w kube =
  k_now :: "('w, time) state"
  k_rand_read :: "nat \<Rightarrow> ('w, nat list option) state"  \<comment> \<open>\<open>None\<close>: \<open>rand.Read\<close> failed\<close>
  k_get_rjob :: "string \<Rightarrow> string \<Rightarrow> ('w, api_error + RemediationJob) state"
  k_list_rjobs :: "string \<Rightarrow> labels \<Rightarrow> ('w, api_error + RemediationJob list) state"
  k_create_rjob :: "RemediationJob \<Rightarrow> ('w, api_error option) state"
  k_patch_status :: "RemediationJob \<Rightarrow> RemediationJob \<Rightarrow> ('w, api_error + RemediationJob) state"
  k_patch_rjob :: "RemediationJob \<Rightarrow> RemediationJob \<Rightarrow> ('w, api_error + RemediationJob) state"
  k_delete_rjob :: "RemediationJob \<Rightarrow> ('w, api_error option) state"
  k_list_jobs :: "string \<Rightarrow> labels \<Rightarrow> ('w, api_error + Job list) state"
  k_get_job :: "string \<Rightarrow> string \<Rightarrow> ('w, api_error + Job) state"
  k_create_job :: "Job \<Rightarrow> ('w, api_error option) state"
  k_get_configmap :: "string \<Rightarrow> string \<Rightarrow> ('w, api_error + (string \<rightharpoonup> string)) state"
  k_delete_configmap :: "string \<Rightarrow> string \<Rightarrow> ('w, api_error option) state"
  k_get_namespace :: "string \<Rightarrow> ('w, api_error + (string \<rightharpoonup> string)) state"  \<comment> \<open>its annotations\<close>
  k_get_pod_claims :: "string \<Rightarrow> string \<Rightarrow> ('w, api_error + string option list) state"
    \<comment> \<open>the pod's volumes, each with its claim name if it is a PVC volume\<close>
  k_SetStatusCondition :: "Condition list \<Rightarrow> Condition \<Rightarrow> Condition list"
  k_IsStatusConditionTrue :: "Condition list \<Rightarrow> string \<Rightarrow> bool"

text \<open>
  A concrete instance, for evaluating the handlers: a cluster without objects that accepts every
  write, a clock that stands still and a random source that returns zeros. The conditions follow
  \<open>meta.SetStatusCondition\<close>: replace the condition of that type or append it.
\<close>

definition set_condition :: "Condition list \<Rightarrow> Condition \<Rightarrow> Condition list" where
  "set_condition cs c =
     (if c_Type c \<in> c_Type ` set cs then map (\<lambda>d. if c_Type d = c_Type c then c else d) cs else cs @ [c])"

definition empty_cluster :: "time \<Rightarrow> 'w kube" where
  "empty_cluster now = \<lparr>
     k_now = ret now,
     k_rand_read = (\<lambda>n. ret (Some (replicate n 0))),
     k_get_rjob = (\<lambda>ns n. ret (Inl (NotFound n))),
     k_list_rjobs = (\<lambda>ns ls. ret (Inr [])),
     k_create_rjob = (\<lambda>j. ret None),
     k_patch_status = (\<lambda>b n. ret (Inr n)),
     k_patch_rjob = (\<lambda>b n. ret (Inr n)),
     k_delete_rjob = (\<lambda>j. ret None),
     k_list_jobs = (\<lambda>ns ls. ret (Inr [])),
     k_get_job = (\<lambda>ns n. ret (Inl (NotFound n))),
     k_create_job = (\<lambda>j. ret None),
     k_get_configmap = (\<lambda>ns n. ret (Inl (NotFound n))),
     k_delete_configmap = (\<lambda>ns n. ret None),
     k_get_namespace = (\<lambda>n. ret (Inr Map.empty)),
     k_get_pod_claims = (\<lambda>ns n. ret (Inl (NotFound n))),
     k_SetStatusCondition = set_condition,
     k_IsStatusConditionTrue = (\<lambda>cs t. \<exists>c \<in> set cs. c_Type c = t \<and> c_Status c = ''True'')\<rparr>"

section \<open>Handler state and calls\<close>

record 'w sys =
  world :: 'w
  trace :: "effect list"

text \<open>\<open>ask c\<close> calls out without a mark; \<open>act e c\<close> also records the effect.\<close>

definition ask :: "('w, 'a) state \<Rightarrow> (('w, 'z) sys_scheme, 'a) state" where
  "ask c = State (\<lambda>s. case run_state c (world s) of (a, w) \<Rightarrow> (a, s\<lparr>world := w\<rparr>))"

definition emit :: "effect \<Rightarrow> (('w, 'z) sys_scheme, unit) state" where
  "emit e = State (\<lambda>s. ((), s\<lparr>trace := trace s @ [e]\<rparr>))"

definition act :: "effect \<Rightarrow> ('w, 'a) state \<Rightarrow> (('w, 'z) sys_scheme, 'a) state" where
  "act e c = do { emit e; ask c }"

text \<open>
  A client call that updates its argument: the server's answer replaces the object, an error
  leaves it as it is.
\<close>

definition patch_status :: "'w kube \<Rightarrow> RemediationJob \<Rightarrow> RemediationJob \<Rightarrow>
    (('w, 'z) sys_scheme, RemediationJob \<times> api_error option) state" where
  "patch_status K base new = do {
     r \<leftarrow> act (PatchStatus base new) (k_patch_status K base new);
     ret (case r of Inl e \<Rightarrow> (new, Some e) | Inr j \<Rightarrow> (j, None))
   }"

definition patch_rjob :: "'w kube \<Rightarrow> RemediationJob \<Rightarrow> RemediationJob \<Rightarrow>
    (('w, 'z) sys_scheme, RemediationJob \<times> api_error option) state" where
  "patch_rjob K base new = do {
     r \<leftarrow> act (PatchRJob base new) (k_patch_rjob K base new);
     ret (case r of Inl e \<Rightarrow> (new, Some e) | Inr j \<Rightarrow> (j, None))
   }"

definition delete_rjob :: "'w kube \<Rightarrow> RemediationJob \<Rightarrow> (('w, 'z) sys_scheme, api_error option) state" where
  "delete_rjob K j = act (DeleteRJob j) (k_delete_rjob K j)"

section \<open>Reasoning about traces\<close>

text \<open>
  \<open>gives A P m\<close>: in every state, \<open>m\<close> extends the trace by effects of the kind \<open>A\<close> only, and its
  result satisfies \<open>P\<close>. \<open>emits A m\<close> leaves the result open. \<open>appends P m\<close> speaks of the whole list of
  effects that \<open>m\<close> adds.
\<close>

definition appends :: "(effect list \<Rightarrow> bool) \<Rightarrow> (('w, 'z) sys_scheme, 'a) state \<Rightarrow> bool" where
  "appends P m = (\<forall>s. \<exists>es. trace (snd (run_state m s)) = trace s @ es \<and> P es)"

definition gives :: "(effect \<Rightarrow> bool) \<Rightarrow> ('a \<Rightarrow> bool) \<Rightarrow> (('w, 'z) sys_scheme, 'a) state \<Rightarrow> bool" where
  "gives A P m = (\<forall>s. wp m (\<lambda>a s'. P a \<and> (\<exists>es. trace s' = trace s @ es \<and> list_all A es)) s)"

abbreviation emits :: "(effect \<Rightarrow> bool) \<Rightarrow> (('w, 'z) sys_scheme, 'a) state \<Rightarrow> bool" where
  "emits A m \<equiv> gives A (\<lambda>_. True) m"

named_theorems gives_intros \<open>introduction rules of the effect system\<close>

lemma wp_ask [wp_simps]:
  "wp (ask c) Q = (\<lambda>s. \<forall>a w. run_state c (world s) = (a, w) \<longrightarrow> Q a (s\<lparr>world := w\<rparr>))"
  by (simp add: wp_def ask_def fun_eq_iff split: prod.split)

lemma wp_emit [wp_simps]: "wp (emit e) Q = (\<lambda>s. Q () (s\<lparr>trace := trace s @ [e]\<rparr>))"
  by (simp add: wp_def emit_def fun_eq_iff)

lemma wp_act [wp_simps]:
  "wp (act e c) Q = (\<lambda>s.
     \<forall>a w. run_state c (world s) = (a, w) \<longrightarrow> Q a (s\<lparr>trace := trace s @ [e], world := w\<rparr>))"
  by (simp add: act_def wp_simps fun_eq_iff)

lemma wp_delete_rjob [wp_simps]:
  "wp (delete_rjob K j) Q = (\<lambda>s.
     \<forall>a w. run_state (k_delete_rjob K j) (world s) = (a, w) \<longrightarrow>
        Q a (s\<lparr>trace := trace s @ [DeleteRJob j], world := w\<rparr>))"
  by (simp add: delete_rjob_def wp_simps)

lemma wp_patch_status [wp_simps]:
  "wp (patch_status K b n) Q = (\<lambda>s.
     \<forall>r w. run_state (k_patch_status K b n) (world s) = (r, w) \<longrightarrow>
        Q (case r of Inl e \<Rightarrow> (n, Some e) | Inr j \<Rightarrow> (j, None))
          (s\<lparr>trace := trace s @ [PatchStatus b n], world := w\<rparr>))"
  by (simp add: patch_status_def wp_simps)

lemma wp_patch_rjob [wp_simps]:
  "wp (patch_rjob K b n) Q = (\<lambda>s.
     \<forall>r w. run_state (k_patch_rjob K b n) (world s) = (r, w) \<longrightarrow>
        Q (case r of Inl e \<Rightarrow> (n, Some e) | Inr j \<Rightarrow> (j, None))
          (s\<lparr>trace := trace s @ [PatchRJob b n], world := w\<rparr>))"
  by (simp add: patch_rjob_def wp_simps)

lemma appends_wp: "appends P m \<longleftrightarrow> (\<forall>s. wp m (\<lambda>_ s'. \<exists>es. trace s' = trace s @ es \<and> P es) s)"
  by (simp add: appends_def wp_def split_def)

lemma appends_mono: "appends P m \<Longrightarrow> (\<And>es. P es \<Longrightarrow> Q es) \<Longrightarrow> appends Q m"
  by (fastforce simp: appends_def)

lemma appends_return: "P [] \<Longrightarrow> appends P (State_Monad.return a)"
  by (simp add: appends_def)

lemma appends_bind:
  assumes "appends P m" and "\<And>a. appends Q (f a)" and "\<And>xs ys. P xs \<Longrightarrow> Q ys \<Longrightarrow> R (xs @ ys)"
  shows "appends R (State_Monad.bind m f)"
  unfolding appends_def
proof
  fix s
  obtain a s' where m: "run_state m s = (a, s')" by (cases "run_state m s")
  from assms(1) m obtain xs where xs: "trace s' = trace s @ xs" "P xs"
    by (metis appends_def snd_conv)
  from assms(2) obtain ys where ys: "trace (snd (run_state (f a) s')) = trace s' @ ys" "Q ys"
    by (metis appends_def)
  show "\<exists>es. trace (snd (run_state (State_Monad.bind m f) s)) = trace s @ es \<and> R es"
    using m xs ys assms(3) by auto
qed

lemma gives_appends: "gives A P m \<Longrightarrow> appends (list_all A) m"
  by (auto simp: gives_def appends_def wp_def split_def)

lemma givesD:
  assumes "gives A P m" "run_state m s = (a, s')"
  shows "P a" "\<exists>es. trace s' = trace s @ es \<and> list_all A es"
  using assms(1) [unfolded gives_def, rule_format, of s] assms(2) by (auto simp: wp_def)

lemma givesI:
  "(\<And>s a s'. run_state m s = (a, s') \<Longrightarrow> P a \<and> (\<exists>es. trace s' = trace s @ es \<and> list_all A es)) \<Longrightarrow> gives A P m"
  by (simp add: gives_def wpI)

lemma gives_mono: "gives A P m \<Longrightarrow> (\<And>e. A e \<Longrightarrow> B e) \<Longrightarrow> (\<And>a. P a \<Longrightarrow> Q a) \<Longrightarrow> gives B Q m"
  unfolding gives_def by (fastforce elim!: wp_mono list.pred_mono_strong)

lemma gives_conj: "gives A P m \<Longrightarrow> gives A Q m \<Longrightarrow> gives A (\<lambda>a. P a \<and> Q a) m"
  unfolding gives_def by (auto simp: wp_def split: prod.splits)

lemma emits_of: "gives A P m \<Longrightarrow> emits A m"
  by (erule gives_mono) simp_all

lemma gives_return [gives_intros]: "P a \<Longrightarrow> gives A P (State_Monad.return a)"
  by (simp add: gives_def wp_simps)

lemma gives_bind:
  assumes "gives A P m" and "\<And>a. P a \<Longrightarrow> gives A Q (f a)"
  shows "gives A Q (State_Monad.bind m f)"
proof (rule givesI)
  fix s b s'' assume r: "run_state (State_Monad.bind m f) s = (b, s'')"
  obtain a s' where m: "run_state m s = (a, s')" by (cases "run_state m s")
  with r have f: "run_state (f a) s' = (b, s'')" by simp
  from givesD [OF assms(1) m] obtain xs where "P a" "trace s' = trace s @ xs" "list_all A xs" by blast
  moreover from givesD [OF assms(2) f] \<open>P a\<close> obtain ys where "Q b" "trace s'' = trace s' @ ys" "list_all A ys" by blast
  ultimately show "Q b \<and> (\<exists>es. trace s'' = trace s @ es \<and> list_all A es)"
    by (intro conjI exI [of _ "xs @ ys"]) simp_all
qed

lemma gives_bind_any [gives_intros]:
  "emits A m \<Longrightarrow> (\<And>a. gives A Q (f a)) \<Longrightarrow> gives A Q (State_Monad.bind m f)"
  by (rule gives_bind)

lemma gives_if [gives_intros]: "(b \<Longrightarrow> gives A P m) \<Longrightarrow> (\<not> b \<Longrightarrow> gives A P n) \<Longrightarrow> gives A P (if b then m else n)"
  by simp

lemma gives_option [gives_intros]:
  "(x = None \<Longrightarrow> gives A P m) \<Longrightarrow> (\<And>a. x = Some a \<Longrightarrow> gives A P (f a)) \<Longrightarrow>
     gives A P (case x of None \<Rightarrow> m | Some a \<Rightarrow> f a)"
  by (cases x) simp_all

lemma gives_sum [gives_intros]:
  "(\<And>a. x = Inl a \<Longrightarrow> gives A P (f a)) \<Longrightarrow> (\<And>b. x = Inr b \<Longrightarrow> gives A P (g b)) \<Longrightarrow>
     gives A P (case x of Inl a \<Rightarrow> f a | Inr b \<Rightarrow> g b)"
  by (cases x) simp_all

lemma gives_prod [gives_intros]:
  "(\<And>a b. x = (a, b) \<Longrightarrow> gives A P (f a b)) \<Longrightarrow> gives A P (case x of (a, b) \<Rightarrow> f a b)"
  by (cases x) simp

lemma gives_list [gives_intros]:
  "(x = [] \<Longrightarrow> gives A P m) \<Longrightarrow> (\<And>a b. x = a # b \<Longrightarrow> gives A P (f a b)) \<Longrightarrow>
     gives A P (case x of [] \<Rightarrow> m | a # b \<Rightarrow> f a b)"
  by (cases x) simp_all

lemma gives_Let [gives_intros]: "(\<And>x. x = t \<Longrightarrow> gives A P (f x)) \<Longrightarrow> gives A P (Let t f)"
  by simp

lemma gives_ask: "(\<And>a w w'. run_state c w = (a, w') \<Longrightarrow> P a) \<Longrightarrow> gives A P (ask c)"
  by (simp add: gives_def wp_simps)

lemma gives_emit [gives_intros]: "A e \<Longrightarrow> P () \<Longrightarrow> gives A P (emit e)"
  by (simp add: gives_def wp_simps)

lemma gives_act: "A e \<Longrightarrow> (\<And>a w w'. run_state c w = (a, w') \<Longrightarrow> P a) \<Longrightarrow> gives A P (act e c)"
  by (simp add: gives_def wp_simps)

lemma gives_patch_status:
  assumes "A (PatchStatus b n)" "\<And>e. P (n, Some e)"
    and "\<And>j w w'. run_state (k_patch_status K b n) w = (Inr j, w') \<Longrightarrow> P (j, None)"
  shows "gives A P (patch_status K b n)"
  using assms by (auto simp: gives_def wp_simps split: sum.splits)

lemma gives_patch_rjob:
  assumes "A (PatchRJob b n)" "\<And>e. P (n, Some e)"
    and "\<And>j w w'. run_state (k_patch_rjob K b n) w = (Inr j, w') \<Longrightarrow> P (j, None)"
  shows "gives A P (patch_rjob K b n)"
  using assms by (auto simp: gives_def wp_simps split: sum.splits)

lemma emits_calls [gives_intros]:
  "emits A (ask c)"
  "A e \<Longrightarrow> emits A (act e c)"
  "A (PatchStatus b n) \<Longrightarrow> emits A (patch_status K b n)"
  "A (PatchRJob b n) \<Longrightarrow> emits A (patch_rjob K b n)"
  "A (DeleteRJob j) \<Longrightarrow> emits A (delete_rjob K j)"
  by (simp_all add: gives_def wp_simps)

text \<open>\<open>spends A b m\<close>: \<open>m\<close> adds at most \<open>b a\<close> effects of the kind \<open>A\<close> when its result is \<open>a\<close>.\<close>

definition spends :: "(effect \<Rightarrow> bool) \<Rightarrow> ('a \<Rightarrow> nat) \<Rightarrow> (('w, 'z) sys_scheme, 'a) state \<Rightarrow> bool" where
  "spends A b m = (\<forall>s. wp m (\<lambda>a s'. \<exists>es. trace s' = trace s @ es \<and> length (filter A es) \<le> b a) s)"

lemma spendsI:
  "(\<And>s a s'. run_state m s = (a, s') \<Longrightarrow> \<exists>es. trace s' = trace s @ es \<and> length (filter A es) \<le> b a) \<Longrightarrow> spends A b m"
  by (simp add: spends_def wpI)

lemma spendsD:
  "spends A b m \<Longrightarrow> run_state m s = (a, s') \<Longrightarrow> \<exists>es. trace s' = trace s @ es \<and> length (filter A es) \<le> b a"
  unfolding spends_def using wp_run by fastforce

lemma spends_none: "emits (\<lambda>e. \<not> A e) m \<Longrightarrow> spends A b m"
  by (rule spendsI, drule (1) givesD(2)) (fastforce simp: list_all_iff filter_False)

lemma spends_skip:
  assumes "emits (\<lambda>e. \<not> A e) m" "\<And>x. spends A b (f x)"
  shows "spends A b (State_Monad.bind m f)"
proof (rule spendsI)
  fix s c s'' assume r: "run_state (State_Monad.bind m f) s = (c, s'')"
  obtain a s' where m: "run_state m s = (a, s')" by (cases "run_state m s")
  with r have f: "run_state (f a) s' = (c, s'')" by simp
  from givesD(2) [OF assms(1) m] spendsD [OF assms(2) f]
  obtain xs ys where "trace s' = trace s @ xs" "list_all (\<lambda>e. \<not> A e) xs" "trace s'' = trace s' @ ys" "length (filter A ys) \<le> b c"
    by blast
  then show "\<exists>es. trace s'' = trace s @ es \<and> length (filter A es) \<le> b c"
    by (intro exI [of _ "xs @ ys"]) (simp add: list_all_iff filter_False)
qed

lemma spends_last:
  assumes "spends A (\<lambda>_. n) m" "\<And>x. gives (\<lambda>e. \<not> A e) (\<lambda>y. n \<le> b y) (f x)"
  shows "spends A b (State_Monad.bind m f)"
proof (rule spendsI)
  fix s c s'' assume r: "run_state (State_Monad.bind m f) s = (c, s'')"
  obtain a s' where m: "run_state m s = (a, s')" by (cases "run_state m s")
  with r have f: "run_state (f a) s' = (c, s'')" by simp
  from spendsD [OF assms(1) m] givesD [OF assms(2) f]
  obtain xs ys where "trace s' = trace s @ xs" "length (filter A xs) \<le> n" "trace s'' = trace s' @ ys"
      "list_all (\<lambda>e. \<not> A e) ys" "n \<le> b c"
    by blast
  then show "\<exists>es. trace s'' = trace s @ es \<and> length (filter A es) \<le> b c"
    by (intro exI [of _ "xs @ ys"]) (simp add: list_all_iff filter_False)
qed

text \<open>A first part that may already have spent, and a second part that spends only if it has not.\<close>

lemma spends_either:
  assumes "spends A (case_option 0 (\<lambda>_. n)) m" "\<And>y. emits (\<lambda>e. \<not> A e) (g y)" "spends A (\<lambda>_. n) h"
  shows "spends A (\<lambda>_. n) (State_Monad.bind m (\<lambda>x. case x of Some y \<Rightarrow> g y | None \<Rightarrow> h))"
proof (rule spendsI)
  fix s c s'' assume r: "run_state (State_Monad.bind m (\<lambda>x. case x of Some y \<Rightarrow> g y | None \<Rightarrow> h)) s = (c, s'')"
  obtain a s' where m: "run_state m s = (a, s')" by (cases "run_state m s")
  from spendsD [OF assms(1) m] obtain xs where xs: "trace s' = trace s @ xs" "length (filter A xs) \<le> case_option 0 (\<lambda>_. n) a"
    by blast
  show "\<exists>es. trace s'' = trace s @ es \<and> length (filter A es) \<le> n"
  proof (cases a)
    case None
    with r m obtain ys where "trace s'' = trace s' @ ys" "length (filter A ys) \<le> n"
      using spendsD [OF assms(3)] by fastforce
    with xs None show ?thesis by (intro exI [of _ "xs @ ys"]) simp
  next
    case (Some y)
    with r m obtain ys where "trace s'' = trace s' @ ys" "list_all (\<lambda>e. \<not> A e) ys"
      using givesD(2) [OF assms(2)] by fastforce
    with xs Some show ?thesis by (intro exI [of _ "xs @ ys"]) (simp add: list_all_iff filter_False)
  qed
qed

lemma spends_act: "spends A (\<lambda>_. 1) (act e c)"
  by (rule spendsI) (auto simp: act_def ask_def emit_def split: prod.splits)

lemma spends_case:
  "(c \<Longrightarrow> spends A b m) \<Longrightarrow> (\<not> c \<Longrightarrow> spends A b m') \<Longrightarrow> spends A b (if c then m else m')"
  "(x = None \<Longrightarrow> spends A b m) \<Longrightarrow> (\<And>a. x = Some a \<Longrightarrow> spends A b (f a)) \<Longrightarrow>
     spends A b (case x of None \<Rightarrow> m | Some a \<Rightarrow> f a)"
  "(\<And>a. y = Inl a \<Longrightarrow> spends A b (g a)) \<Longrightarrow> (\<And>d. y = Inr d \<Longrightarrow> spends A b (h d)) \<Longrightarrow>
     spends A b (case y of Inl a \<Rightarrow> g a | Inr d \<Rightarrow> h d)"
  "(\<And>a d. z = (a, d) \<Longrightarrow> spends A b (k a d)) \<Longrightarrow> spends A b (case z of (a, d) \<Rightarrow> k a d)"
  "(l = [] \<Longrightarrow> spends A b m) \<Longrightarrow> (\<And>a d. l = a # d \<Longrightarrow> spends A b (q a d)) \<Longrightarrow>
     spends A b (case l of [] \<Rightarrow> m | a # d \<Rightarrow> q a d)"
  "(\<And>x. x = t \<Longrightarrow> spends A b (r x)) \<Longrightarrow> spends A b (Let t r)"
  by (simp_all split: option.split sum.split prod.split list.split)

end
