(* ===== verification/Domain.thy ===== *)
theory Domain
  imports Kube
begin

text \<open>
  The vocabulary of \<open>src/internal/domain\<close>: severities (\<open>severity.go\<close>), the control annotations
  (\<open>annotations.go\<close>), the \<open>Finding\<close> and the ranks of Kubernetes kinds (\<open>provider.go\<close>), the
  labels, the result type and the identifiers of correlation (\<open>correlation.go\<close>), and the
  do-nothing sinks (\<open>sink.go\<close>). The package \<open>time\<close>'s parser for the layout \<open>2006-01-02\<close> is
  written out, since the semantics of \<open>skip-until\<close> rests on it.
\<close>

section \<open>Severity\<close>

type_synonym Severity = string

definition SeverityCritical :: Severity where "SeverityCritical = ''critical''"
definition SeverityHigh :: Severity where "SeverityHigh = ''high''"
definition SeverityMedium :: Severity where "SeverityMedium = ''medium''"
definition SeverityLow :: Severity where "SeverityLow = ''low''"

lemmas severity_defs = SeverityCritical_def SeverityHigh_def SeverityMedium_def SeverityLow_def

definition severityOrder :: "Severity \<rightharpoonup> int" where
  "severityOrder = [SeverityLow \<mapsto> 1, SeverityMedium \<mapsto> 2, SeverityHigh \<mapsto> 3, SeverityCritical \<mapsto> 4]"

definition SeverityLevel :: "Severity \<Rightarrow> int" where
  "SeverityLevel s = (case severityOrder s of None \<Rightarrow> 0 | Some n \<Rightarrow> n)"

definition MeetsSeverityThreshold :: "Severity \<Rightarrow> Severity \<Rightarrow> bool" where
  "MeetsSeverityThreshold f mn =
     (let minLevel = SeverityLevel mn in
      if minLevel = 0 then False
      else if minLevel = SeverityLevel SeverityLow then True
      else minLevel \<le> SeverityLevel f)"

definition ParseSeverity :: "string \<Rightarrow> Severity \<times> bool" where
  "ParseSeverity s =
     (case severityOrder s of Some _ \<Rightarrow> (s, True) | None \<Rightarrow> (SeverityLow, False))"

section \<open>Control annotations\<close>

definition AnnotationEnabled :: string where "AnnotationEnabled = ''mechanic.io/enabled''"
definition AnnotationSkipUntil :: string where "AnnotationSkipUntil = ''mechanic.io/skip-until''"
definition AnnotationPriority :: string where "AnnotationPriority = ''mechanic.io/priority''"

definition leap :: "int \<Rightarrow> bool" where
  "leap y = (4 dvd y \<and> (\<not> 100 dvd y \<or> 400 dvd y))"

definition daysIn :: "int \<Rightarrow> int \<Rightarrow> int" where
  "daysIn m y =
     (if m = 2 then (if leap y then 29 else 28) else if m \<in> {4, 6, 9, 11} then 30 else 31)"

definition daysBefore :: "int \<Rightarrow> int \<Rightarrow> int" where
  "daysBefore m y = sum_list (map (\<lambda>k. daysIn k y) [1 .. m - 1])"

text \<open>Midnight UTC of a day of the proleptic Gregorian calendar.\<close>

definition date_time :: "int \<Rightarrow> int \<Rightarrow> int \<Rightarrow> time" where
  "date_time y m d =
     (365 * (y - 1) + (y - 1) div 4 - (y - 1) div 100 + (y - 1) div 400
      + daysBefore m y + (d - 1) - 719162) * (24 * Hour)"

text \<open>
  \<open>time.Parse("2006-01-02", raw)\<close>: four digits, a dash, two digits, a dash, two digits and
  nothing more; the month in 1 to 12, the day within the month. \<open>None\<close> is the error.
\<close>

definition parse_date :: "string \<Rightarrow> time option" where
  "parse_date raw =
     (if length raw = 10 \<and> list_all isDigit (take 4 raw) \<and> raw ! 4 = CHR ''-''
         \<and> list_all isDigit (take 2 (drop 5 raw)) \<and> raw ! 7 = CHR ''-''
         \<and> list_all isDigit (drop 8 raw)
      then (let y = digits_val (take 4 raw); m = digits_val (take 2 (drop 5 raw));
                d = digits_val (drop 8 raw)
            in if 1 \<le> m \<and> m \<le> 12 \<and> 1 \<le> d \<and> d \<le> daysIn m y then Some (date_time y m d) else None)
      else None)"

definition ShouldSkip :: "(string \<rightharpoonup> string) \<Rightarrow> time \<Rightarrow> bool" where
  "ShouldSkip annotations now =
     (if mget annotations AnnotationEnabled = ''false'' then True
      else (case annotations AnnotationSkipUntil of
              Some raw \<Rightarrow> (case parse_date raw of None \<Rightarrow> False
                         | Some t \<Rightarrow> now < t + 24 * Hour)
            | None \<Rightarrow> False))"

section \<open>Findings and kinds\<close>

record Finding =
  f_Kind :: string
  f_Name :: string
  f_Namespace :: string
  f_ParentObject :: string
  f_Errors :: string
  f_Details :: string
  f_Severity :: Severity
  f_ChainDepth :: int
  f_NodeName :: string

definition kindRanks :: "string \<rightharpoonup> int" where
  "kindRanks = [''Deployment'' \<mapsto> 10, ''StatefulSet'' \<mapsto> 9, ''DaemonSet'' \<mapsto> 8, ''Job'' \<mapsto> 7,
     ''ReplicaSet'' \<mapsto> 6, ''Pod'' \<mapsto> 1, ''PersistentVolumeClaim'' \<mapsto> 1]"

definition KindHierarchyRank :: "string \<Rightarrow> int" where
  "KindHierarchyRank kind = (case kindRanks kind of None \<Rightarrow> 0 | Some n \<Rightarrow> n)"

section \<open>Correlation vocabulary\<close>

definition CorrelationGroupIDLabel :: string where
  "CorrelationGroupIDLabel = ''mechanic.io/correlation-group-id''"
definition CorrelationGroupRoleLabel :: string where
  "CorrelationGroupRoleLabel = ''mechanic.io/correlation-role''"
definition CorrelationRolePrimary :: string where "CorrelationRolePrimary = ''primary''"
definition CorrelationRoleCorrelated :: string where "CorrelationRoleCorrelated = ''correlated''"
definition NodeNameAnnotation :: string where "NodeNameAnnotation = ''mechanic.io/node-name''"

record CorrelationResult =
  cr_Matched :: bool
  cr_GroupID :: string
  cr_PrimaryUID :: string
  cr_Reason :: string
  cr_MatchedUIDs :: "string list"

definition NoMatch :: CorrelationResult where
  "NoMatch = \<lparr>cr_Matched = False, cr_GroupID = [], cr_PrimaryUID = [], cr_Reason = [], cr_MatchedUIDs = []\<rparr>"

definition hexdigit :: "nat \<Rightarrow> char" where
  "hexdigit n = (if n < 10 then char_of (48 + n) else char_of (87 + n))"

definition hex_bytes :: "nat list \<Rightarrow> string" where
  "hex_bytes bs = concat (map (\<lambda>b. [hexdigit (b div 16 mod 16), hexdigit (b mod 16)]) bs)"

definition NewCorrelationGroupID :: "'w kube \<Rightarrow> ('w, go_error + string) state" where
  "NewCorrelationGroupID K = do {
     r \<leftarrow> k_rand_read K 6;
     ret (case r of None \<Rightarrow> Inl (GoPanic ''correlation: failed to read random bytes'')
          | Some b \<Rightarrow> Inr (hex_bytes b))
   }"

section \<open>Sinks that do nothing\<close>

definition NoopSinkCloser_Close :: "RemediationJob \<Rightarrow> string \<Rightarrow> ('w, go_error option) state" where
  "NoopSinkCloser_Close rjob reason = ret None"

definition NoopPRMergeChecker_IsMerged :: "SinkRef \<Rightarrow> ('w, go_error + bool) state" where
  "NoopPRMergeChecker_IsMerged ref = ret (Inr False)"

section \<open>Lemmas\<close>

lemma SeverityLevel_simps [simp]:
  "SeverityLevel SeverityCritical = 4" "SeverityLevel SeverityHigh = 3"
  "SeverityLevel SeverityMedium = 2" "SeverityLevel SeverityLow = 1"
  by (simp_all add: SeverityLevel_def severityOrder_def severity_defs)

lemma SeverityLevel_range: "0 \<le> SeverityLevel s \<and> SeverityLevel s \<le> 4"
  by (auto simp: SeverityLevel_def severityOrder_def split: option.splits if_splits)

lemma severityOrder_dom: "s \<in> dom severityOrder \<longleftrightarrow> s \<in> {SeverityLow, SeverityMedium, SeverityHigh, SeverityCritical}"
  by (auto simp: severityOrder_def)

lemma SeverityLevel_pos: "0 < SeverityLevel s \<longleftrightarrow> s \<in> dom severityOrder"
  by (auto simp: SeverityLevel_def severityOrder_def split: option.splits if_splits)

text \<open>
  The severity gate is the order of the tiers: a recognised threshold above \<open>low\<close> lets
  exactly the findings through whose level is at least the threshold's (so unrecognised severities
  never pass), the threshold \<open>low\<close> lets every finding through, an unrecognised threshold none.
\<close>

theorem severity_threshold:
  "MeetsSeverityThreshold f mn \<longleftrightarrow>
     mn = SeverityLow \<or> mn \<in> dom severityOrder \<and> SeverityLevel mn \<le> SeverityLevel f"
proof -
  have low: "SeverityLevel mn = 1 \<longleftrightarrow> mn = SeverityLow"
    by (auto simp: SeverityLevel_def severityOrder_def severity_defs split: option.splits if_splits)
  have zero: "SeverityLevel mn = 0 \<longleftrightarrow> mn \<notin> dom severityOrder"
    using SeverityLevel_pos [of mn] SeverityLevel_range [of mn] by auto
  have dom: "SeverityLow \<in> dom severityOrder" by (simp add: severityOrder_dom)
  show ?thesis
    using low zero dom by (auto simp: MeetsSeverityThreshold_def Let_def)
qed

end
