(* ===== verification/Go_Text.thy ===== *)
theory Go_Text
  imports Prelude
begin

text \<open>
  The parts of Go's standard library that work on text as Unicode: decoding of UTF-8
  (package \<open>unicode/utf8\<close>) and regular expressions (package \<open>regexp\<close>). A Go string is a
  sequence of bytes, here a \<open>string\<close>; a decoded text is a list of tokens, each a code point with
  the bytes it was read from, so that invalid input (read as U+FFFD, one byte wide) can be copied
  through unchanged.

  A regular expression is an abstract syntax tree; \<open>ms r s\<close> lists the matches of \<open>r\<close> at the
  start of \<open>s\<close> in the order in which a backtracking matcher tries them, so that its head is the
  match Go selects (leftmost-first). An iteration of a star that consumes nothing is cut off.
\<close>

section \<open>UTF-8\<close>

type_synonym tok = "nat \<times> string"

definition RuneError :: nat where
  "RuneError = 65533"

definition byte :: "char \<Rightarrow> nat" where
  "byte c = of_char c"

definition cont :: "nat \<Rightarrow> nat \<Rightarrow> char \<Rightarrow> bool" where
  "cont lo hi c = (lo \<le> byte c \<and> byte c \<le> hi)"

text \<open>\<open>utf8.DecodeRune\<close> of a non-empty byte sequence: the code point and its width.\<close>

definition DecodeRune :: "string \<Rightarrow> nat \<times> nat" where
  "DecodeRune s =
     (case s of [] \<Rightarrow> (RuneError, 0)
      | c # cs \<Rightarrow>
          (let b = byte c in
           if b < 128 then (b, 1)
           else if 194 \<le> b \<and> b \<le> 223 then
             (case cs of c1 # _ \<Rightarrow>
                if cont 128 191 c1 then ((b - 192) * 64 + (byte c1 - 128), 2) else (RuneError, 1)
              | [] \<Rightarrow> (RuneError, 1))
           else if 224 \<le> b \<and> b \<le> 239 then
             (case cs of c1 # c2 # _ \<Rightarrow>
                if cont (if b = 224 then 160 else 128) (if b = 237 then 159 else 191) c1 \<and> cont 128 191 c2
                then ((b - 224) * 4096 + (byte c1 - 128) * 64 + (byte c2 - 128), 3) else (RuneError, 1)
              | _ \<Rightarrow> (RuneError, 1))
           else if 240 \<le> b \<and> b \<le> 244 then
             (case cs of c1 # c2 # c3 # _ \<Rightarrow>
                if cont (if b = 240 then 144 else 128) (if b = 244 then 143 else 191) c1
                   \<and> cont 128 191 c2 \<and> cont 128 191 c3
                then ((b - 240) * 262144 + (byte c1 - 128) * 4096 + (byte c2 - 128) * 64 + (byte c3 - 128), 4)
                else (RuneError, 1)
              | _ \<Rightarrow> (RuneError, 1))
           else (RuneError, 1)))"

function runes :: "string \<Rightarrow> tok list" where
  "runes [] = []"
| "runes (c # cs) =
     (let (r, n) = DecodeRune (c # cs)
      in (r, take (max 1 n) (c # cs)) # runes (drop (max 1 n) (c # cs)))"
  by pat_completeness auto
termination
  by (relation "measure length") auto

text \<open>The bytes of a token list, and the tokens of a text known to be ASCII.\<close>

definition bytes_of :: "tok list \<Rightarrow> string" where
  "bytes_of ts = concat (map snd ts)"

text \<open>\<open>unicode.IsSpace\<close>, and \<open>strings.TrimSpace\<close>, which trims code points at both ends.\<close>

definition IsSpace :: "nat \<Rightarrow> bool" where
  "IsSpace r = (r \<in> {9, 10, 11, 12, 13, 32, 133, 160, 5760, 8232, 8233, 8239, 8287, 12288}
     \<or> 8192 \<le> r \<and> r \<le> 8202)"

definition TrimSpace :: "string \<Rightarrow> string" where
  "TrimSpace s = bytes_of (rev (dropWhile (\<lambda>t. IsSpace (fst t))
     (rev (dropWhile (\<lambda>t. IsSpace (fst t)) (runes s)))))"

section \<open>Regular expressions\<close>

datatype re =
    Eps
  | Cls "nat \<Rightarrow> bool"
  | Seq re re
  | Alt re re
  | Star bool re  \<comment> \<open>\<open>True\<close>: greedy\<close>
  | Grp nat re

type_synonym caps = "(nat \<times> string) list"

function ms :: "re \<Rightarrow> tok list \<Rightarrow> (caps \<times> tok list) list" where
  "ms Eps s = [([], s)]"
| "ms (Cls p) s = (case s of [] \<Rightarrow> [] | t # s' \<Rightarrow> if p (fst t) then [([], s')] else [])"
| "ms (Seq a b) s = concat (map (\<lambda>(c, s'). map (\<lambda>(c', s''). (c @ c', s'')) (ms b s')) (ms a s))"
| "ms (Alt a b) s = ms a s @ ms b s"
| "ms (Star g a) s =
     (let more = concat (map (\<lambda>(c, s').
            if length s' < length s then map (\<lambda>(c', s''). (c @ c', s'')) (ms (Star g a) s') else [])
            (ms a s))
      in if g then more @ [([], s)] else ([], s) # more)"
| "ms (Grp n a) s = map (\<lambda>(c, s'). (c @ [(n, bytes_of (take (length s - length s') s))], s')) (ms a s)"
  by pat_completeness auto
termination
  by (relation "measures [\<lambda>(r, s). size r, \<lambda>(r, s). length s]") auto

declare ms.simps(5) [simp del]

text \<open>Derived forms: literals, optional parts, repetitions.\<close>

definition opt :: "re \<Rightarrow> re" where
  "opt r = Alt r Eps"

definition plus :: "re \<Rightarrow> re" where
  "plus r = Seq r (Star True r)"

fun seqs :: "re list \<Rightarrow> re" where
  "seqs [] = Eps"
| "seqs [r] = r"
| "seqs (r # rs) = Seq r (seqs rs)"

fun alts :: "re list \<Rightarrow> re" where
  "alts [] = Cls (\<lambda>_. False)"
| "alts [r] = r"
| "alts (r # rs) = Alt r (alts rs)"

text \<open>\<open>r{n,}\<close> and \<open>r{0,n}\<close> (greedy).\<close>

fun atleast :: "nat \<Rightarrow> re \<Rightarrow> re" where
  "atleast 0 r = Star True r"
| "atleast (Suc n) r = Seq r (atleast n r)"

fun upto_n :: "nat \<Rightarrow> re \<Rightarrow> re" where
  "upto_n 0 r = Eps"
| "upto_n (Suc n) r = Alt (Seq r (upto_n n r)) Eps"

fun exactly :: "nat \<Rightarrow> re \<Rightarrow> re" where
  "exactly 0 r = Eps"
| "exactly (Suc n) r = Seq r (exactly n r)"

definition inr :: "nat \<Rightarrow> nat \<Rightarrow> nat \<Rightarrow> bool" where
  "inr lo hi x = (lo \<le> x \<and> x \<le> hi)"

definition lower :: "nat \<Rightarrow> bool" where "lower = inr 97 122"
definition upper :: "nat \<Rightarrow> bool" where "upper = inr 65 90"
definition digit :: "nat \<Rightarrow> bool" where "digit = inr 48 57"
definition alnum :: "nat \<Rightarrow> bool" where
  "alnum x = (lower x \<or> upper x \<or> digit x)"

text \<open>\<open>\s\<close> of the package: tab, newline, form feed, carriage return, space.\<close>

definition ws :: "nat \<Rightarrow> bool" where
  "ws x = (x = 9 \<or> x = 10 \<or> x = 12 \<or> x = 13 \<or> x = 32)"

definition chr :: "char \<Rightarrow> re" where
  "chr c = Cls (\<lambda>x. x = byte c)"

definition lit :: "string \<Rightarrow> re" where
  "lit s = seqs (map chr s)"

text \<open>
  Case-insensitive literals (flag \<open>i\<close>): the orbit of a letter under simple case folding is its
  two cases, and also U+212A for k and U+017F for s.
\<close>

definition fold_ascii :: "nat \<Rightarrow> nat" where
  "fold_ascii x = (if upper x then x + 32 else if x = 8490 then 107 else if x = 383 then 115 else x)"

definition ichr :: "char \<Rightarrow> re" where
  "ichr c = Cls (\<lambda>x. fold_ascii x = fold_ascii (byte c))"

definition ilit :: "string \<Rightarrow> re" where
  "ilit s = seqs (map ichr s)"

definition s_star :: re where "s_star = Star True (Cls ws)"
definition s_plus :: re where "s_plus = plus (Cls ws)"
definition S_plus :: re where "S_plus = plus (Cls (\<lambda>x. \<not> ws x))"

text \<open>\<open>MatchString\<close>: some suffix starts with a match.\<close>

fun match_toks :: "re \<Rightarrow> tok list \<Rightarrow> bool" where
  "match_toks r [] = (ms r [] \<noteq> [])"
| "match_toks r (t # ts) = (ms r (t # ts) \<noteq> [] \<or> match_toks r ts)"

definition MatchString :: "re \<Rightarrow> string \<Rightarrow> bool" where
  "MatchString r s = match_toks r (runes s)"

text \<open>
  A replacement template is a list of literal parts and references \<open>${n}\<close>; a group that took no
  part in the match expands to nothing, and of a repeated group the last iteration counts.
\<close>

datatype part = PLit string | PRef nat

definition expand :: "caps \<Rightarrow> part list \<Rightarrow> string" where
  "expand cs ps = concat (map (\<lambda>p. case p of PLit t \<Rightarrow> t
      | PRef n \<Rightarrow> (case map_of (rev cs) n of None \<Rightarrow> [] | Some t \<Rightarrow> t)) ps)"

text \<open>
  \<open>ReplaceAllString\<close>: non-overlapping matches from the left; an empty match is replaced only
  when it does not follow directly on another match (\<open>adj\<close>), and the scan then moves on by one
  token.
\<close>

function replace_toks :: "re \<Rightarrow> part list \<Rightarrow> bool \<Rightarrow> tok list \<Rightarrow> string" where
  "replace_toks r ps adj s =
     (case ms r s of
        (cs, s') # _ \<Rightarrow>
          if length s' < length s then expand cs ps @ replace_toks r ps True s'
          else (if adj then [] else expand cs ps) @
               (case s of [] \<Rightarrow> [] | t # ts \<Rightarrow> snd t @ replace_toks r ps False ts)
      | [] \<Rightarrow> (case s of [] \<Rightarrow> [] | t # ts \<Rightarrow> snd t @ replace_toks r ps False ts))"
  by pat_completeness auto
termination
  by (relation "measure (\<lambda>(r, ps, adj, s). length s)") auto

declare replace_toks.simps [simp del]

definition ReplaceAllString :: "re \<Rightarrow> part list \<Rightarrow> string \<Rightarrow> string" where
  "ReplaceAllString r ps s = replace_toks r ps False (runes s)"

section \<open>Lemmas\<close>

lemma bytes_of_runes: "bytes_of (runes s) = s"
proof (induction s rule: runes.induct)
  case (2 c cs)
  obtain r n where d: "DecodeRune (c # cs) = (r, n)" by fastforce
  from 2 [OF d [symmetric] refl]
  have "bytes_of (runes (drop (max 1 n) (c # cs))) = drop (max 1 n) (c # cs)" .
  moreover have "bytes_of (runes (c # cs)) =
      take (max 1 n) (c # cs) @ bytes_of (runes (drop (max 1 n) (c # cs)))"
    by (subst runes.simps) (simp add: d bytes_of_def del: runes.simps)
  ultimately show ?case by (simp only: append_take_drop_id)
qed (simp add: bytes_of_def)

lemma TrimSpace_Nil [simp]: "TrimSpace [] = []"
  by (simp add: TrimSpace_def bytes_of_def)

text \<open>Graphic ASCII text is trimmed to itself.\<close>

lemma runes_ascii: "list_all (\<lambda>c. byte c < 128) s \<Longrightarrow> runes s = map (\<lambda>c. (byte c, [c])) s"
  by (induction s) (simp_all add: DecodeRune_def Let_def)

lemma TrimSpace_graphic:
  assumes "list_all (\<lambda>c. 32 < byte c \<and> byte c < 128) s"
  shows "TrimSpace s = s"
proof -
  have run: "runes s = map (\<lambda>c. (byte c, [c])) s"
    using assms by (intro runes_ascii) (auto simp: list_all_iff)
  have keep: "dropWhile (\<lambda>t. IsSpace (fst t)) ts = ts" if "set ts \<subseteq> set (runes s)" for ts
    using that assms by (cases ts) (auto simp: run IsSpace_def list_all_iff)
  show ?thesis unfolding TrimSpace_def by (simp add: keep bytes_of_runes)
qed

text \<open>What a match leaves is a suffix of the text.\<close>

lemma ms_suffix: "(c, s') \<in> set (ms r s) \<Longrightarrow> \<exists>u. s = u @ s'"
proof (induction r s arbitrary: c s' rule: ms.induct)
  case (3 a b s)
  from "3.prems" obtain c1 s1 c2 where a: "(c1, s1) \<in> set (ms a s)" and b: "(c2, s') \<in> set (ms b s1)"
    by auto
  from "3.IH"(1) [OF a] "3.IH"(2) [OF a refl b] show ?case by auto
next
  case (5 g a s)
  then consider "s' = s"
    | c1 s1 c2 where "(c1, s1) \<in> set (ms a s)" "length s1 < length s" "(c2, s') \<in> set (ms (Star g a) s1)"
    by (subst (asm) ms.simps(5)) (auto simp: Let_def split: if_splits)
  then show ?case
  proof cases
    case 2
    from "5.IH"(1) [OF 2(1)] "5.IH"(2) [OF 2(1) refl 2(2) 2(3)] show ?thesis by auto
  qed simp
qed (auto split: list.splits if_splits)

text \<open>A text in which nothing matches is copied unchanged.\<close>

lemma replace_toks_nomatch: "\<not> match_toks r s \<Longrightarrow> replace_toks r ps adj s = bytes_of s"
proof (induction s arbitrary: adj)
  case (Cons t ts)
  then show ?case by (subst replace_toks.simps) (simp add: bytes_of_def)
qed (simp add: replace_toks.simps bytes_of_def)

lemma ReplaceAllString_empty [simp]: "ReplaceAllString r ps [] = (case ms r [] of [] \<Rightarrow> [] | (cs, _) # _ \<Rightarrow> expand cs ps)"
  by (simp add: ReplaceAllString_def replace_toks.simps split: list.split prod.split)

lemma ReplaceAllString_nomatch: "\<not> MatchString r s \<Longrightarrow> ReplaceAllString r ps s = s"
  by (simp add: MatchString_def ReplaceAllString_def replace_toks_nomatch bytes_of_runes)

end
