(* ===== verification/Config.thy ===== *)
theory Config
  imports Domain Sanitise
begin

text \<open>
  \<open>src/internal/config/config.go\<close>: the configuration record and \<open>FromEnv\<close>, which reads it from the
  environment. The environment is a function from names to texts, the empty text standing for an
  absent variable, as \<open>os.Getenv\<close> has it. \<open>FromEnv\<close> is cut into consecutive parts, one definition
  each, that check and assign in the order of the source; a part either fails with the error that
  ends the program or returns the configuration with its fields set. Two parsers are not code of
  the repository and are arguments: \<open>compile\<close> (\<open>regexp.Compile\<close>) and \<open>quantity\<close>, which says
  whether \<open>resource.ParseQuantity\<close> accepts a text. Error texts leave out the quoted input.
\<close>

record Config =
  cfg_GitOpsRepo :: string
  cfg_GitOpsManifestRoot :: string
  cfg_AgentImage :: string
  cfg_AgentNamespace :: string
  cfg_AgentSA :: string
  cfg_AgentType :: string
  cfg_SinkType :: string
  cfg_LogLevel :: string
  cfg_MaxConcurrentJobs :: int
  cfg_RemediationJobTTLSeconds :: int
  cfg_StabilisationWindow :: duration
  cfg_DisableCascadeCheck :: bool
  cfg_CascadeNamespaceThreshold :: int
  cfg_CascadeNodeCacheTTL :: duration
  cfg_InjectionDetectionAction :: string
  cfg_AgentRBACScope :: string
  cfg_AgentWatchNamespaces :: "string list"
  cfg_WatchNamespaces :: "string list"
  cfg_ExcludeNamespaces :: "string list"
  cfg_MaxInvestigationRetries :: int
  cfg_MinSeverity :: Severity
  cfg_SelfRemediationMaxDepth :: int
  cfg_SelfRemediationCooldown :: duration
  cfg_DryRun :: bool
  cfg_HardenAgentKubectl :: bool
  cfg_ExtraRedactPatterns :: "string list"
  cfg_CorrelationWindowSeconds :: int
  cfg_DisableCorrelation :: bool
  cfg_MultiPodThreshold :: int
  cfg_PRAutoClose :: bool
  cfg_RemediationJobShortTTLSeconds :: int
  cfg_AgentCPURequest :: "string option"
  cfg_AgentMemRequest :: "string option"
  cfg_AgentCPULimit :: "string option"
  cfg_AgentMemLimit :: "string option"
  cfg_AgentActiveDeadlineSeconds :: int

type_synonym env = "string \<Rightarrow> string"

definition AgentTypeOpenCode :: string where "AgentTypeOpenCode = ''opencode''"
definition AgentTypeClaude :: string where "AgentTypeClaude = ''claude''"

definition zero_config :: Config where
  "zero_config = \<lparr>cfg_GitOpsRepo = [], cfg_GitOpsManifestRoot = [], cfg_AgentImage = [],
     cfg_AgentNamespace = [], cfg_AgentSA = [], cfg_AgentType = [], cfg_SinkType = [],
     cfg_LogLevel = [], cfg_MaxConcurrentJobs = 0, cfg_RemediationJobTTLSeconds = 0,
     cfg_StabilisationWindow = 0, cfg_DisableCascadeCheck = False,
     cfg_CascadeNamespaceThreshold = 0, cfg_CascadeNodeCacheTTL = 0,
     cfg_InjectionDetectionAction = [], cfg_AgentRBACScope = [], cfg_AgentWatchNamespaces = [],
     cfg_WatchNamespaces = [], cfg_ExcludeNamespaces = [], cfg_MaxInvestigationRetries = 0,
     cfg_MinSeverity = [], cfg_SelfRemediationMaxDepth = 0, cfg_SelfRemediationCooldown = 0,
     cfg_DryRun = False, cfg_HardenAgentKubectl = False, cfg_ExtraRedactPatterns = [],
     cfg_CorrelationWindowSeconds = 0, cfg_DisableCorrelation = False, cfg_MultiPodThreshold = 0,
     cfg_PRAutoClose = False, cfg_RemediationJobShortTTLSeconds = 0, cfg_AgentCPURequest = None,
     cfg_AgentMemRequest = None, cfg_AgentCPULimit = None, cfg_AgentMemLimit = None,
     cfg_AgentActiveDeadlineSeconds = 0\<rparr>"

section \<open>Shapes that the parts share\<close>

definition andthen :: "'e + 'a \<Rightarrow> ('a \<Rightarrow> 'e + 'b) \<Rightarrow> 'e + 'b" where
  "andthen r f = (case r of Inl e \<Rightarrow> Inl e | Inr a \<Rightarrow> f a)"

text \<open>An integer variable: its default, or the parsed value if it passes the bounds.\<close>

definition env_int :: "env \<Rightarrow> string \<Rightarrow> int \<Rightarrow> int \<Rightarrow> string \<Rightarrow> (int \<times> (int \<Rightarrow> string)) option \<Rightarrow> go_error + int" where
  "env_int env name dflt lo lo_msg hi =
     (let s = env name in
      if s = [] then Inr dflt
      else (case Atoi s of
              None \<Rightarrow> Inl (Err (name @ '' must be an integer''))
            | Some n \<Rightarrow>
                if n < lo then Inl (Err (name @ '' must be '' @ lo_msg @ '', got '' @ itoa n))
                else (case hi of
                        None \<Rightarrow> Inr n
                      | Some (h, hi_msg) \<Rightarrow> if h < n then Inl (Err (name @ hi_msg n)) else Inr n)))"

definition at_most :: "int \<Rightarrow> int \<times> (int \<Rightarrow> string)" where
  "at_most h = (h, \<lambda>n. '' must be at most '' @ itoa h @ '', got '' @ itoa n)"

definition reasonable :: "int \<Rightarrow> string \<Rightarrow> int \<times> (int \<Rightarrow> string)" where
  "reasonable h hint = (h, \<lambda>n. ''='' @ itoa n @ '' exceeds maximum reasonable value of '' @ itoa h @ hint)"

definition positive :: string where "positive = ''a positive integer''"
definition nonneg :: string where "nonneg = ''>= 0''"

text \<open>A comma-separated list: trimmed, empty entries dropped.\<close>

definition env_list :: "string \<Rightarrow> string list" where
  "env_list raw = filter (\<lambda>p. p \<noteq> []) (map TrimSpace (Split CHR '','' raw))"

definition env_bool :: "env \<Rightarrow> string \<Rightarrow> bool \<Rightarrow> go_error + bool" where
  "env_bool env name dflt =
     (let s = env name in
      if s = [] then Inr dflt
      else if s = ''true'' \<or> s = ''1'' then Inr True
      else if s = ''false'' \<or> s = ''0'' then Inr False
      else Inl (Err (name @ '' must be true, false, 1, or 0'')))"

section \<open>FromEnv\<close>

definition required_var :: "env \<Rightarrow> string \<Rightarrow> go_error + string" where
  "required_var env name =
     (if env name = [] then Inl (Err (''required environment variable '' @ name @ '' is not set''))
      else Inr (env name))"

definition env_required :: "env \<Rightarrow> go_error + Config" where
  "env_required env =
     andthen (required_var env ''GITOPS_REPO'') (\<lambda>repo.
     andthen (required_var env ''GITOPS_MANIFEST_ROOT'') (\<lambda>root.
     andthen (required_var env ''AGENT_IMAGE'') (\<lambda>image.
     andthen (required_var env ''AGENT_NAMESPACE'') (\<lambda>ns.
     andthen (required_var env ''AGENT_SA'') (\<lambda>sa.
       Inr (zero_config\<lparr>cfg_GitOpsRepo := repo, cfg_GitOpsManifestRoot := root, cfg_AgentImage := image,
              cfg_AgentNamespace := ns, cfg_AgentSA := sa\<rparr>))))))"

definition or_default :: "string \<Rightarrow> string \<Rightarrow> string" where
  "or_default s d = (if s = [] then d else s)"

definition env_agent :: "env \<Rightarrow> Config \<Rightarrow> go_error + Config" where
  "env_agent env cfg =
     (let agentTypeStr = or_default (env ''AGENT_TYPE'') AgentTypeOpenCode in
      if agentTypeStr = AgentTypeOpenCode \<or> agentTypeStr = AgentTypeClaude
      then Inr (cfg\<lparr>cfg_AgentType := agentTypeStr,
                    cfg_LogLevel := or_default (env ''LOG_LEVEL'') ''info'',
                    cfg_SinkType := or_default (env ''SINK_TYPE'') ''github''\<rparr>)
      else Inl (Err ''AGENT_TYPE is not supported; accepted values: opencode, claude''))"

definition env_limits :: "env \<Rightarrow> Config \<Rightarrow> go_error + Config" where
  "env_limits env cfg =
     andthen (env_int env ''MAX_CONCURRENT_JOBS'' 3 1 positive None) (\<lambda>jobs.
     andthen (env_int env ''REMEDIATION_JOB_TTL_SECONDS'' 604800 1 positive (Some (at_most maxInt32))) (\<lambda>ttl.
     andthen (env_int env ''STABILISATION_WINDOW_SECONDS'' 120 0 nonneg None) (\<lambda>window.
       Inr (cfg\<lparr>cfg_MaxConcurrentJobs := jobs, cfg_RemediationJobTTLSeconds := ttl,
                cfg_StabilisationWindow := seconds window\<rparr>))))"

definition env_injection :: "env \<Rightarrow> Config \<Rightarrow> go_error + Config" where
  "env_injection env cfg =
     (let action = or_default (env ''INJECTION_DETECTION_ACTION'') ''log'' in
      if action \<noteq> ''log'' \<and> action \<noteq> ''suppress''
      then Inl (Err ''INJECTION_DETECTION_ACTION must be log or suppress'')
      else Inr (cfg\<lparr>cfg_InjectionDetectionAction := action\<rparr>))"

text \<open>The watched namespaces are read only in namespace scope.\<close>

definition watch_list :: "env \<Rightarrow> string \<Rightarrow> string list \<Rightarrow> go_error + string list" where
  "watch_list env scope old =
     (if scope \<noteq> ''namespace'' then Inr old
      else (let nsStr = env ''AGENT_WATCH_NAMESPACES'' in
            if nsStr = []
            then Inl (Err ''AGENT_WATCH_NAMESPACES is required when AGENT_RBAC_SCOPE=namespace'')
            else if env_list nsStr = [] then Inl (Err ''AGENT_WATCH_NAMESPACES is empty after parsing'')
            else Inr (env_list nsStr)))"

definition env_scope :: "env \<Rightarrow> Config \<Rightarrow> go_error + Config" where
  "env_scope env cfg =
     (let scope = or_default (env ''AGENT_RBAC_SCOPE'') ''cluster'' in
      if scope \<noteq> ''cluster'' \<and> scope \<noteq> ''namespace''
      then Inl (Err ''AGENT_RBAC_SCOPE must be cluster or namespace'')
      else andthen (watch_list env scope (cfg_AgentWatchNamespaces cfg)) (\<lambda>ns.
             Inr (cfg\<lparr>cfg_AgentRBACScope := scope, cfg_AgentWatchNamespaces := ns\<rparr>)))"

definition opt_list :: "string \<Rightarrow> string list" where
  "opt_list raw = (if raw = [] then [] else env_list raw)"

definition env_namespaces :: "env \<Rightarrow> Config \<Rightarrow> go_error + Config" where
  "env_namespaces env cfg =
     Inr (cfg\<lparr>cfg_WatchNamespaces := opt_list (env ''WATCH_NAMESPACES''),
              cfg_ExcludeNamespaces := opt_list (env ''EXCLUDE_NAMESPACES'')\<rparr>)"

definition env_retries :: "env \<Rightarrow> Config \<Rightarrow> go_error + Config" where
  "env_retries env cfg =
     andthen (env_int env ''MAX_INVESTIGATION_RETRIES'' 3 1 positive (Some (at_most maxInt32))) (\<lambda>n.
       let cfg = cfg\<lparr>cfg_MaxInvestigationRetries := wrap32 n\<rparr>; raw = env ''MIN_SEVERITY'' in
       if raw = [] then Inr (cfg\<lparr>cfg_MinSeverity := SeverityLow\<rparr>)
       else (case ParseSeverity raw of
               (sv, True) \<Rightarrow> Inr (cfg\<lparr>cfg_MinSeverity := sv\<rparr>)
             | (_, False) \<Rightarrow> Inl (Err ''invalid MIN_SEVERITY value: must be one of critical, high, medium, low'')))"

definition env_self :: "env \<Rightarrow> Config \<Rightarrow> go_error + Config" where
  "env_self env cfg =
     andthen (env_int env ''SELF_REMEDIATION_MAX_DEPTH'' 2 0 nonneg (Some (reasonable 10 ''; use a lower value to prevent infinite remediation chains''))) (\<lambda>depth.
     andthen (env_int env ''SELF_REMEDIATION_COOLDOWN_SECONDS'' 300 0 nonneg
                (Some (reasonable 3600 '' (1 hour); use a lower value''))) (\<lambda>cooldown.
       Inr (cfg\<lparr>cfg_SelfRemediationMaxDepth := depth, cfg_SelfRemediationCooldown := seconds cooldown\<rparr>)))"

definition env_flags :: "(string \<Rightarrow> re option) \<Rightarrow> env \<Rightarrow> Config \<Rightarrow> go_error + Config" where
  "env_flags compile env cfg =
     andthen (env_bool env ''DRY_RUN'' False) (\<lambda>dry.
     andthen (env_bool env ''HARDEN_AGENT_KUBECTL'' False) (\<lambda>harden.
       let extras = opt_list (env ''EXTRA_REDACT_PATTERNS'') in
       case NewRedactor compile extras of
         Inl e \<Rightarrow> Inl (Wrap ''EXTRA_REDACT_PATTERNS'' e)
       | Inr _ \<Rightarrow> Inr (cfg\<lparr>cfg_DryRun := dry, cfg_HardenAgentKubectl := harden,
                           cfg_ExtraRedactPatterns := extras\<rparr>)))"

definition env_correlation :: "env \<Rightarrow> Config \<Rightarrow> go_error + Config" where
  "env_correlation env cfg =
     andthen (env_int env ''CORRELATION_WINDOW_SECONDS'' 30 0 nonneg
                (Some (reasonable 3600 '' (1 hour); set DISABLE_CORRELATION=true to skip correlation entirely''))) (\<lambda>window.
     let disable = env ''DISABLE_CORRELATION'' in
     andthen (env_int env ''CORRELATION_MULTI_POD_THRESHOLD'' 3 1 positive None) (\<lambda>threshold.
       Inr (cfg\<lparr>cfg_CorrelationWindowSeconds := window,
                cfg_DisableCorrelation := (disable = ''true'' \<or> disable = ''1''),
                cfg_MultiPodThreshold := threshold\<rparr>)))"

definition env_ttl :: "env \<Rightarrow> Config \<Rightarrow> go_error + Config" where
  "env_ttl env cfg =
     andthen (env_bool env ''PR_AUTO_CLOSE'' True) (\<lambda>autoClose.
     andthen (env_int env ''REMEDIATION_JOB_SHORT_TTL_SECONDS'' 86400 1 positive (Some (at_most maxInt32))) (\<lambda>shortTTL.
       Inr (cfg\<lparr>cfg_PRAutoClose := autoClose, cfg_RemediationJobShortTTLSeconds := shortTTL\<rparr>)))"

definition env_quantity :: "(string \<Rightarrow> bool) \<Rightarrow> env \<Rightarrow> string \<Rightarrow> go_error + string option" where
  "env_quantity quantity env name =
     (let val = env name in
      if val = [] then Inr None
      else if \<not> quantity val then Inl (Err (name @ '' is not a valid Kubernetes quantity''))
      else Inr (Some val))"

definition env_resources :: "(string \<Rightarrow> bool) \<Rightarrow> env \<Rightarrow> Config \<Rightarrow> go_error + Config" where
  "env_resources quantity env cfg =
     andthen (env_quantity quantity env ''AGENT_CPU_REQUEST'') (\<lambda>cpuReq.
     andthen (env_quantity quantity env ''AGENT_MEM_REQUEST'') (\<lambda>memReq.
     andthen (env_quantity quantity env ''AGENT_CPU_LIMIT'') (\<lambda>cpuLim.
     andthen (env_quantity quantity env ''AGENT_MEM_LIMIT'') (\<lambda>memLim.
     andthen (env_int env ''AGENT_ACTIVE_DEADLINE_SECONDS'' 1800 1 positive None) (\<lambda>deadline.
       Inr (cfg\<lparr>cfg_AgentCPURequest := cpuReq, cfg_AgentMemRequest := memReq,
                cfg_AgentCPULimit := cpuLim, cfg_AgentMemLimit := memLim,
                cfg_AgentActiveDeadlineSeconds := deadline\<rparr>))))))"

definition FromEnv :: "(string \<Rightarrow> re option) \<Rightarrow> (string \<Rightarrow> bool) \<Rightarrow> env \<Rightarrow> go_error + Config" where
  "FromEnv compile quantity env =
     andthen (env_required env) (\<lambda>cfg.
     andthen (env_agent env cfg) (\<lambda>cfg.
     andthen (env_limits env cfg) (\<lambda>cfg.
     andthen (env_injection env cfg) (\<lambda>cfg.
     andthen (env_scope env cfg) (\<lambda>cfg.
     andthen (env_namespaces env cfg) (\<lambda>cfg.
     andthen (env_retries env cfg) (\<lambda>cfg.
     andthen (env_self env cfg) (\<lambda>cfg.
     andthen (env_flags compile env cfg) (\<lambda>cfg.
     andthen (env_correlation env cfg) (\<lambda>cfg.
     andthen (env_ttl env cfg) (env_resources quantity env)))))))))))"

section \<open>Lemmas\<close>

lemma andthen_Inr: "andthen r f = Inr c \<longleftrightarrow> (\<exists>a. r = Inr a \<and> f a = Inr c)"
  by (cases r) (simp_all add: andthen_def)

lemma andthen_simps [simp]: "andthen (Inr a) f = f a" "andthen (Inl e) f = Inl e"
  by (simp_all add: andthen_def)

lemma Atoi_range: "Atoi s = Some n \<Longrightarrow> minDuration \<le> n \<and> n \<le> maxDuration"
  by (auto simp: Atoi_def Let_def split: prod.splits option.splits if_splits)

lemma env_int_range:
  assumes "env_int env name d lo lm hi = Inr n" "lo \<le> d" "d \<le> maxDuration"
  shows "lo \<le> n \<and> n \<le> maxDuration"
  using assms Atoi_range [of "env name"]
  by (auto simp: env_int_def Let_def split: option.splits if_splits prod.splits)

lemma env_int_upper:
  assumes "env_int env name d lo lm (Some hi) = Inr n" "d \<le> fst hi"
  shows "n \<le> fst hi"
  using assms by (auto simp: env_int_def Let_def split: option.splits if_splits prod.splits)

lemma env_list_nonempty: "[] \<notin> set (env_list raw)" "[] \<notin> set (opt_list raw)"
  by (simp_all add: env_list_def opt_list_def)

lemma ParseSeverity_True: "ParseSeverity raw = (sv, True) \<Longrightarrow> sv \<in> dom severityOrder"
  by (auto simp: ParseSeverity_def split: option.splits)

text \<open>The invariant of a configuration that the program starts with.\<close>

definition config_ok :: "Config \<Rightarrow> bool" where
  "config_ok cfg =
     (cfg_GitOpsRepo cfg \<noteq> [] \<and> cfg_GitOpsManifestRoot cfg \<noteq> [] \<and> cfg_AgentImage cfg \<noteq> []
      \<and> cfg_AgentNamespace cfg \<noteq> [] \<and> cfg_AgentSA cfg \<noteq> []
      \<and> cfg_AgentType cfg \<in> {AgentTypeOpenCode, AgentTypeClaude}
      \<and> 0 < cfg_MaxConcurrentJobs cfg
      \<and> 0 < cfg_RemediationJobTTLSeconds cfg \<and> cfg_RemediationJobTTLSeconds cfg \<le> maxInt32
      \<and> 0 < cfg_RemediationJobShortTTLSeconds cfg \<and> cfg_RemediationJobShortTTLSeconds cfg \<le> maxInt32
      \<and> cfg_InjectionDetectionAction cfg \<in> {''log'', ''suppress''}
      \<and> (cfg_AgentRBACScope cfg = ''cluster''
         \<or> cfg_AgentRBACScope cfg = ''namespace'' \<and> cfg_AgentWatchNamespaces cfg \<noteq> [])
      \<and> [] \<notin> set (cfg_AgentWatchNamespaces cfg) \<union> set (cfg_WatchNamespaces cfg) \<union> set (cfg_ExcludeNamespaces cfg)
      \<and> 0 < cfg_MaxInvestigationRetries cfg \<and> cfg_MaxInvestigationRetries cfg \<le> maxInt32
      \<and> cfg_MinSeverity cfg \<in> dom severityOrder
      \<and> 0 \<le> cfg_SelfRemediationMaxDepth cfg \<and> cfg_SelfRemediationMaxDepth cfg \<le> 10
      \<and> 0 \<le> cfg_SelfRemediationCooldown cfg \<and> cfg_SelfRemediationCooldown cfg \<le> Hour
      \<and> 0 \<le> cfg_CorrelationWindowSeconds cfg \<and> cfg_CorrelationWindowSeconds cfg \<le> 3600
      \<and> 0 < cfg_MultiPodThreshold cfg \<and> 0 < cfg_AgentActiveDeadlineSeconds cfg)"

lemma env_required_ok:
  assumes "env_required env = Inr cfg"
  shows "cfg_GitOpsRepo cfg \<noteq> []" "cfg_GitOpsManifestRoot cfg \<noteq> []" "cfg_AgentImage cfg \<noteq> []"
    "cfg_AgentNamespace cfg \<noteq> []" "cfg_AgentSA cfg \<noteq> []" "cfg_AgentWatchNamespaces cfg = []"
  using assms by (auto simp: env_required_def required_var_def andthen_Inr zero_config_def split: if_splits)

lemma env_bounds:
  "env_int env ''MAX_CONCURRENT_JOBS'' 3 1 positive None = Inr n \<Longrightarrow> 0 < n"
  "env_int env ''CORRELATION_MULTI_POD_THRESHOLD'' 3 1 positive None = Inr n \<Longrightarrow> 0 < n"
  "env_int env ''AGENT_ACTIVE_DEADLINE_SECONDS'' 1800 1 positive None = Inr n \<Longrightarrow> 0 < n"
  "env_int env name d 1 m (Some (at_most maxInt32)) = Inr n \<Longrightarrow> 1 \<le> d \<Longrightarrow> d \<le> maxInt32 \<Longrightarrow> 0 < n \<and> n \<le> maxInt32"
  "env_int env name d 0 m (Some (reasonable h x)) = Inr n \<Longrightarrow> 0 \<le> d \<Longrightarrow> d \<le> h \<Longrightarrow> h \<le> maxInt32 \<Longrightarrow> 0 \<le> n \<and> n \<le> h"
  using env_int_range [of env _ _ _ _ _ n] env_int_upper [of env name d _ m _ n]
  by (fastforce simp: maxDuration_def maxInt32_def at_most_def reasonable_def)+

lemma seconds_cooldown: "0 \<le> n \<Longrightarrow> n \<le> 3600 \<Longrightarrow> 0 \<le> seconds n \<and> seconds n \<le> Hour"
  by (simp add: seconds_small Hour_def Minute_def Second_def)

lemma wrap32_small: "0 < n \<Longrightarrow> n \<le> maxInt32 \<Longrightarrow> wrap32 n = n"
  by (simp add: wrap32_id maxInt32_def)

text \<open>What each part of \<open>FromEnv\<close> sets, and within which bounds.\<close>

lemma env_required_spec:
  assumes "env_required env = Inr c"
  obtains a b d e f where "a \<noteq> []" "b \<noteq> []" "d \<noteq> []" "e \<noteq> []" "f \<noteq> []"
    "c = zero_config\<lparr>cfg_GitOpsRepo := a, cfg_GitOpsManifestRoot := b, cfg_AgentImage := d,
           cfg_AgentNamespace := e, cfg_AgentSA := f\<rparr>"
proof -
  have r: "required_var env n = Inr x \<Longrightarrow> x \<noteq> []" for n x
    by (simp add: required_var_def split: if_split_asm)
  from assms obtain a b d e f where
      "required_var env ''GITOPS_REPO'' = Inr a" "required_var env ''GITOPS_MANIFEST_ROOT'' = Inr b"
      "required_var env ''AGENT_IMAGE'' = Inr d" "required_var env ''AGENT_NAMESPACE'' = Inr e"
      "required_var env ''AGENT_SA'' = Inr f"
      "Inr (zero_config\<lparr>cfg_GitOpsRepo := a, cfg_GitOpsManifestRoot := b, cfg_AgentImage := d,
         cfg_AgentNamespace := e, cfg_AgentSA := f\<rparr>) = (Inr c :: go_error + Config)"
    unfolding env_required_def andthen_Inr by blast
  with r show thesis using that [of a b d e f] unfolding sum.inject by blast
qed

lemma env_agent_spec:
  assumes "env_agent env c = Inr c'"
  obtains t l k where "t \<in> {AgentTypeOpenCode, AgentTypeClaude}"
    "c' = c\<lparr>cfg_AgentType := t, cfg_LogLevel := l, cfg_SinkType := k\<rparr>"
proof (rule that)
  let ?t = "or_default (env ''AGENT_TYPE'') AgentTypeOpenCode"
  show t: "?t \<in> {AgentTypeOpenCode, AgentTypeClaude}"
    using assms unfolding env_agent_def Let_def by (simp split: if_split_asm)
  show "c' = c\<lparr>cfg_AgentType := ?t, cfg_LogLevel := or_default (env ''LOG_LEVEL'') ''info'',
      cfg_SinkType := or_default (env ''SINK_TYPE'') ''github''\<rparr>"
    using assms t unfolding env_agent_def Let_def by (simp only: insert_iff empty_iff simp_thms if_True sum.inject)
qed

lemma env_limits_spec:
  assumes "env_limits env c = Inr c'"
  obtains j t w where "0 < j" "0 < t" "t \<le> maxInt32"
    "c' = c\<lparr>cfg_MaxConcurrentJobs := j, cfg_RemediationJobTTLSeconds := t, cfg_StabilisationWindow := w\<rparr>"
proof -
  from assms obtain j t w where e: "env_int env ''MAX_CONCURRENT_JOBS'' 3 1 positive None = Inr j"
      "env_int env ''REMEDIATION_JOB_TTL_SECONDS'' 604800 1 positive (Some (at_most maxInt32)) = Inr t"
      "c\<lparr>cfg_MaxConcurrentJobs := j, cfg_RemediationJobTTLSeconds := t, cfg_StabilisationWindow := seconds w\<rparr> = c'"
    unfolding env_limits_def andthen_Inr sum.inject by blast
  have "0 < j" "0 < t \<and> t \<le> maxInt32"
    using env_bounds(1) [OF e(1)] env_bounds(4) [OF e(2)] by (simp_all add: maxInt32_def)
  with e(3) show thesis using that by blast
qed

lemma env_injection_spec:
  assumes "env_injection env c = Inr c'"
  obtains a where "a \<in> {''log'', ''suppress''}" "c' = c\<lparr>cfg_InjectionDetectionAction := a\<rparr>"
  using assms that unfolding env_injection_def Let_def by (simp split: if_split_asm)

lemma env_scope_spec:
  assumes "env_scope env c = Inr c'" "cfg_AgentWatchNamespaces c = []"
  obtains p ns where "p = ''cluster'' \<or> p = ''namespace'' \<and> ns \<noteq> []" "[] \<notin> set ns"
    "c' = c\<lparr>cfg_AgentRBACScope := p, cfg_AgentWatchNamespaces := ns\<rparr>"
proof -
  let ?p = "or_default (env ''AGENT_RBAC_SCOPE'') ''cluster''"
  have p: "?p = ''cluster'' \<or> ?p = ''namespace''"
    using assms(1) unfolding env_scope_def Let_def by (simp split: if_split_asm)
  then obtain ns where ns: "watch_list env ?p [] = Inr ns" "c\<lparr>cfg_AgentRBACScope := ?p, cfg_AgentWatchNamespaces := ns\<rparr> = c'"
    using assms unfolding env_scope_def Let_def by (simp add: andthen_Inr split: if_split_asm) blast
  have "ns \<noteq> [] \<or> ?p = ''cluster''" "[] \<notin> set ns"
    using ns(1) p env_list_nonempty(1) by (auto simp: watch_list_def Let_def split: if_split_asm)
  with p ns(2) show thesis using that by blast
qed

lemma env_retries_spec:
  assumes "env_retries env c = Inr c'"
  obtains n sv where "0 < n" "n \<le> maxInt32" "sv \<in> dom severityOrder"
    "c' = c\<lparr>cfg_MaxInvestigationRetries := n, cfg_MinSeverity := sv\<rparr>"
proof -
  from assms obtain n where e: "env_int env ''MAX_INVESTIGATION_RETRIES'' 3 1 positive (Some (at_most maxInt32)) = Inr n"
      and r: "(if env ''MIN_SEVERITY'' = [] then Inr (c\<lparr>cfg_MaxInvestigationRetries := wrap32 n, cfg_MinSeverity := SeverityLow\<rparr>)
       else (case ParseSeverity (env ''MIN_SEVERITY'') of
               (sv, True) \<Rightarrow> Inr (c\<lparr>cfg_MaxInvestigationRetries := wrap32 n, cfg_MinSeverity := sv\<rparr>)
             | (_, False) \<Rightarrow> Inl (Err ''invalid MIN_SEVERITY value: must be one of critical, high, medium, low''))) = Inr c'"
    unfolding env_retries_def andthen_Inr Let_def by blast
  have n: "0 < n" "n \<le> maxInt32" using env_bounds(4) [OF e] by (simp_all add: maxInt32_def)
  then have w: "wrap32 n = n" by (rule wrap32_small)
  show thesis
  proof (cases "env ''MIN_SEVERITY'' = []")
    case True
    with r w show thesis by (intro that [OF n, of SeverityLow]) (simp_all add: severityOrder_dom)
  next
    case False
    then obtain sv where sv: "ParseSeverity (env ''MIN_SEVERITY'') = (sv, True)"
      using r by (cases "ParseSeverity (env ''MIN_SEVERITY'')"; cases "snd (ParseSeverity (env ''MIN_SEVERITY''))") simp_all
    with r w False show thesis by (intro that [OF n, of sv]) (simp_all add: ParseSeverity_True)
  qed
qed

lemma env_self_spec:
  assumes "env_self env c = Inr c'"
  obtains d k where "0 \<le> d" "d \<le> 10" "0 \<le> k" "k \<le> Hour"
    "c' = c\<lparr>cfg_SelfRemediationMaxDepth := d, cfg_SelfRemediationCooldown := k\<rparr>"
proof -
  from assms obtain d k x y where e: "env_int env ''SELF_REMEDIATION_MAX_DEPTH'' 2 0 nonneg (Some (reasonable 10 x)) = Inr d"
      "env_int env ''SELF_REMEDIATION_COOLDOWN_SECONDS'' 300 0 nonneg (Some (reasonable 3600 y)) = Inr k"
      "c\<lparr>cfg_SelfRemediationMaxDepth := d, cfg_SelfRemediationCooldown := seconds k\<rparr> = c'"
    unfolding env_self_def andthen_Inr sum.inject by blast
  have "0 \<le> d \<and> d \<le> 10" "0 \<le> k \<and> k \<le> 3600"
    using env_bounds(5) [OF e(1)] env_bounds(5) [OF e(2)] by (simp_all add: maxInt32_def)
  with e(3) seconds_cooldown [of k] show thesis using that by blast
qed

lemma env_flags_spec:
  assumes "env_flags compile env c = Inr c'"
  obtains d h x r where "NewRedactor compile x = Inr r"
    "c' = c\<lparr>cfg_DryRun := d, cfg_HardenAgentKubectl := h, cfg_ExtraRedactPatterns := x\<rparr>"
proof -
  let ?x = "opt_list (env ''EXTRA_REDACT_PATTERNS'')"
  from assms obtain d h where "(case NewRedactor compile ?x of Inl e \<Rightarrow> Inl (Wrap ''EXTRA_REDACT_PATTERNS'' e)
      | Inr _ \<Rightarrow> Inr (c\<lparr>cfg_DryRun := d, cfg_HardenAgentKubectl := h, cfg_ExtraRedactPatterns := ?x\<rparr>)) = Inr c'"
    unfolding env_flags_def andthen_Inr Let_def by blast
  then show thesis by (cases "NewRedactor compile ?x") (auto intro: that)
qed

lemma env_correlation_spec:
  assumes "env_correlation env c = Inr c'"
  obtains w b t where "0 \<le> w" "w \<le> 3600" "0 < t"
    "c' = c\<lparr>cfg_CorrelationWindowSeconds := w, cfg_DisableCorrelation := b, cfg_MultiPodThreshold := t\<rparr>"
proof -
  from assms obtain w b t x where e: "env_int env ''CORRELATION_WINDOW_SECONDS'' 30 0 nonneg (Some (reasonable 3600 x)) = Inr w"
      "env_int env ''CORRELATION_MULTI_POD_THRESHOLD'' 3 1 positive None = Inr t"
      "c\<lparr>cfg_CorrelationWindowSeconds := w, cfg_DisableCorrelation := b, cfg_MultiPodThreshold := t\<rparr> = c'"
    unfolding env_correlation_def andthen_Inr Let_def sum.inject by blast
  have "0 \<le> w \<and> w \<le> 3600" "0 < t"
    using env_bounds(5) [OF e(1)] env_bounds(2) [OF e(2)] by (simp_all add: maxInt32_def)
  with e(3) show thesis using that by blast
qed

lemma env_ttl_spec:
  assumes "env_ttl env c = Inr c'"
  obtains b t where "0 < t" "t \<le> maxInt32"
    "c' = c\<lparr>cfg_PRAutoClose := b, cfg_RemediationJobShortTTLSeconds := t\<rparr>"
proof -
  from assms obtain b t where e: "env_int env ''REMEDIATION_JOB_SHORT_TTL_SECONDS'' 86400 1 positive (Some (at_most maxInt32)) = Inr t"
      "c\<lparr>cfg_PRAutoClose := b, cfg_RemediationJobShortTTLSeconds := t\<rparr> = c'"
    unfolding env_ttl_def andthen_Inr sum.inject by blast
  have "0 < t \<and> t \<le> maxInt32" using env_bounds(4) [OF e(1)] by (simp add: maxInt32_def)
  with e(2) show thesis using that by blast
qed

lemma env_quantity_valid: "env_quantity quantity env name = Inr q \<Longrightarrow> pred_option quantity q"
  by (auto simp: env_quantity_def Let_def split: if_splits)

lemma env_resources_spec:
  assumes "env_resources quantity env c = Inr c'"
  obtains cr mr cl ml d where "0 < d" "list_all (pred_option quantity) [cr, mr, cl, ml]"
    "c' = c\<lparr>cfg_AgentCPURequest := cr, cfg_AgentMemRequest := mr, cfg_AgentCPULimit := cl,
            cfg_AgentMemLimit := ml, cfg_AgentActiveDeadlineSeconds := d\<rparr>"
proof -
  from assms obtain cr mr cl ml d where e: "env_quantity quantity env ''AGENT_CPU_REQUEST'' = Inr cr"
      "env_quantity quantity env ''AGENT_MEM_REQUEST'' = Inr mr" "env_quantity quantity env ''AGENT_CPU_LIMIT'' = Inr cl"
      "env_quantity quantity env ''AGENT_MEM_LIMIT'' = Inr ml" "env_int env ''AGENT_ACTIVE_DEADLINE_SECONDS'' 1800 1 positive None = Inr d"
      "c\<lparr>cfg_AgentCPURequest := cr, cfg_AgentMemRequest := mr, cfg_AgentCPULimit := cl,
            cfg_AgentMemLimit := ml, cfg_AgentActiveDeadlineSeconds := d\<rparr> = c'"
    unfolding env_resources_def andthen_Inr sum.inject by blast
  show thesis using e(6) by (intro that [of d cr mr cl ml]) (simp_all add: env_bounds(3) [OF e(5)] e(1-4) [THEN env_quantity_valid])
qed

text \<open>What holds of an accepted configuration, and of the values that other packages parse again.\<close>

definition settings_valid :: "(string \<Rightarrow> re option) \<Rightarrow> (string \<Rightarrow> bool) \<Rightarrow> Config \<Rightarrow> bool" where
  "settings_valid compile quantity cfg =
     ((\<exists>r. NewRedactor compile (cfg_ExtraRedactPatterns cfg) = Inr r)
      \<and> list_all (pred_option quantity) [cfg_AgentCPURequest cfg, cfg_AgentMemRequest cfg, cfg_AgentCPULimit cfg, cfg_AgentMemLimit cfg])"

lemma accepted_config:
  assumes "FromEnv compile quantity env = Inr cfg"
  shows "config_ok cfg \<and> settings_valid compile quantity cfg"
proof -
  obtain c1 c2 c3 c4 c5 c6 c7 c8 c9 c10 c11 where parts: "env_required env = Inr c1" "env_agent env c1 = Inr c2"
      "env_limits env c2 = Inr c3" "env_injection env c3 = Inr c4" "env_scope env c4 = Inr c5"
      "env_namespaces env c5 = Inr c6" "env_retries env c6 = Inr c7" "env_self env c7 = Inr c8"
      "env_flags compile env c8 = Inr c9" "env_correlation env c9 = Inr c10" "env_ttl env c10 = Inr c11"
      "env_resources quantity env c11 = Inr cfg"
    using assms unfolding FromEnv_def andthen_Inr by blast
  have c6: "c6 = c5\<lparr>cfg_WatchNamespaces := opt_list (env ''WATCH_NAMESPACES''),
              cfg_ExcludeNamespaces := opt_list (env ''EXCLUDE_NAMESPACES'')\<rparr>"
    using parts(6) by (simp add: env_namespaces_def)
  have ns: "cfg_AgentWatchNamespaces c4 = []"
    by (rule env_required_spec [OF parts(1)], rule env_agent_spec [OF parts(2)], rule env_limits_spec [OF parts(3)],
        rule env_injection_spec [OF parts(4)]) (simp add: zero_config_def)
  show ?thesis
    by (rule env_required_spec [OF parts(1)], rule env_agent_spec [OF parts(2)], rule env_limits_spec [OF parts(3)],
        rule env_injection_spec [OF parts(4)], rule env_scope_spec [OF parts(5) ns], rule env_retries_spec [OF parts(7)],
        rule env_self_spec [OF parts(8)], rule env_flags_spec [OF parts(9)], rule env_correlation_spec [OF parts(10)],
        rule env_ttl_spec [OF parts(11)], rule env_resources_spec [OF parts(12)])
      (simp add: config_ok_def settings_valid_def c6 env_list_nonempty)
qed

section \<open>Properties\<close>

text \<open>
  C36. A configuration that \<open>FromEnv\<close> accepts satisfies the bounds that \<open>FromEnv\<close> checks, whichever
  variables were set or left to their defaults: the
  required fields are set, the enumerated fields have one of their values, the limits are positive
  and fit their 32-bit fields, the correlation window is at most an hour, the cooldown too and
  without overflow, the minimum severity is a recognised one, and no namespace list has an empty entry.
  These are not all the bounds that the source documents: a short retention below the long one, a
  correlation window of at least the stabilisation window and a non-negative stabilisation window
  are neither checked nor implied (\<open>config_gaps\<close> below shows accepted configurations without them).
\<close>

theorem config_bounds:
  assumes "FromEnv compile quantity env = Inr cfg"
  shows "config_ok cfg"
  using accepted_config [OF assms] by simp

text \<open>An environment with the five required variables and a list of further settings.\<close>

definition minimal_env :: "(string \<times> string) list \<Rightarrow> env" where
  "minimal_env vars = (\<lambda>n. case map_of (vars @ [(''GITOPS_REPO'', ''org/repo''), (''GITOPS_MANIFEST_ROOT'', ''k8s''),
     (''AGENT_IMAGE'', ''img''), (''AGENT_NAMESPACE'', ''mechanic''), (''AGENT_SA'', ''agent'')]) n of
     None \<Rightarrow> [] | Some v \<Rightarrow> v)"

definition default_config :: "string \<Rightarrow> string \<Rightarrow> string \<Rightarrow> string \<Rightarrow> string \<Rightarrow> Config" where
  "default_config repo root img ns sa = zero_config\<lparr>cfg_GitOpsRepo := repo, cfg_GitOpsManifestRoot := root,
     cfg_AgentImage := img, cfg_AgentNamespace := ns, cfg_AgentSA := sa,
     cfg_AgentType := ''opencode'', cfg_LogLevel := ''info'', cfg_SinkType := ''github'',
     cfg_MaxConcurrentJobs := 3, cfg_RemediationJobTTLSeconds := 604800,
     cfg_StabilisationWindow := 120 * Second, cfg_InjectionDetectionAction := ''log'',
     cfg_AgentRBACScope := ''cluster'', cfg_MaxInvestigationRetries := 3, cfg_MinSeverity := ''low'',
     cfg_SelfRemediationMaxDepth := 2, cfg_SelfRemediationCooldown := 300 * Second,
     cfg_CorrelationWindowSeconds := 30, cfg_MultiPodThreshold := 3, cfg_PRAutoClose := True,
     cfg_RemediationJobShortTTLSeconds := 86400, cfg_AgentActiveDeadlineSeconds := 1800\<rparr>"

lemmas FromEnv_defs = FromEnv_def env_required_def env_agent_def env_limits_def env_injection_def env_scope_def
  watch_list_def env_namespaces_def env_retries_def env_self_def env_flags_def env_correlation_def env_ttl_def
  env_resources_def env_quantity_def env_int_def env_bool_def required_var_def or_default_def opt_list_def

text \<open>
  The documented defaults: with the five required variables set and every other one absent,
  \<open>FromEnv\<close> succeeds with exactly the default configuration.
\<close>

theorem config_defaults:
  assumes "env ''GITOPS_REPO'' \<noteq> []" "env ''GITOPS_MANIFEST_ROOT'' \<noteq> []" "env ''AGENT_IMAGE'' \<noteq> []"
    "env ''AGENT_NAMESPACE'' \<noteq> []" "env ''AGENT_SA'' \<noteq> []"
    and "\<And>n. n \<notin> {''GITOPS_REPO'', ''GITOPS_MANIFEST_ROOT'', ''AGENT_IMAGE'', ''AGENT_NAMESPACE'', ''AGENT_SA''} \<Longrightarrow> env n = []"
  shows "FromEnv compile quantity env = Inr (default_config (env ''GITOPS_REPO'') (env ''GITOPS_MANIFEST_ROOT'')
    (env ''AGENT_IMAGE'') (env ''AGENT_NAMESPACE'') (env ''AGENT_SA''))"
proof -
  have w: "wrap32 3 = 3" "seconds 120 = 120 * Second" "seconds 300 = 300 * Second"
    by (simp_all add: wrap32_def seconds_small Second_def)
  show ?thesis
    using assms(1-5)
    by (simp add: FromEnv_defs assms(6) w NewRedactor_def default_config_def zero_config_def AgentTypeOpenCode_def
        AgentTypeClaude_def SeverityLow_def Let_def)
qed

theorem config_defaults_witness:
  "FromEnv (\<lambda>_. None) (\<lambda>_. False) (minimal_env []) = Inr (default_config ''org/repo'' ''k8s'' ''img'' ''mechanic'' ''agent'')"
  using config_defaults [of "minimal_env []" "\<lambda>_. None" "\<lambda>_. False"] by (simp add: minimal_env_def)

theorem config_bounds_witness:
  "config_ok (default_config ''org/repo'' ''k8s'' ''img'' ''mechanic'' ''agent'')"
proof -
  have "FromEnv (\<lambda>_. None) (\<lambda>_. False) (minimal_env []) = Inr (default_config ''org/repo'' ''k8s'' ''img'' ''mechanic'' ''agent'')"
    by (simp add: FromEnv_defs minimal_env_def wrap32_def seconds_small Second_def NewRedactor_def default_config_def
        zero_config_def AgentTypeOpenCode_def AgentTypeClaude_def SeverityLow_def Let_def)
  then show ?thesis by (rule config_bounds)
qed

text \<open>
  Three relations between settings that the source documents are not enforced: an accepted
  configuration can keep unmerged tombstones longer than merged ones (short TTL above the long
  TTL), its correlation window is by default shorter than its stabilisation window, and a
  stabilisation window of many seconds wraps around to a negative duration.
\<close>

theorem config_gaps:
  "(\<exists>env cfg. FromEnv (\<lambda>_. None) (\<lambda>_. False) env = Inr cfg
      \<and> cfg_RemediationJobTTLSeconds cfg < cfg_RemediationJobShortTTLSeconds cfg)
   \<and> (\<exists>env cfg. FromEnv (\<lambda>_. None) (\<lambda>_. False) env = Inr cfg
      \<and> seconds (cfg_CorrelationWindowSeconds cfg) < cfg_StabilisationWindow cfg)
   \<and> (\<exists>env cfg. FromEnv (\<lambda>_. None) (\<lambda>_. False) env = Inr cfg \<and> cfg_StabilisationWindow cfg < 0)"
proof (intro conjI)
  note ev = FromEnv_defs minimal_env_def NewRedactor_def zero_config_def AgentTypeOpenCode_def
        AgentTypeClaude_def SeverityLow_def Let_def Atoi_def parse_digits_def isDigit_def digits_val_def digit_val_def
        minDuration_def maxDuration_def at_most_def maxInt32_def
  show "\<exists>env cfg. FromEnv (\<lambda>_. None) (\<lambda>_. False) env = Inr cfg
      \<and> cfg_RemediationJobTTLSeconds cfg < cfg_RemediationJobShortTTLSeconds cfg"
    by (rule exI [of _ "minimal_env [(''REMEDIATION_JOB_TTL_SECONDS'', ''60'')]"]) (simp add: ev)
  show "\<exists>env cfg. FromEnv (\<lambda>_. None) (\<lambda>_. False) env = Inr cfg
      \<and> seconds (cfg_CorrelationWindowSeconds cfg) < cfg_StabilisationWindow cfg"
    by (rule exI [of _ "minimal_env []"]) (simp add: ev seconds_small)
  show "\<exists>env cfg. FromEnv (\<lambda>_. None) (\<lambda>_. False) env = Inr cfg \<and> cfg_StabilisationWindow cfg < 0"
    by (rule exI [of _ "minimal_env [(''STABILISATION_WINDOW_SECONDS'', ''9300000000'')]"])
      (simp add: ev seconds_def wrap64_def Second_def)
qed

end
