(* ===== verification/Metrics.thy ===== *)
theory Metrics
  imports Kube
begin

text \<open>
  \<open>src/internal/metrics/metrics.go\<close>: the registry and the convenience functions. A call of one of
  them is a \<open>metric\<close> in the trace of a handler; \<open>apply_metric\<close> is its effect on the registry, and
  \<open>registry_of\<close> the registry after a trace. A Prometheus counter is a function from label values to
  a count, a gauge to its last value; a gauge value in seconds is kept in nanoseconds, exact where
  the Go code converts to a floating-point number.
\<close>

definition ReasonMinSeverity :: string where "ReasonMinSeverity = ''min_severity''"
definition ReasonStabilisationWindow :: string where "ReasonStabilisationWindow = ''stabilisation_window''"
definition ReasonDuplicate :: string where "ReasonDuplicate = ''duplicate''"
definition ReasonParentHierarchy :: string where "ReasonParentHierarchy = ''parent_hierarchy''"
definition ReasonPermanentlyFailed :: string where "ReasonPermanentlyFailed = ''permanently_failed''"
definition ReasonCorrelationSuppressed :: string where "ReasonCorrelationSuppressed = ''correlation_suppressed''"
definition ReasonInjectionDetected :: string where "ReasonInjectionDetected = ''injection_detected''"
definition ReasonSelfRemediationDepth :: string where "ReasonSelfRemediationDepth = ''self_remediation_depth''"
definition ReasonCircuitBreaker :: string where "ReasonCircuitBreaker = ''circuit_breaker''"

definition OutcomeSucceeded :: string where "OutcomeSucceeded = ''succeeded''"
definition OutcomeFailed :: string where "OutcomeFailed = ''failed''"
definition OutcomePermanentlyFailed :: string where "OutcomePermanentlyFailed = ''permanently_failed''"

record registry =
  FindingsDispatchedTotal :: "string \<times> string \<Rightarrow> nat"
  FindingsSuppressedTotal :: "string \<Rightarrow> nat"
  AgentJobsActive :: int
  AgentJobsPending :: int
  AgentJobDurationSeconds :: "string \<times> string \<rightharpoonup> duration"
  PRsOpenedTotal :: nat
  PRsClosedTotal :: nat
  CircuitBreakerActivationsTotal :: nat

definition init_registry :: registry where
  "init_registry = \<lparr>FindingsDispatchedTotal = (\<lambda>_. 0), FindingsSuppressedTotal = (\<lambda>_. 0),
     AgentJobsActive = 0, AgentJobsPending = 0, AgentJobDurationSeconds = Map.empty,
     PRsOpenedTotal = 0, PRsClosedTotal = 0, CircuitBreakerActivationsTotal = 0\<rparr>"

definition observe_duration :: "string \<Rightarrow> string \<Rightarrow> time \<Rightarrow> time \<Rightarrow> registry \<Rightarrow> registry" where
  "observe_duration fingerprint outcome dispatched completed g =
     (if dispatched = zeroTime \<or> completed = zeroTime then g
      else (let dur = time_sub completed dispatched;
                dur = (if dur < 0 then 0 else dur)
            in g\<lparr>AgentJobDurationSeconds := (AgentJobDurationSeconds g)((fingerprint, outcome) \<mapsto> dur)\<rparr>))"

fun apply_metric :: "metric \<Rightarrow> registry \<Rightarrow> registry" where
  "apply_metric (RecordDispatched kind severity) g =
     g\<lparr>FindingsDispatchedTotal := (FindingsDispatchedTotal g)
         ((kind, severity) := Suc (FindingsDispatchedTotal g (kind, severity)))\<rparr>"
| "apply_metric (RecordSuppressed reason) g =
     g\<lparr>FindingsSuppressedTotal := (FindingsSuppressedTotal g)(reason := Suc (FindingsSuppressedTotal g reason))\<rparr>"
| "apply_metric (SetActiveJobs n) g = g\<lparr>AgentJobsActive := n\<rparr>"
| "apply_metric (SetPendingJobs n) g = g\<lparr>AgentJobsPending := n\<rparr>"
| "apply_metric (ObserveJobDuration fp outcome d c) g = observe_duration fp outcome d c g"
| "apply_metric RecordPROpened g = g\<lparr>PRsOpenedTotal := Suc (PRsOpenedTotal g)\<rparr>"
| "apply_metric RecordPRClosed g = g\<lparr>PRsClosedTotal := Suc (PRsClosedTotal g)\<rparr>"
| "apply_metric RecordCircuitBreakerActivation g =
     g\<lparr>CircuitBreakerActivationsTotal := Suc (CircuitBreakerActivationsTotal g)\<rparr>"

fun apply_effect :: "effect \<Rightarrow> registry \<Rightarrow> registry" where
  "apply_effect (Metric m) g = apply_metric m g"
| "apply_effect _ g = g"

definition registry_of :: "effect list \<Rightarrow> registry" where
  "registry_of es = foldl (\<lambda>g e. apply_effect e g) init_registry es"

section \<open>Lemmas\<close>

lemma registry_of_Nil [simp]: "registry_of [] = init_registry"
  by (simp add: registry_of_def)

lemma registry_of_snoc [simp]: "registry_of (es @ [e]) = apply_effect e (registry_of es)"
  by (simp add: registry_of_def)

lemma observe_duration_frame [simp]:
  "FindingsDispatchedTotal (observe_duration a b c d g) = FindingsDispatchedTotal g"
  "FindingsSuppressedTotal (observe_duration a b c d g) = FindingsSuppressedTotal g"
  "PRsOpenedTotal (observe_duration a b c d g) = PRsOpenedTotal g"
  by (simp_all add: observe_duration_def Let_def)

text \<open>
  The counters are faithful to the trace: after any sequence of effects the suppression counter
  of a reason is the number of suppressions recorded with it, the dispatch counter of a kind and
  severity the number of dispatches, and the counter of opened pull requests the number of
  openings; and a recorded job duration is never negative.
\<close>

theorem counters_count:
  "FindingsSuppressedTotal (registry_of es) r = count_list es (Metric (RecordSuppressed r))
   \<and> FindingsDispatchedTotal (registry_of es) (k, s) = count_list es (Metric (RecordDispatched k s))
   \<and> PRsOpenedTotal (registry_of es) = count_list es (Metric RecordPROpened)
   \<and> (\<forall>l d. AgentJobDurationSeconds (registry_of es) l = Some d \<longrightarrow> 0 \<le> d)"
proof (induction es rule: rev_induct)
  case (snoc e es)
  show ?case
  proof (cases e)
    case (Metric m)
    with snoc show ?thesis by (cases m) (auto simp: observe_duration_def Let_def split: if_splits)
  qed (use snoc in auto)
qed (simp add: init_registry_def)

theorem counters_count_witness:
  "AgentJobDurationSeconds (registry_of [Metric (ObserveJobDuration ''fp'' ''succeeded'' 9 5)]) (''fp'', ''succeeded'') = Some 0
   \<and> FindingsSuppressedTotal (registry_of [Metric (RecordSuppressed ''duplicate'')]) ''duplicate'' = 1"
  using counters_count [of "[Metric (RecordSuppressed ''duplicate'')]" "''duplicate''" "[]" "[]"]
  by (simp add: registry_of_def observe_duration_def init_registry_def zeroTime_def time_sub_def
      minDuration_def maxDuration_def)

end
