(* ===== verification/Bounded_Map.thy ===== *)
theory Bounded_Map
  imports Prelude
begin

text \<open>
  \<open>src/internal/provider/bounded_map.go\<close>: the size-bounded map with expiry in which a provider
  remembers when it first saw a finding. The entries are an association list with distinct keys.
  Two things are outside the code and are arguments: the clock \<open>clk\<close>, read exactly as often and in
  the order the Go code reads it, and the order \<open>it\<close> in which a \<open>range\<close> loop visits the entries of
  a Go map, of which the language promises only that every entry is visited once.
  The mutex makes each method atomic.
\<close>

record BoundedMap =
  bm_data :: "(string \<times> time) list"
  bm_maxSize :: int
  bm_ttl :: duration
  bm_lastCleanup :: time
  bm_cleanupInterval :: duration

type_synonym range_order = "(string \<times> time) list \<Rightarrow> (string \<times> time) list"

definition NewBoundedMap :: "('v, time) state \<Rightarrow> int \<Rightarrow> duration \<Rightarrow> duration \<Rightarrow> ('v, BoundedMap) state" where
  "NewBoundedMap clk maxSize ttl cleanupInterval = do {
     now \<leftarrow> clk;
     ret \<lparr>bm_data = [], bm_maxSize = maxSize, bm_ttl = ttl, bm_lastCleanup = now,
          bm_cleanupInterval =
            (if cleanupInterval \<le> 0 then (if 0 < ttl then quot ttl 2 else 5 * Minute)
             else cleanupInterval)\<rparr>
   }"

definition needsCleanup :: "('v, time) state \<Rightarrow> BoundedMap \<Rightarrow> ('v, bool) state" where
  "needsCleanup clk m =
     (if bm_ttl m \<le> 0 then ret False
      else do {
        now \<leftarrow> clk;
        ret (bm_cleanupInterval m < time_sub now (bm_lastCleanup m))
      })"

definition cleanupIfNeeded :: "('v, time) state \<Rightarrow> BoundedMap \<Rightarrow> ('v, BoundedMap) state" where
  "cleanupIfNeeded clk m = do {
     b \<leftarrow> needsCleanup clk m;
     if \<not> b then ret m
     else do {
       m \<leftarrow> (if 0 < bm_ttl m
             then do {
               now \<leftarrow> clk;
               let cutoff = now + (- bm_ttl m);
               ret (m\<lparr>bm_data := filter (\<lambda>(k, v). \<not> v < cutoff) (bm_data m)\<rparr>)
             }
             else ret m);
       now \<leftarrow> clk;
       ret (m\<lparr>bm_lastCleanup := now\<rparr>)
     }
   }"

text \<open>\<open>m.data[key] = timestamp\<close> and \<open>delete(m.data, key)\<close>.\<close>

definition put :: "string \<Rightarrow> time \<Rightarrow> (string \<times> time) list \<Rightarrow> (string \<times> time) list" where
  "put key t xs = (key, t) # filter (\<lambda>(k, v). k \<noteq> key) xs"

definition del :: "string \<Rightarrow> (string \<times> time) list \<Rightarrow> (string \<times> time) list" where
  "del key xs = filter (\<lambda>(k, v). k \<noteq> key) xs"

text \<open>The loop that looks for the oldest entry; \<open>None\<close> is \<open>first\<close> still being true.\<close>

definition oldest :: "(string \<times> time) list \<Rightarrow> (string \<times> time) option" where
  "oldest xs = (case xs of [] \<Rightarrow> None | x # xs \<Rightarrow> Some (pick (\<lambda>x y. snd x < snd y) x xs))"

text \<open>The body of \<open>SetWithTime\<close> after the clean-up.\<close>

definition insert_entry :: "range_order \<Rightarrow> string \<Rightarrow> time \<Rightarrow> BoundedMap \<Rightarrow> bool \<times> BoundedMap" where
  "insert_entry it key timestamp m =
     (if 0 < bm_maxSize m \<and> bm_maxSize m \<le> int (length (bm_data m))
      then (if map_of (bm_data m) key \<noteq> None
            then (True, m\<lparr>bm_data := put key timestamp (bm_data m)\<rparr>)
            else (case oldest (it (bm_data m)) of
                    None \<Rightarrow> (False, m)
                  | Some (oldestKey, _) \<Rightarrow>
                      (True, m\<lparr>bm_data := put key timestamp (del oldestKey (bm_data m))\<rparr>)))
      else (True, m\<lparr>bm_data := put key timestamp (bm_data m)\<rparr>))"

definition SetWithTime :: "('v, time) state \<Rightarrow> range_order \<Rightarrow> string \<Rightarrow> time \<Rightarrow> BoundedMap \<Rightarrow>
    ('v, bool \<times> BoundedMap) state" where
  "SetWithTime clk it key timestamp m = do {
     m \<leftarrow> cleanupIfNeeded clk m;
     ret (insert_entry it key timestamp m)
   }"

definition SetNow :: "('v, time) state \<Rightarrow> range_order \<Rightarrow> string \<Rightarrow> BoundedMap \<Rightarrow> ('v, bool \<times> BoundedMap) state" where
  "SetNow clk it key m = do { now \<leftarrow> clk; SetWithTime clk it key now m }"

text \<open>The pair \<open>(time.Time{}, false)\<close> is \<open>None\<close>.\<close>

definition Get :: "('v, time) state \<Rightarrow> string \<Rightarrow> BoundedMap \<Rightarrow> ('v, time option) state" where
  "Get clk key m = do {
     b \<leftarrow> needsCleanup clk m;
     if b \<and> 0 < bm_ttl m
     then (case map_of (bm_data m) key of
             Some ts \<Rightarrow> do {
               now \<leftarrow> clk;
               ret (if bm_ttl m < time_sub now ts then None else Some ts)
             }
           | None \<Rightarrow> ret (map_of (bm_data m) key))
     else ret (map_of (bm_data m) key)
   }"

definition Delete :: "string \<Rightarrow> BoundedMap \<Rightarrow> BoundedMap" where
  "Delete key m = m\<lparr>bm_data := del key (bm_data m)\<rparr>"

definition Len :: "BoundedMap \<Rightarrow> int" where
  "Len m = int (length (bm_data m))"

definition Clear :: "('v, time) state \<Rightarrow> BoundedMap \<Rightarrow> ('v, BoundedMap) state" where
  "Clear clk m = do { now \<leftarrow> clk; ret (m\<lparr>bm_data := [], bm_lastCleanup := now\<rparr>) }"

definition Cleanup :: "('v, time) state \<Rightarrow> BoundedMap \<Rightarrow> ('v, BoundedMap) state" where
  "Cleanup clk m = cleanupIfNeeded clk m"

definition Keys :: "range_order \<Rightarrow> BoundedMap \<Rightarrow> string list" where
  "Keys it m = map fst (it (bm_data m))"

definition Copy :: "BoundedMap \<Rightarrow> string \<rightharpoonup> time" where
  "Copy m = map_of (bm_data m)"

definition SetForTest :: "('v, time) state \<Rightarrow> string \<Rightarrow> time \<Rightarrow> BoundedMap \<Rightarrow> ('v, BoundedMap) state" where
  "SetForTest clk key timestamp m = do {
     now \<leftarrow> clk;
     ret (m\<lparr>bm_data := put key timestamp (bm_data m), bm_lastCleanup := now\<rparr>)
   }"

section \<open>The invariant and the sequences of operations\<close>

definition bm_ok :: "BoundedMap \<Rightarrow> bool" where
  "bm_ok m = (distinct (map fst (bm_data m))
     \<and> (0 < bm_maxSize m \<longrightarrow> int (length (bm_data m)) \<le> bm_maxSize m))"

datatype map_op = OpSet string time | OpDelete string | OpClear | OpCleanup

fun bm_step :: "('v, time) state \<Rightarrow> range_order \<Rightarrow> map_op \<Rightarrow> BoundedMap \<Rightarrow> ('v, BoundedMap) state" where
  "bm_step clk it (OpSet k t) m = do { (b, m) \<leftarrow> SetWithTime clk it k t m; ret m }"
| "bm_step clk it (OpDelete k) m = ret (Delete k m)"
| "bm_step clk it OpClear m = Clear clk m"
| "bm_step clk it OpCleanup m = Cleanup clk m"

fun run_ops :: "(map_op \<Rightarrow> 's \<Rightarrow> ('v, 's) state) \<Rightarrow> map_op list \<Rightarrow> 's \<Rightarrow> ('v, 's) state" where
  "run_ops step [] s = ret s"
| "run_ops step (c # cs) s = do { s \<leftarrow> step c s; run_ops step cs s }"

text \<open>The entry that the last \<open>Set\<close> of a key wrote, if nothing removed it since.\<close>

fun last_set :: "string \<Rightarrow> map_op list \<Rightarrow> time option" where
  "last_set k [] = None"
| "last_set k (OpSet k' t # cs) = (case last_set k cs of
     Some u \<Rightarrow> Some u
   | None \<Rightarrow> if k = k' \<and> OpClear \<notin> set cs \<and> OpDelete k \<notin> set cs then Some t else None)"
| "last_set k (OpDelete k' # cs) = last_set k cs"
| "last_set k (OpClear # cs) = last_set k cs"
| "last_set k (OpCleanup # cs) = last_set k cs"

section \<open>The contract of a store of first sightings\<close>

text \<open>
  What the provider relies on: a \<open>Set\<close> is readable, the other operations invent nothing, and
  \<open>Delete\<close> and \<open>Clear\<close> really remove. A store may forget an entry at any time (by expiry or by
  eviction), so a lookup that fails says nothing; a lookup that succeeds is the latest \<open>Set\<close>.
\<close>

locale first_seen =
  fixes step :: "map_op \<Rightarrow> 's \<Rightarrow> ('v, 's) state"
    and lookup :: "'s \<Rightarrow> string \<Rightarrow> time option"
    and ok :: "'s \<Rightarrow> bool"
  assumes step_ok: "ok s \<Longrightarrow> wp (step c s) (\<lambda>s' _. ok s') v"
    and step_set: "ok s \<Longrightarrow> wp (step (OpSet k t) s) (\<lambda>s' _. lookup s' k = Some t) v"
    and step_other: "ok s \<Longrightarrow> (\<And>t. c \<noteq> OpSet k t) \<Longrightarrow>
      wp (step c s) (\<lambda>s' _. lookup s' k = None \<or> lookup s' k = lookup s k) v"
    and step_remove: "ok s \<Longrightarrow> c = OpClear \<or> c = OpDelete k \<Longrightarrow>
      wp (step c s) (\<lambda>s' _. lookup s' k = None) v"
begin

lemma run_ok: "ok s \<Longrightarrow> wp (run_ops step cs s) (\<lambda>s' _. ok s') v"
proof (induction cs arbitrary: s v)
  case (Cons c cs)
  show ?case
    unfolding run_ops.simps wp_bind by (rule wp_mono [OF step_ok]) (use Cons in auto)
qed (simp add: wp_simps)

lemma provenance:
  assumes "ok s"
  shows "wp (run_ops step cs s) (\<lambda>s' _. \<forall>t. lookup s' k = Some t \<longrightarrow>
    last_set k cs = Some t
    \<or> last_set k cs = None \<and> lookup s k = Some t \<and> OpClear \<notin> set cs \<and> OpDelete k \<notin> set cs) v"
  using assms
proof (induction cs arbitrary: s v)
  case (Cons c cs s v)
  obtain s1 v1 where r: "run_state (step c s) v = (s1, v1)" by (cases "run_state (step c s) v")
  have ok1: "ok s1"
    using step_ok [OF Cons.prems] r by (rule wp_run)
  have set1: "lookup s1 k = Some t" if "c = OpSet k t" for t
    using step_set [OF Cons.prems] r that by (blast dest: wp_run)
  have other1: "lookup s1 k = None \<or> lookup s1 k = lookup s k" if "\<And>t. c \<noteq> OpSet k t"
    using step_other [OF Cons.prems that] r by (rule wp_run)
  have remove1: "lookup s1 k = None" if "c = OpClear \<or> c = OpDelete k"
    using step_remove [OF Cons.prems that] r by (rule wp_run)
  obtain s2 v2 where r2: "run_state (run_ops step cs s1) v1 = (s2, v2)"
    by (cases "run_state (run_ops step cs s1) v1")
  have IH: "last_set k cs = Some t \<or> last_set k cs = None \<and> lookup s1 k = Some t
      \<and> OpClear \<notin> set cs \<and> OpDelete k \<notin> set cs" if "lookup s2 k = Some t" for t
    using wp_run [OF Cons.IH [OF ok1] r2] that by blast
  have "last_set k (c # cs) = Some t \<or> last_set k (c # cs) = None \<and> lookup s k = Some t
      \<and> OpClear \<notin> set (c # cs) \<and> OpDelete k \<notin> set (c # cs)" if "lookup s2 k = Some t" for t
    using IH [OF that] set1 other1 remove1 by (cases c) (fastforce split: option.splits if_splits)+
  then show ?case by (simp add: wp_def r r2)
qed (simp add: wp_simps)

end

section \<open>The map implements it\<close>

definition range_ok :: "range_order \<Rightarrow> bool" where
  "range_ok it = (\<forall>xs. mset (it xs) = mset xs)"

lemma map_of_filter_fst [simp]:
  "map_of (filter (\<lambda>(k, v). k \<noteq> key) xs) k = (if k = key then None else map_of xs k)"
  by (induction xs) auto

lemma map_of_put [simp]: "map_of (put key t xs) k = (if k = key then Some t else map_of xs k)"
  by (simp add: put_def)

lemma map_of_del [simp]: "map_of (del key xs) k = (if k = key then None else map_of xs k)"
  by (simp add: del_def)

lemma distinct_map_filter: "distinct (map f xs) \<Longrightarrow> distinct (map f (filter P xs))"
  by (induction xs) auto

lemma distinct_put: "distinct (map fst xs) \<Longrightarrow> distinct (map fst (put k t xs))"
  by (auto simp: put_def distinct_map_filter)

lemma distinct_del: "distinct (map fst xs) \<Longrightarrow> distinct (map fst (del k xs))"
  by (simp add: del_def distinct_map_filter)

lemma map_of_filter_sub:
  assumes "distinct (map fst es)"
  shows "map_of (filter keep es) key =
    (case map_of es key of Some t \<Rightarrow> (if keep (key, t) then Some t else None) | None \<Rightarrow> None)"
  using assms by (induction es) (auto simp: map_of_eq_None_iff split: option.splits)

lemma length_del_present:
  "distinct (map fst xs) \<Longrightarrow> k \<in> fst ` set xs \<Longrightarrow> Suc (length (del k xs)) = length xs"
proof (induction xs)
  case (Cons x xs)
  show ?case
  proof (cases "fst x = k")
    case True
    with Cons.prems have "filter (\<lambda>(k', v). k' \<noteq> k) xs = xs"
      by (intro filter_True) (auto simp: image_iff)
    with True show ?thesis by (auto simp: del_def split: prod.splits)
  next
    case False
    with Cons show ?thesis by (auto simp: del_def split: prod.splits)
  qed
qed simp

lemma length_put_le:
  "length (put k t xs) \<le> Suc (length xs)"
  by (simp add: put_def le_SucI)

lemma length_put_present:
  "distinct (map fst xs) \<Longrightarrow> map_of xs k \<noteq> None \<Longrightarrow> length (put k t xs) = length xs"
  using length_del_present [of xs k] by (auto simp: put_def del_def map_of_eq_None_iff)

lemma oldest_None: "oldest xs = None \<longleftrightarrow> xs = []"
  by (cases xs) (simp_all add: oldest_def)

lemma oldest_Some:
  assumes "oldest xs = Some x"
  shows "x \<in> set xs" and "y \<in> set xs \<Longrightarrow> snd x \<le> snd y"
proof -
  obtain z zs where xs: "xs = z # zs" "x = pick (\<lambda>x y. snd x < snd y) z zs"
    using assms by (cases xs) (simp_all add: oldest_def)
  show "x \<in> set xs" using pick_in xs by metis
  show "y \<in> set xs \<Longrightarrow> snd x \<le> snd y" using pick_least [of y z zs snd] xs by simp
qed

text \<open>What a clean-up does to the entries: nothing, or it removes those older than some cutoff.\<close>

lemma cleanup_spec:
  "wp (cleanupIfNeeded clk m)
     (\<lambda>m' _. bm_maxSize m' = bm_maxSize m \<and> bm_ttl m' = bm_ttl m
        \<and> bm_cleanupInterval m' = bm_cleanupInterval m
        \<and> (\<exists>P. bm_data m' = filter P (bm_data m))) v"
proof -
  have "\<exists>P. bm_data m = filter P (bm_data m)"
    by (rule exI [of _ "\<lambda>_. True"]) simp
  then show ?thesis
    unfolding cleanupIfNeeded_def needsCleanup_def wp_simps
    by (auto simp: wp_def split: prod.splits)
qed

lemma bm_ok_filter:
  assumes "bm_ok m" "bm_maxSize m' = bm_maxSize m" "bm_data m' = filter P (bm_data m)"
  shows "bm_ok m'"
  using assms length_filter_le [of P "bm_data m"]
  by (auto simp: bm_ok_def distinct_map_filter simp del: length_filter_le)

text \<open>The two ways an insertion goes: it evicts an oldest entry of a full map, or there is room.\<close>

lemma insert_entry_cases:
  assumes "range_ok it" "bm_ok m"
  obtains (evict) ko to where "bm_maxSize m = Len m" "map_of (bm_data m) k = None"
      "map_of (bm_data m) ko = Some to" "\<forall>x \<in> set (bm_data m). to \<le> snd x"
      "insert_entry it k t m = (True, m\<lparr>bm_data := put k t (del ko (bm_data m))\<rparr>)"
  | (room) "insert_entry it k t m = (True, m\<lparr>bm_data := put k t (bm_data m)\<rparr>)"
      "0 < bm_maxSize m \<Longrightarrow> int (length (put k t (bm_data m))) \<le> bm_maxSize m"
proof (cases "0 < bm_maxSize m \<and> bm_maxSize m \<le> int (length (bm_data m)) \<and> map_of (bm_data m) k = None")
  case True
  have it: "set (it (bm_data m)) = set (bm_data m)"
    using assms(1) by (metis range_ok_def set_mset_mset)
  have "it (bm_data m) \<noteq> []" using True it by (cases "bm_data m") auto
  then obtain ko to where o: "oldest (it (bm_data m)) = Some (ko, to)"
    using oldest_None by fastforce
  from oldest_Some [OF o] it have "(ko, to) \<in> set (bm_data m)" "\<forall>x \<in> set (bm_data m). to \<le> snd x"
    by auto
  with True o assms(2) show ?thesis
    by (intro evict [of ko to]) (auto simp: bm_ok_def Len_def insert_entry_def)
next
  case False
  show ?thesis
  proof (rule room)
    show "insert_entry it k t m = (True, m\<lparr>bm_data := put k t (bm_data m)\<rparr>)"
      using False by (auto simp: insert_entry_def)
    show "int (length (put k t (bm_data m))) \<le> bm_maxSize m" if "0 < bm_maxSize m"
      using that assms(2) False length_put_le [of k t "bm_data m"] length_put_present [of "bm_data m" k t]
      by (cases "map_of (bm_data m) k") (auto simp: bm_ok_def)
  qed
qed

lemma insert_entry_ok:
  assumes "range_ok it" "bm_ok m"
  shows "bm_ok (snd (insert_entry it k t m))"
  using assms
proof (cases rule: insert_entry_cases [where k = k and t = t])
  case (evict ko to)
  then have "ko \<in> fst ` set (bm_data m)" by (metis domI dom_map_of_conv_image_fst)
  then have "length (put k t (del ko (bm_data m))) \<le> length (bm_data m)"
    using length_put_le [of k t "del ko (bm_data m)"] length_del_present [of "bm_data m" ko] assms(2)
    by (simp add: bm_ok_def)
  with evict assms(2) show ?thesis by (auto simp: bm_ok_def distinct_put distinct_del)
qed (use assms(2) in \<open>auto simp: bm_ok_def distinct_put\<close>)

lemma insert_entry_lookup:
  assumes "range_ok it" "bm_ok m"
  shows "map_of (bm_data (snd (insert_entry it k t m))) k = Some t"
    and "k' \<noteq> k \<Longrightarrow> map_of (bm_data (snd (insert_entry it k t m))) k' = None
      \<or> map_of (bm_data (snd (insert_entry it k t m))) k' = map_of (bm_data m) k'"
  using assms by (cases rule: insert_entry_cases [where k = k and t = t]; simp)+

lemma wp_Set:
  assumes "bm_ok m"
    and "\<And>m1 P v. bm_maxSize m1 = bm_maxSize m \<Longrightarrow> bm_data m1 = filter P (bm_data m) \<Longrightarrow> bm_ok m1 \<Longrightarrow>
      Q (snd (insert_entry it k t m1)) v"
  shows "wp (bm_step clk it (OpSet k t) m) Q v"
  unfolding bm_step.simps SetWithTime_def wp_simps
  by (rule wp_mono [OF cleanup_spec]) (use assms bm_ok_filter in \<open>force split: prod.splits\<close>)

lemma wp_Cleanup:
  assumes "bm_ok m"
    and "\<And>m1 P v. bm_maxSize m1 = bm_maxSize m \<Longrightarrow> bm_data m1 = filter P (bm_data m) \<Longrightarrow> bm_ok m1 \<Longrightarrow> Q m1 v"
  shows "wp (bm_step clk it OpCleanup m) Q v"
  unfolding bm_step.simps Cleanup_def
  by (rule wp_mono [OF cleanup_spec]) (use assms bm_ok_filter in blast)

lemma filter_lookup:
  assumes "bm_ok m" "bm_data m' = filter P (bm_data m)"
  shows "map_of (bm_data m') k = None \<or> map_of (bm_data m') k = map_of (bm_data m) k"
  using assms by (auto simp: map_of_filter_sub bm_ok_def split: option.splits)

lemma bm_step_ok:
  assumes "range_ok it" "bm_ok m"
  shows "wp (bm_step clk it c m) (\<lambda>m' _. bm_ok m') v"
proof (cases c)
  case (OpSet k t)
  show ?thesis unfolding OpSet by (rule wp_Set) (use assms insert_entry_ok in auto)
next
  case OpCleanup
  show ?thesis unfolding OpCleanup by (rule wp_Cleanup) (use assms in auto)
next
  case (OpDelete k)
  with bm_ok_filter [OF assms(2), of "Delete k m"] show ?thesis
    by (auto simp: Delete_def del_def wp_simps)
next
  case OpClear
  with assms(2) show ?thesis by (auto simp: Clear_def wp_simps bm_ok_def intro: wpI)
qed

lemma bm_step_set:
  assumes "range_ok it" "bm_ok m"
  shows "wp (bm_step clk it (OpSet k t) m) (\<lambda>m' _. map_of (bm_data m') k = Some t) v"
  by (rule wp_Set) (use assms insert_entry_lookup(1) in auto)

lemma bm_step_other:
  assumes "range_ok it" "bm_ok m" "\<And>t. c \<noteq> OpSet k t"
  shows "wp (bm_step clk it c m)
    (\<lambda>m' _. map_of (bm_data m') k = None \<or> map_of (bm_data m') k = map_of (bm_data m) k) v"
proof (cases c)
  case (OpSet k0 t)
  with assms(3) have k: "k \<noteq> k0" by blast
  show ?thesis
    unfolding OpSet
    by (rule wp_Set)
      (use assms k insert_entry_lookup(2) [OF assms(1)] filter_lookup [OF assms(2)] in metis)+
next
  case OpCleanup
  show ?thesis unfolding OpCleanup by (rule wp_Cleanup) (use assms filter_lookup [OF assms(2)] in blast)+
next
  case (OpDelete k)
  then show ?thesis by (auto simp: Delete_def wp_simps)
next
  case OpClear
  then show ?thesis by (simp add: Clear_def wp_simps wpI)
qed

lemma bm_step_remove:
  assumes "c = OpClear \<or> c = OpDelete k"
  shows "wp (bm_step clk it c m) (\<lambda>m' _. map_of (bm_data m') k = None) v"
  using assms by (auto simp: Delete_def Clear_def wp_simps wpI)

lemma bm_step_maxSize: "wp (bm_step clk it c m) (\<lambda>m' _. bm_maxSize m' = bm_maxSize m) v"
proof (cases c)
  case (OpSet k t)
  have "bm_maxSize (snd (insert_entry it k t m1)) = bm_maxSize m1" for m1
    by (simp add: insert_entry_def split: option.splits prod.splits)
  then show ?thesis
    unfolding OpSet bm_step.simps SetWithTime_def wp_simps
    by (intro wp_mono [OF cleanup_spec]) (simp add: case_prod_beta)
next
  case OpCleanup
  show ?thesis
    unfolding OpCleanup bm_step.simps Cleanup_def by (rule wp_mono [OF cleanup_spec]) simp
qed (simp_all add: Delete_def Clear_def wp_simps wpI)

text \<open>
  Every order of the \<open>range\<close> loops gives an implementation of the contract; the interpretation
  fixes one, the properties below quantify over all of them.
\<close>

lemma bounded_map_first_seen:
  assumes "range_ok it"
  shows "first_seen (bm_step clk it) (\<lambda>m. map_of (bm_data m)) (\<lambda>m. bm_ok m \<and> bm_maxSize m = N)"
proof
  show "wp (bm_step clk it c m) (\<lambda>m' _. bm_ok m' \<and> bm_maxSize m' = N) v"
    if "bm_ok m \<and> bm_maxSize m = N" for m c v
    using wp_conjI [OF bm_step_ok [OF assms] bm_step_maxSize] that by metis
qed (simp_all add: bm_step_set bm_step_other bm_step_remove assms del: bm_step.simps)

interpretation bm: first_seen "bm_step clk id" "\<lambda>m. map_of (bm_data m)" "\<lambda>m. bm_ok m \<and> bm_maxSize m = N"
  for clk :: "('v, time) state" and N :: int
  by (rule bounded_map_first_seen) (simp add: range_ok_def)

lemma wp_New:
  assumes "\<And>m v. bm_data m = [] \<Longrightarrow> bm_maxSize m = maxSize \<Longrightarrow> bm_ok m \<Longrightarrow> Q m v"
  shows "wp (NewBoundedMap clk maxSize ttl ci) Q v"
  unfolding NewBoundedMap_def wp_simps by (rule wpI) (simp add: assms bm_ok_def)

lemma wp_Get:
  "(\<And>v. Q None v) \<Longrightarrow> (\<And>t v. map_of (bm_data m) k = Some t \<Longrightarrow> Q (Some t) v) \<Longrightarrow> wp (Get clk k m) Q v"
  unfolding Get_def needsCleanup_def
  by (cases "map_of (bm_data m) k") (auto simp: wp_simps wp_all [of clk])

text \<open>
  C33. Whatever sequence of operations a map of maximal size \<open>maxSize > 0\<close> goes through, it holds at
  most \<open>maxSize\<close> entries, one per key.
\<close>

theorem bounded_map_size:
  assumes "range_ok it" "0 < maxSize"
  shows "wp (do { m \<leftarrow> NewBoundedMap clk maxSize ttl ci; run_ops (bm_step clk it) cs m })
    (\<lambda>m _. Len m \<le> maxSize \<and> distinct (map fst (bm_data m))) v"
  unfolding wp_bind
proof (rule wp_New)
  fix m v assume m: "bm_data m = []" "bm_maxSize m = maxSize" "bm_ok m"
  show "wp (run_ops (bm_step clk it) cs m) (\<lambda>m _. Len m \<le> maxSize \<and> distinct (map fst (bm_data m))) v"
    by (rule wp_mono [OF first_seen.run_ok [OF bounded_map_first_seen [OF assms(1), where N = maxSize]]])
      (use m assms(2) in \<open>auto simp: bm_ok_def Len_def\<close>)
qed

theorem bounded_map_size_witness:
  "wp (do { m \<leftarrow> NewBoundedMap (ret 7) 2 60 0; run_ops (bm_step (ret 7) rev) [OpSet ''a'' 1, OpSet ''b'' 2, OpSet ''c'' 3] m })
    (\<lambda>m _. Len m \<le> 2 \<and> distinct (map fst (bm_data m))) ()"
  by (rule bounded_map_size) (simp_all add: range_ok_def)

text \<open>
  A timestamp that \<open>Get\<close> finds is never invented or stale: it was written by the last \<open>Set\<close> of
  that key, and neither a \<open>Clear\<close> nor a \<open>Delete\<close> of the key came after it.
\<close>

theorem bounded_map_provenance:
  assumes "range_ok it"
  shows "wp (do { m \<leftarrow> NewBoundedMap clk maxSize ttl ci; m \<leftarrow> run_ops (bm_step clk it) cs m; Get clk k m })
    (\<lambda>r _. r = None \<or> r = last_set k cs) v"
  unfolding wp_bind
proof (rule wp_New)
  fix m v assume m: "bm_data m = []" "bm_maxSize m = maxSize" "bm_ok m"
  show "wp (run_ops (bm_step clk it) cs m) (\<lambda>m. wp (Get clk k m) (\<lambda>r _. r = None \<or> r = last_set k cs)) v"
    by (rule wp_mono [OF first_seen.provenance [OF bounded_map_first_seen [OF assms, where N = maxSize], where k = k]])
      (use m in \<open>auto intro!: wp_Get\<close>)
qed

theorem bounded_map_provenance_witness:
  "wp (do { m \<leftarrow> NewBoundedMap (ret 7) 2 60 0;
            m \<leftarrow> run_ops (bm_step (ret 7) id) [OpSet ''a'' 1, OpClear, OpSet ''b'' 2] m; Get (ret 7) ''a'' m })
    (\<lambda>r _. r = None) ()"
  by (rule wp_mono [OF bounded_map_provenance]) (auto simp: range_ok_def)

text \<open>
  \<open>SetWithTime\<close> always stores its entry; another entry disappears only if it had expired (the
  clean-up removes it), or if the map was full, the key new and the entry an oldest one of those
  the clean-up left.
\<close>

theorem bounded_map_set:
  assumes "range_ok it" "bm_ok m" "\<And>v. run_state clk v = (now, v)"
  shows "wp (SetWithTime clk it k t m) (\<lambda>r _. case r of (b, m') \<Rightarrow> b \<and> map_of (bm_data m') k = Some t
     \<and> (\<forall>k' u. k' \<noteq> k \<and> map_of (bm_data m) k' = Some u \<and> map_of (bm_data m') k' \<noteq> Some u \<longrightarrow>
          0 < bm_ttl m \<and> u < now - bm_ttl m
          \<or> 0 < bm_maxSize m \<and> (\<forall>w. map_of (bm_data m) k = Some w \<longrightarrow> 0 < bm_ttl m \<and> w < now - bm_ttl m) \<and> (\<forall>x \<in> set (bm_data m'). fst x \<noteq> k \<longrightarrow> u \<le> snd x))) v"
proof -
  have c: "wp (cleanupIfNeeded clk m) (\<lambda>m1 _. bm_maxSize m1 = bm_maxSize m \<and>
     (bm_data m1 = bm_data m \<or> 0 < bm_ttl m \<and> bm_data m1 = filter (\<lambda>(k, v). \<not> v < now - bm_ttl m) (bm_data m))) v"
    by (simp add: cleanupIfNeeded_def needsCleanup_def wp_simps wp_all [of clk] assms(3))
  show ?thesis
    unfolding SetWithTime_def wp_simps
  proof (rule wp_mono [OF c], elim conjE)
    fix m1 :: BoundedMap and v assume size: "bm_maxSize m1 = bm_maxSize m"
      and d: "bm_data m1 = bm_data m \<or> 0 < bm_ttl m \<and> bm_data m1 = filter (\<lambda>(k, v). \<not> v < now - bm_ttl m) (bm_data m)"
    have ok1: "bm_ok m1"
      using bm_ok_filter [OF assms(2) size] bm_ok_filter [OF assms(2) size, of "\<lambda>_. True"] d by fastforce
    have lost: "map_of (bm_data m1) k' = Some u \<or> 0 < bm_ttl m \<and> u < now - bm_ttl m"
      if "map_of (bm_data m) k' = Some u" for k' u
      using d that assms(2) by (auto simp: bm_ok_def map_of_filter_sub split: if_splits)
    show "case insert_entry it k t m1 of (b, m') \<Rightarrow> b \<and> map_of (bm_data m') k = Some t
     \<and> (\<forall>k' u. k' \<noteq> k \<and> map_of (bm_data m) k' = Some u \<and> map_of (bm_data m') k' \<noteq> Some u \<longrightarrow>
          0 < bm_ttl m \<and> u < now - bm_ttl m
          \<or> 0 < bm_maxSize m \<and> (\<forall>w. map_of (bm_data m) k = Some w \<longrightarrow> 0 < bm_ttl m \<and> w < now - bm_ttl m) \<and> (\<forall>x \<in> set (bm_data m'). fst x \<noteq> k \<longrightarrow> u \<le> snd x))"
      using assms(1) ok1
    proof (cases rule: insert_entry_cases [where k = k and t = t])
      case (evict ko to)
      have "0 < bm_maxSize m" using evict size by (cases "bm_data m1") (auto simp: Len_def)
      moreover have "\<forall>w. map_of (bm_data m) k = Some w \<longrightarrow> 0 < bm_ttl m \<and> w < now - bm_ttl m"
        using lost evict by force
      moreover have "\<forall>x \<in> set (put k t (del ko (bm_data m1))). fst x \<noteq> k \<longrightarrow> to \<le> snd x"
        using evict(4) by (auto simp: put_def del_def)
      ultimately show ?thesis using evict lost by (fastforce split: if_splits)
    next
      case room
      with lost show ?thesis by (auto split: if_splits)
    qed
  qed
qed

theorem bounded_map_set_witness:
  "wp (SetWithTime (ret 100) rev ''c'' 9 \<lparr>bm_data = [(''a'', 3), (''b'', 5)], bm_maxSize = 2, bm_ttl = 0,
         bm_lastCleanup = 0, bm_cleanupInterval = 10\<rparr>)
     (\<lambda>(b, m') _. b \<and> map_of (bm_data m') ''c'' = Some 9 \<and> map_of (bm_data m') ''b'' = Some 5) ()"
proof -
  let ?m = "\<lparr>bm_data = [(''a'', 3), (''b'', 5)], bm_maxSize = 2, bm_ttl = 0,
         bm_lastCleanup = 0, bm_cleanupInterval = 10\<rparr>"
  have "range_ok rev" "bm_ok ?m" by (simp_all add: range_ok_def bm_ok_def)
  from bounded_map_set [OF this, of "ret 100" 100 "''c''" 9 "()"] show ?thesis
    by (simp add: SetWithTime_def cleanupIfNeeded_def needsCleanup_def wp_simps insert_entry_def
        oldest_def put_def del_def)
qed

end
