(* ===== verification/Go_Json.thy ===== *)
theory Go_Json
  imports Go_Text
begin

text \<open>
  What the program uses of Go's package \<open>encoding/json\<close>: the escaping of strings by the encoder,
  with and without the escaping of HTML characters, and the parser of \<open>json.Unmarshal\<close> with its
  limit on nesting. Numbers are kept as their text. A text that is not valid UTF-8 is read and
  written with U+FFFD for each bad byte, as Go does; \<open>valid_text\<close> is that replacement.
\<close>

datatype json =
    JNull
  | JBool bool
  | JNum string
  | JStr string
  | JArr "json list"
  | JObj "(string \<times> json) list"

section \<open>Strings\<close>

definition dquote :: char where "dquote = CHR 0x22"
definition bslash :: char where "bslash = CHR 0x5C"

text \<open>\<open>utf8.AppendRune\<close>.\<close>

definition EncodeRune :: "nat \<Rightarrow> string" where
  "EncodeRune r =
     (if r < 128 then [char_of r]
      else if r < 2048 then [char_of (192 + r div 64), char_of (128 + r mod 64)]
      else if 55296 \<le> r \<and> r < 57344 \<or> 1114112 \<le> r then [CHR 0xEF, CHR 0xBF, CHR 0xBD]
      else if r < 65536 then
        [char_of (224 + r div 4096), char_of (128 + r div 64 mod 64), char_of (128 + r mod 64)]
      else [char_of (240 + r div 262144), char_of (128 + r div 4096 mod 64),
            char_of (128 + r div 64 mod 64), char_of (128 + r mod 64)])"

definition hex_char :: "nat \<Rightarrow> char" where
  "hex_char n = ''0123456789abcdef'' ! n"

definition u_escape :: "nat \<Rightarrow> string" where
  "u_escape n = [bslash, CHR ''u'', hex_char (n div 4096 mod 16), hex_char (n div 256 mod 16),
     hex_char (n div 16 mod 16), hex_char (n mod 16)]"

text \<open>One token of the encoder \<open>appendString\<close>.\<close>

definition escape_tok :: "bool \<Rightarrow> tok \<Rightarrow> string" where
  "escape_tok html t =
     (case t of (r, bs) \<Rightarrow>
        if r < 128 then
          (if r = 34 \<or> r = 92 then bslash # bs
           else if r = 8 then [bslash, CHR ''b''] else if r = 12 then [bslash, CHR ''f'']
           else if r = 10 then [bslash, CHR ''n''] else if r = 13 then [bslash, CHR ''r'']
           else if r = 9 then [bslash, CHR ''t'']
           else if r < 32 \<or> html \<and> (r = 60 \<or> r = 62 \<or> r = 38) then u_escape r
           else bs)
        else if r = RuneError \<and> length bs = 1 then bslash # ''ufffd''
        else if r = 8232 \<or> r = 8233 then u_escape r
        else bs)"

definition encode_string :: "bool \<Rightarrow> string \<Rightarrow> string" where
  "encode_string html s = dquote # concat (map (escape_tok html) (runes s)) @ [dquote]"

definition valid_tok :: "tok \<Rightarrow> string" where
  "valid_tok t = (case t of (r, bs) \<Rightarrow>
     if r = RuneError \<and> length bs = 1 then [CHR 0xEF, CHR 0xBF, CHR 0xBD] else bs)"

definition valid_text :: "string \<Rightarrow> string" where
  "valid_text s = concat (map valid_tok (runes s))"

definition hex_val :: "char \<Rightarrow> nat option" where
  "hex_val c =
     (let b = byte c in
      if 48 \<le> b \<and> b \<le> 57 then Some (b - 48)
      else if 97 \<le> b \<and> b \<le> 102 then Some (b - 87)
      else if 65 \<le> b \<and> b \<le> 70 then Some (b - 55)
      else None)"

fun hex4 :: "string \<Rightarrow> (nat \<times> string) option" where
  "hex4 (a # b # c # d # r) =
     (case (hex_val a, hex_val b, hex_val c, hex_val d) of
        (Some w, Some x, Some y, Some z) \<Rightarrow> Some (w * 4096 + x * 256 + y * 16 + z, r)
      | _ \<Rightarrow> None)"
| "hex4 _ = None"

definition simple_escape :: "char \<Rightarrow> char option" where
  "simple_escape c =
     (if c = dquote \<or> c = bslash \<or> c = CHR ''/'' then Some c
      else if c = CHR ''b'' then Some (char_of (8 :: nat)) else if c = CHR ''f'' then Some (char_of (12 :: nat))
      else if c = CHR ''n'' then Some (char_of (10 :: nat)) else if c = CHR ''r'' then Some (char_of (13 :: nat))
      else if c = CHR ''t'' then Some (char_of (9 :: nat)) else None)"

text \<open>What follows \<open>\u\<close> and four digits of value \<open>n\<close>: the bytes it stands for and the rest.\<close>

definition after_u :: "nat \<Rightarrow> string \<Rightarrow> string \<times> string" where
  "after_u n r =
     (if 55296 \<le> n \<and> n < 57344 then
        (case r of
           b # u # r' \<Rightarrow>
             if b = bslash \<and> u = CHR ''u'' then
               (case hex4 r' of
                  Some (m, r'') \<Rightarrow>
                    if n < 56320 \<and> 56320 \<le> m \<and> m < 57344
                    then (EncodeRune ((n - 55296) * 1024 + (m - 56320) + 65536), r'')
                    else (EncodeRune RuneError, r)
                | None \<Rightarrow> (EncodeRune RuneError, r))
             else (EncodeRune RuneError, r)
         | _ \<Rightarrow> (EncodeRune RuneError, r))
      else (EncodeRune n, r))"

lemma hex4_length: "hex4 s = Some (n, r) \<Longrightarrow> length r < length s"
  by (induction s rule: hex4.induct) (auto split: option.splits)

lemma after_u_length: "length (snd (after_u n r)) \<le> length r"
  by (auto simp: after_u_def split: list.splits option.splits dest: hex4_length)

text \<open>A string after its opening quote: the text it denotes, and what follows the closing quote.\<close>

function read_string :: "string \<Rightarrow> (string \<times> string) option" where
  "read_string [] = None"
| "read_string (c # cs) =
     (if c = dquote then Some ([], cs)
      else if c = bslash then
        (case cs of
           [] \<Rightarrow> None
         | e # r \<Rightarrow>
             (case simple_escape e of
                Some x \<Rightarrow> map_option (apfst (\<lambda>t. x # t)) (read_string r)
              | None \<Rightarrow>
                  if e = CHR ''u'' then
                    (case hex4 r of
                       None \<Rightarrow> None
                     | Some (n, r') \<Rightarrow>
                         map_option (apfst (\<lambda>t. fst (after_u n r') @ t)) (read_string (snd (after_u n r'))))
                  else None))
      else if byte c < 32 then None
      else (let (r, n) = DecodeRune (c # cs); w = max 1 n; bs = take w (c # cs)
            in map_option (apfst (\<lambda>t. valid_tok (r, bs) @ t)) (read_string (drop w (c # cs)))))"
  by pat_completeness auto
termination
  by (relation "measure length")
    (auto dest!: hex4_length intro!: le_less_trans [OF after_u_length] less_SucI)

section \<open>Values\<close>

definition ws_json :: "char \<Rightarrow> bool" where
  "ws_json c = (byte c \<in> {32, 9, 10, 13})"

definition skip :: "string \<Rightarrow> string" where
  "skip s = dropWhile ws_json s"

lemma skip_length: "length (skip s) \<le> length s"
  by (simp add: skip_def length_dropWhile_le)

lemma skip_Cons_length: "skip s = c # r \<Longrightarrow> length r < length s"
  using skip_length [of s] by simp

definition take_digits :: "string \<Rightarrow> string \<times> string" where
  "take_digits s = (takeWhile isDigit s, dropWhile isDigit s)"

text \<open>A number, as the scanner of the package reads it.\<close>

definition int_part :: "string \<Rightarrow> (string \<times> string) option" where
  "int_part s = (case s of [] \<Rightarrow> None
     | c # r \<Rightarrow> if c = CHR ''0'' then Some ([c], r)
                else if isDigit c then Some (take_digits s) else None)"

definition frac_part :: "string \<Rightarrow> (string \<times> string) option" where
  "frac_part s = (case s of
       c # r \<Rightarrow> if c = CHR ''.'' then (case take_digits r of (ds, r') \<Rightarrow> if ds = [] then None else Some (c # ds, r'))
                else Some ([], s)
     | [] \<Rightarrow> Some ([], s))"

definition exp_part :: "string \<Rightarrow> (string \<times> string) option" where
  "exp_part s = (case s of
       c # r \<Rightarrow>
         if c = CHR ''e'' \<or> c = CHR ''E'' then
           (let (sg, r1) = (case r of x # r' \<Rightarrow> if x = CHR ''+'' \<or> x = CHR ''-'' then ([x], r') else ([], r) | [] \<Rightarrow> ([], r))
            in case take_digits r1 of (ds, r') \<Rightarrow> if ds = [] then None else Some (c # sg @ ds, r'))
         else Some ([], s)
     | [] \<Rightarrow> Some ([], s))"

definition number :: "string \<Rightarrow> (string \<times> string) option" where
  "number s =
     (let (sg, s1) = (case s of c # r \<Rightarrow> if c = CHR ''-'' then ([c], r) else ([], s) | [] \<Rightarrow> ([], s))
      in case int_part s1 of None \<Rightarrow> None
         | Some (a, s2) \<Rightarrow> (case frac_part s2 of None \<Rightarrow> None
            | Some (b, s3) \<Rightarrow> (case exp_part s3 of None \<Rightarrow> None
               | Some (e, s4) \<Rightarrow> Some (sg @ a @ b @ e, s4))))"

definition literal :: "string \<Rightarrow> json \<Rightarrow> string \<Rightarrow> (json \<times> string) option" where
  "literal w v s = (if HasPrefix s w then Some (v, drop (length w) s) else None)"

definition scalar :: "string \<Rightarrow> (json \<times> string) option" where
  "scalar s =
     (case s of [] \<Rightarrow> None
      | c # r \<Rightarrow>
          if c = dquote then map_option (apfst JStr) (read_string r)
          else if c = CHR ''t'' then literal ''true'' (JBool True) s
          else if c = CHR ''f'' then literal ''false'' (JBool False) s
          else if c = CHR ''n'' then literal ''null'' JNull s
          else map_option (apfst JNum) (number s))"

text \<open>
  Arrays and objects. \<open>d\<close> is the nesting still allowed. The comparisons of lengths never fail on a
  successful parse; they make the recursion structural on the length of the input.
\<close>

function parse_value :: "nat \<Rightarrow> string \<Rightarrow> (json \<times> string) option"
  and parse_elems :: "nat \<Rightarrow> string \<Rightarrow> (json list \<times> string) option"
  and parse_members :: "nat \<Rightarrow> string \<Rightarrow> ((string \<times> json) list \<times> string) option" where
  "parse_value d s =
     (case skip s of
        [] \<Rightarrow> None
      | c # r \<Rightarrow>
          if c = CHR ''['' then
            (if d = 0 then None
             else if skip r \<noteq> [] \<and> hd (skip r) = CHR '']'' then Some (JArr [], tl (skip r))
             else map_option (apfst JArr) (parse_elems (d - 1) r))
          else if c = CHR ''{'' then
            (if d = 0 then None
             else if skip r \<noteq> [] \<and> hd (skip r) = CHR ''}'' then Some (JObj [], tl (skip r))
             else map_option (apfst JObj) (parse_members (d - 1) r))
          else scalar (c # r))"
| "parse_elems d s =
     (case parse_value d s of
        None \<Rightarrow> None
      | Some (v, r) \<Rightarrow>
          (case skip r of
             [] \<Rightarrow> None
           | c # r' \<Rightarrow>
               if c = CHR '']'' then Some ([v], r')
               else if c = CHR '','' \<and> length r' < length s
               then map_option (apfst (\<lambda>vs. v # vs)) (parse_elems d r')
               else None))"
| "parse_members d s =
     (case skip s of
        [] \<Rightarrow> None
      | q # r \<Rightarrow>
          if q \<noteq> dquote then None
          else (case read_string r of
                  None \<Rightarrow> None
                | Some (k, r1) \<Rightarrow>
                    (case skip r1 of
                       [] \<Rightarrow> None
                     | c # r2 \<Rightarrow>
                         if c = CHR '':'' \<and> length r2 < length s then
                           (case parse_value d r2 of
                              None \<Rightarrow> None
                            | Some (v, r3) \<Rightarrow>
                                (case skip r3 of
                                   [] \<Rightarrow> None
                                 | e # r4 \<Rightarrow>
                                     if e = CHR ''}'' then Some ([(k, v)], r4)
                                     else if e = CHR '','' \<and> length r4 < length s
                                     then map_option (apfst (\<lambda>ms. (k, v) # ms)) (parse_members d r4)
                                     else None))
                         else None)))"
  by pat_completeness auto

termination
  by (relation "measure (case_sum (\<lambda>(d, s). 2 * length s)
      (case_sum (\<lambda>(d, s). 2 * length s + 1) (\<lambda>(d, s). 2 * length s + 1)))")
    (auto dest!: skip_Cons_length)

declare parse_value.simps [simp del] parse_elems.simps [simp del] parse_members.simps [simp del]

definition max_depth :: nat where
  "max_depth = 10000"

definition parse_json :: "string \<Rightarrow> json option" where
  "parse_json s = (case parse_value max_depth s of
     Some (v, r) \<Rightarrow> if skip r = [] then Some v else None | None \<Rightarrow> None)"

section \<open>Decoding into a struct with one string field\<close>

text \<open>A key selects the field if it is its name up to simple case folding.\<close>

definition selects :: "string \<Rightarrow> string \<Rightarrow> bool" where
  "selects key field = (map (\<lambda>t. fold_ascii (fst t)) (runes key) = map (\<lambda>t. fold_ascii (fst t)) (runes field))"

text \<open>
  Decoding one member into the struct. The second component is whether an \<open>UnmarshalTypeError\<close> has
  been saved: decoding goes on after it, and the decoder returns it at the end.
\<close>

definition decode_member :: "string \<Rightarrow> string \<times> bool \<Rightarrow> string \<times> json \<Rightarrow> string \<times> bool" where
  "decode_member field acc m =
     (if selects (fst m) field
      then (case snd m of JStr t \<Rightarrow> (t, snd acc) | JNull \<Rightarrow> acc | _ \<Rightarrow> (fst acc, True))
      else acc)"

definition decode_struct :: "string \<Rightarrow> json \<Rightarrow> string \<times> bool" where
  "decode_struct field v =
     (case v of JObj mems \<Rightarrow> foldl (decode_member field) ([], False) mems | JNull \<Rightarrow> ([], False) | _ \<Rightarrow> ([], True))"

text \<open>\<open>json.NewDecoder(body).Decode(&v)\<close>: the first value of the stream; what follows is not read.\<close>

definition Decode_field :: "string \<Rightarrow> string \<Rightarrow> string option" where
  "Decode_field field body =
     (case parse_value max_depth body of
        None \<Rightarrow> None
      | Some (v, _) \<Rightarrow> (case decode_struct field v of (t, bad) \<Rightarrow> if bad then None else Some t))"

section \<open>The encoder and the reader agree on strings\<close>

text \<open>
  The tokens that decoding produces: an ASCII byte, a bad byte, or a longer sequence that decodes to
  the same code point whatever follows it.
\<close>

definition tok_ok :: "tok \<Rightarrow> bool" where
  "tok_ok t = (case t of (r, bs) \<Rightarrow>
     r < 128 \<and> bs = [char_of r]
     \<or> r = RuneError \<and> length bs = 1
     \<or> 128 \<le> r \<and> 2 \<le> length bs \<and> 128 \<le> byte (hd bs) \<and> (\<forall>rest. DecodeRune (bs @ rest) = (r, length bs)))"

lemma byte_less [simp]: "byte c < 256"
  by (simp add: byte_def)

lemma char_of_byteD: "byte c = n \<Longrightarrow> c = char_of n"
  by (auto simp: byte_def)

lemma EncodeRune_RuneError: "EncodeRune RuneError = [CHR 0xEF, CHR 0xBF, CHR 0xBD]"
  by (simp add: EncodeRune_def RuneError_def) code_simp

text \<open>\<open>DecodeRune\<close> by the range of the first byte.\<close>

definition lo3 :: "char \<Rightarrow> nat" where "lo3 c = (if byte c = 224 then 160 else 128)"
definition hi3 :: "char \<Rightarrow> nat" where "hi3 c = (if byte c = 237 then 159 else 191)"
definition lo4 :: "char \<Rightarrow> nat" where "lo4 c = (if byte c = 240 then 144 else 128)"
definition hi4 :: "char \<Rightarrow> nat" where "hi4 c = (if byte c = 244 then 143 else 191)"

lemma decode1: "byte c < 128 \<Longrightarrow> DecodeRune (c # cs) = (byte c, 1)"
  by (simp add: DecodeRune_def)

lemma decode2:
  "194 \<le> byte c \<Longrightarrow> byte c \<le> 223 \<Longrightarrow> DecodeRune (c # cs) = (case cs of
     c1 # _ \<Rightarrow> if cont 128 191 c1 then ((byte c - 192) * 64 + (byte c1 - 128), 2) else (RuneError, 1)
   | [] \<Rightarrow> (RuneError, 1))"
  by (simp add: DecodeRune_def)

lemma decode3:
  assumes "224 \<le> byte c" "byte c \<le> 239"
  shows "DecodeRune (c # cs) = (case cs of
     c1 # c2 # _ \<Rightarrow> if cont (lo3 c) (hi3 c) c1 \<and> cont 128 191 c2
       then ((byte c - 224) * 4096 + (byte c1 - 128) * 64 + (byte c2 - 128), 3) else (RuneError, 1)
   | _ \<Rightarrow> (RuneError, 1))"
proof -
  have "\<not> byte c < 128" "\<not> (194 \<le> byte c \<and> byte c \<le> 223)" using assms by simp_all
  then show ?thesis
    unfolding DecodeRune_def list.case Let_def lo3_def hi3_def by (simp only: assms if_False if_True simp_thms)
qed

lemma decode4:
  assumes "240 \<le> byte c" "byte c \<le> 244"
  shows "DecodeRune (c # cs) = (case cs of
     c1 # c2 # c3 # _ \<Rightarrow> if cont (lo4 c) (hi4 c) c1 \<and> cont 128 191 c2 \<and> cont 128 191 c3
       then ((byte c - 240) * 262144 + (byte c1 - 128) * 4096 + (byte c2 - 128) * 64 + (byte c3 - 128), 4)
       else (RuneError, 1)
   | _ \<Rightarrow> (RuneError, 1))"
proof -
  have "\<not> byte c < 128" "\<not> (194 \<le> byte c \<and> byte c \<le> 223)" "\<not> (224 \<le> byte c \<and> byte c \<le> 239)"
    using assms by simp_all
  then show ?thesis
    unfolding DecodeRune_def list.case Let_def lo4_def hi4_def by (simp only: assms if_False if_True simp_thms)
qed

lemma decode_bad:
  assumes "\<not> byte c < 128" "\<not> (194 \<le> byte c \<and> byte c \<le> 223)" "\<not> (224 \<le> byte c \<and> byte c \<le> 239)"
    "\<not> (240 \<le> byte c \<and> byte c \<le> 244)"
  shows "DecodeRune (c # cs) = (RuneError, 1)"
  by (simp only: DecodeRune_def list.case Let_def assms if_False)

lemma five_cases:
  assumes "A \<Longrightarrow> P" "B \<Longrightarrow> P" "C \<Longrightarrow> P" "D \<Longrightarrow> P" "\<not> A \<Longrightarrow> \<not> B \<Longrightarrow> \<not> C \<Longrightarrow> \<not> D \<Longrightarrow> P"
  shows P
  using assms by blast

lemma decode2_cases:
  assumes d: "DecodeRune (c # cs) = (r, n)" and c: "194 \<le> byte c" "byte c \<le> 223"
  obtains (bad) "r = RuneError" "n = 1"
  | (good) c1 x where "cs = c1 # x" "cont 128 191 c1"
      "r = (byte c - 192) * 64 + (byte c1 - 128)" "n = 2"
proof (cases "\<exists>c1 x. cs = c1 # x \<and> cont 128 191 c1")
  case True
  then obtain c1 x where x: "cs = c1 # x" "cont 128 191 c1" by blast
  have "DecodeRune (c # cs) = ((byte c - 192) * 64 + (byte c1 - 128), 2)"
    using c by (simp only: x decode2 list.case simp_thms if_True)
  with d have "r = fst ((byte c - 192) * 64 + (byte c1 - 128), 2)" "n = 2"
    by (simp_all only: prod.inject fst_conv)
  with x show thesis by (intro good) (simp_all only: fst_conv)
next
  case False
  have "DecodeRune (c # cs) = (RuneError, 1)"
    unfolding decode2 [OF c] using False by (auto split: list.split)
  with d bad show thesis by simp
qed

lemma decode3_cases:
  assumes d: "DecodeRune (c # cs) = (r, n)" and c: "224 \<le> byte c" "byte c \<le> 239"
  obtains (bad) "r = RuneError" "n = 1"
  | (good) c1 c2 x where "cs = c1 # c2 # x" "cont (lo3 c) (hi3 c) c1" "cont 128 191 c2"
      "r = (byte c - 224) * 4096 + (byte c1 - 128) * 64 + (byte c2 - 128)" "n = 3"
proof (cases "\<exists>c1 c2 x. cs = c1 # c2 # x \<and> cont (lo3 c) (hi3 c) c1 \<and> cont 128 191 c2")
  case True
  then obtain c1 c2 x where x: "cs = c1 # c2 # x" "cont (lo3 c) (hi3 c) c1" "cont 128 191 c2" by blast
  have "DecodeRune (c # cs) = ((byte c - 224) * 4096 + (byte c1 - 128) * 64 + (byte c2 - 128), 3)"
    using c by (simp only: x decode3 list.case simp_thms if_True)
  with d have "r = fst ((byte c - 224) * 4096 + (byte c1 - 128) * 64 + (byte c2 - 128), 3)" "n = 3"
    by (simp_all only: prod.inject fst_conv)
  with x show thesis by (intro good) (simp_all only: fst_conv)
next
  case False
  have "DecodeRune (c # cs) = (RuneError, 1)"
    unfolding decode3 [OF c] using False by (auto split: list.split)
  with d bad show thesis by simp
qed

lemma decode4_cases:
  assumes d: "DecodeRune (c # cs) = (r, n)" and c: "240 \<le> byte c" "byte c \<le> 244"
  obtains (bad) "r = RuneError" "n = 1"
  | (good) c1 c2 c3 x where "cs = c1 # c2 # c3 # x" "cont (lo4 c) (hi4 c) c1" "cont 128 191 c2" "cont 128 191 c3"
      "r = (byte c - 240) * 262144 + (byte c1 - 128) * 4096 + (byte c2 - 128) * 64 + (byte c3 - 128)" "n = 4"
proof (cases "\<exists>c1 c2 c3 x. cs = c1 # c2 # c3 # x \<and> cont (lo4 c) (hi4 c) c1 \<and> cont 128 191 c2 \<and> cont 128 191 c3")
  case True
  then obtain c1 c2 c3 x where x: "cs = c1 # c2 # c3 # x" "cont (lo4 c) (hi4 c) c1" "cont 128 191 c2" "cont 128 191 c3" by blast
  have "DecodeRune (c # cs) = ((byte c - 240) * 262144 + (byte c1 - 128) * 4096 + (byte c2 - 128) * 64 + (byte c3 - 128), 4)"
    using c by (simp only: x decode4 list.case simp_thms if_True)
  with d have "r = fst ((byte c - 240) * 262144 + (byte c1 - 128) * 4096 + (byte c2 - 128) * 64 + (byte c3 - 128), 4)" "n = 4"
    by (simp_all only: prod.inject fst_conv)
  with x show thesis by (intro good) (simp_all only: fst_conv)
next
  case False
  have "DecodeRune (c # cs) = (RuneError, 1)"
    unfolding decode4 [OF c] using False by (auto split: list.split)
  with d bad show thesis by simp
qed

lemma DecodeRune_cases:
  assumes "DecodeRune (c # cs) = (r, n)"
  obtains (ascii) "byte c < 128" "r = byte c" "n = 1"
  | (bad) "r = RuneError" "n = 1" "128 \<le> byte c"
  | (two) c1 x where "cs = c1 # x" "194 \<le> byte c" "byte c \<le> 223" "cont 128 191 c1"
      "r = (byte c - 192) * 64 + (byte c1 - 128)" "n = 2"
  | (three) c1 c2 x where "cs = c1 # c2 # x" "224 \<le> byte c" "byte c \<le> 239" "cont (lo3 c) (hi3 c) c1" "cont 128 191 c2"
      "r = (byte c - 224) * 4096 + (byte c1 - 128) * 64 + (byte c2 - 128)" "n = 3"
  | (four) c1 c2 c3 x where "cs = c1 # c2 # c3 # x" "240 \<le> byte c" "byte c \<le> 244" "cont (lo4 c) (hi4 c) c1"
      "cont 128 191 c2" "cont 128 191 c3"
      "r = (byte c - 240) * 262144 + (byte c1 - 128) * 4096 + (byte c2 - 128) * 64 + (byte c3 - 128)" "n = 4"
proof (cases rule: five_cases [of "byte c < 128" thesis "194 \<le> byte c \<and> byte c \<le> 223" "224 \<le> byte c \<and> byte c \<le> 239"
      "240 \<le> byte c \<and> byte c \<le> 244"])
  case 1
  have "(byte c, 1) = (r, n)" using assms unfolding decode1 [OF 1] .
  then show thesis by (intro ascii 1) (simp_all only: prod.inject)
next
  case 2
  then have "128 \<le> byte c" by simp
  with decode2_cases [OF assms conjunct1 [OF 2] conjunct2 [OF 2]] 2 bad two show thesis by metis
next
  case 3
  then have "128 \<le> byte c" by simp
  with decode3_cases [OF assms conjunct1 [OF 3] conjunct2 [OF 3]] 3 bad three show thesis by metis
next
  case 4
  then have "128 \<le> byte c" by simp
  with decode4_cases [OF assms conjunct1 [OF 4] conjunct2 [OF 4]] 4 bad four show thesis by metis
next
  case 5
  then have "DecodeRune (c # cs) = (RuneError, 1)" by (rule decode_bad)
  with assms bad 5(1) show thesis by simp
qed

lemma four_large:
  assumes "240 \<le> byte c" "cont (lo4 c) hi c1"
    and "r = (byte c - 240) * 262144 + (byte c1 - 128) * 4096 + (byte c2 - 128) * 64 + (byte c3 - 128)"
  shows "65536 \<le> r"
proof (cases "byte c = 240")
  case True
  then have "16 * 4096 \<le> (byte c1 - 128) * 4096" using assms(2) by (intro mult_le_mono1) (auto simp: cont_def lo4_def)
  then show ?thesis unfolding assms(3) by linarith
next
  case False
  then have "1 * 262144 \<le> (byte c - 240) * 262144" using assms(1) by (intro mult_le_mono1) simp
  then show ?thesis unfolding assms(3) by linarith
qed

lemma DecodeRune_tok:
  assumes "DecodeRune (c # cs) = (r, n)"
  shows "tok_ok (r, take (max 1 n) (c # cs))"
  using assms
proof (cases rule: DecodeRune_cases)
  case ascii
  then show ?thesis by (simp add: tok_ok_def byte_def)
next
  case bad
  then show ?thesis by (simp add: tok_ok_def)
next
  case (two c1 x)
  then have "DecodeRune ((c # [c1]) @ rest) = (r, 2)" for rest by (simp add: decode2)
  moreover have "128 \<le> r"
    unfolding two(5) using two(2) mult_le_mono1 [of 2 "byte c - 192" 64] by linarith
  ultimately show ?thesis using two by (simp add: tok_ok_def)
next
  case (three c1 c2 x)
  then have "DecodeRune ((c # [c1, c2]) @ rest) = (r, 3)" for rest by (simp add: decode3)
  moreover have "128 \<le> r"
  proof (cases "byte c = 224")
    case True
    then have "32 \<le> byte c1 - 128" using three(4) by (auto simp: cont_def lo3_def)
    then have "32 * 64 \<le> (byte c1 - 128) * 64" by (rule mult_le_mono1)
    then show ?thesis unfolding three(6) by linarith
  next
    case False
    then have "1 * 4096 \<le> (byte c - 224) * 4096" using three(2) by (intro mult_le_mono1) simp
    then show ?thesis unfolding three(6) by linarith
  qed
  ultimately show ?thesis using three by (simp add: tok_ok_def)
next
  case (four c1 c2 c3 x)
  then have "DecodeRune ((c # [c1, c2, c3]) @ rest) = (r, 4)" for rest by (simp add: decode4)
  moreover have "65536 \<le> r" using four_large [OF four(2,4,7)] .
  then have "128 \<le> r" by simp
  moreover have "take (max 1 n) (c # cs) = [c, c1, c2, c3]" unfolding four(1,8) by simp
  ultimately show ?thesis using four(2) by (simp add: tok_ok_def)
qed

lemma runes_ok: "list_all tok_ok (runes s)"
proof (induction s rule: runes.induct)
  case (2 c cs)
  obtain r n where d: "DecodeRune (c # cs) = (r, n)" by fastforce
  with DecodeRune_tok [OF d] 2 show ?case by (simp add: Let_def)
qed simp

lemma hex_val_hex_char:
  assumes "n < 16"
  shows "hex_val (hex_char n) = Some n"
proof -
  have "n \<in> {0, 1, 2, 3, 4, 5, 6, 7, 8, 9, 10, 11, 12, 13, 14, 15}" using assms by simp arith
  then show ?thesis by (auto simp: hex_val_def hex_char_def byte_def Let_def)
qed

declare read_string.simps [simp del]

lemma read_plain:
  "c \<noteq> dquote \<Longrightarrow> c \<noteq> bslash \<Longrightarrow> \<not> byte c < 32 \<Longrightarrow> DecodeRune (c # cs) = (r, n) \<Longrightarrow> 0 < n \<Longrightarrow>
     read_string (c # cs) = map_option (apfst (\<lambda>t. valid_tok (r, take n (c # cs)) @ t)) (read_string (drop n (c # cs)))"
  by (simp add: read_string.simps max_def)

lemma bslash_dquote [simp]: "bslash \<noteq> dquote"
  by (simp add: bslash_def dquote_def)

lemma read_simple:
  "simple_escape e = Some x \<Longrightarrow> read_string (bslash # e # r) = map_option (apfst (\<lambda>t. x # t)) (read_string r)"
  by (simp add: read_string.simps)

lemma hex_digits:
  fixes n :: nat
  shows "n div 4096 * 4096 + n div 256 mod 16 * 256 + n div 16 mod 16 * 16 + n mod 16 = n"
proof -
  have d: "n div 256 = n div 16 div 16" "n div 4096 = n div 16 div 16 div 16"
    by (simp_all flip: div_mult2_eq)
  have "x div 16 * 16 + x mod 16 = x" for x :: nat by simp
  from this [of n] this [of "n div 16"] this [of "n div 16 div 16"] show ?thesis
    unfolding d by linarith
qed

lemma hex4_u_escape:
  "n < 65536 \<Longrightarrow> hex4 (drop 2 (u_escape n) @ rest) = Some (n, rest)"
  using hex_digits [of n] by (simp add: u_escape_def hex_val_hex_char)

lemma after_u_plain: "\<not> (55296 \<le> n \<and> n < 57344) \<Longrightarrow> after_u n r = (EncodeRune n, r)"
  unfolding after_u_def by (simp only: if_False)

lemma read_u_escape:
  assumes "n < 65536" "\<not> (55296 \<le> n \<and> n < 57344)"
  shows "read_string (u_escape n @ rest) = map_option (apfst (\<lambda>t. EncodeRune n @ t)) (read_string rest)"
proof -
  have u: "u_escape n @ rest = bslash # CHR ''u'' # (drop 2 (u_escape n) @ rest)"
    by (simp add: u_escape_def)
  show ?thesis
    unfolding u using hex4_u_escape [OF assms(1), of rest] after_u_plain [OF assms(2)]
    by (simp add: read_string.simps simple_escape_def dquote_def bslash_def del: hex4.simps)
qed

lemma tok_8232:
  assumes "tok_ok (r, bs)" "r = 8232 \<or> r = 8233"
  shows "EncodeRune r = bs"
proof -
  have d: "DecodeRune (bs @ rest) = (r, length bs)" "bs \<noteq> []" for rest
    using assms by (auto simp: tok_ok_def RuneError_def)
  obtain c cs where bs: "bs = c # cs" using d(2) by (cases bs) auto
  have "DecodeRune (c # cs) = (r, length bs)" using d(1) [of "[]"] bs by simp
  then show ?thesis
  proof (cases rule: DecodeRune_cases)
    case (three c1 c2 x)
    have e: "byte c1 - 128 < 64" "byte c2 - 128 < 64"
      using three(4,5) by (auto simp: cont_def lo3_def hi3_def split: if_splits)
    have r: "r = (byte c - 224) * 4096 + (byte c1 - 128) * 64 + (byte c2 - 128)" by (rule three)
    have A: "byte c - 224 = 2" using r e assms(2) by linarith
    then have B: "byte c1 - 128 = 0" using r e assms(2) by linarith
    have "byte c2 - 128 = r - 8192" using r A B by linarith
    note ABC = A B this
    have "x = []" using bs three(1,7) by simp
    with ABC have "bs = [char_of (226 :: nat), char_of (128 :: nat), char_of (r - 8064)]"
      using bs three e assms(2)
      by (auto simp: cont_def lo3_def split: if_splits intro: char_of_byteD)
    with assms(2) show ?thesis by (auto simp: EncodeRune_def)
  next
    case (two c1 x)
    then have "(byte c - 192) * 64 \<le> 31 * 64" by (intro mult_le_mono1) simp
    moreover have "byte c1 - 128 \<le> 63" using two(4) by (auto simp: cont_def)
    ultimately have "r < 2048" unfolding two(5) by linarith
    with assms(2) show ?thesis by auto
  next
    case (four c1 c2 c3 x)
    from four_large [OF four(2,4,7)] assms(2) show ?thesis by auto
  qed (use assms in \<open>auto simp: RuneError_def\<close>)
qed

lemma byte_34: "byte (CHR 0x22) = 34"
  by (simp add: byte_def)

lemma byte_92: "byte (CHR 0x5C) = 92"
  by (simp add: byte_def)

lemma char_of_34: "char_of (34 :: nat) = CHR 0x22"
  by code_simp

lemma char_of_92: "char_of (92 :: nat) = CHR 0x5C"
  by code_simp

text \<open>Reading back one escaped token.\<close>

lemma read_escape_multi:
  assumes "tok_ok (r, bs)" "128 \<le> r" "2 \<le> length bs" "128 \<le> byte (hd bs)"
    and dec: "\<And>rest. DecodeRune (bs @ rest) = (r, length bs)"
  shows "read_string (escape_tok html (r, bs) @ rest) =
           map_option (apfst (\<lambda>u. valid_tok (r, bs) @ u)) (read_string rest)"
proof (cases "r = 8232 \<or> r = 8233")
  case True
  with read_u_escape [of r rest] tok_8232 [of r bs] assms show ?thesis
    by (auto simp: escape_tok_def valid_tok_def RuneError_def)
next
  case False
  obtain c cs where bs: "bs = c # cs" using assms(3) by (cases bs) auto
  have "c \<noteq> dquote" "c \<noteq> bslash" using assms(4) bs by (auto simp: dquote_def bslash_def byte_def)
  moreover have "DecodeRune (c # cs @ rest) = (r, length bs)" using dec [of rest] bs by simp
  ultimately show ?thesis
    using False assms(2-4) bs read_plain [of c "cs @ rest" r "length bs"]
    by (auto simp: escape_tok_def valid_tok_def byte_def)
qed

lemma read_escape_ascii:
  assumes r: "r < 128"
  shows "read_string (escape_tok html (r, [char_of r]) @ rest) =
           map_option (apfst (\<lambda>u. valid_tok (r, [char_of r]) @ u)) (read_string rest)"
proof -
  let ?c = "char_of r :: char"
  have c: "byte ?c = r" using r by (simp add: byte_def)
  have "\<exists>e. escape_tok html (r, [?c]) = [bslash, e] \<and> simple_escape e = Some ?c" if "r \<in> {34, 92, 8, 12, 10, 13, 9}"
    using that
    by (elim insertE emptyE) (simp_all add: escape_tok_def simple_escape_def dquote_def bslash_def char_of_34 char_of_92)
  then consider (simple) e where "escape_tok html (r, [?c]) = [bslash, e]" "simple_escape e = Some ?c"
    | (hex) "escape_tok html (r, [?c]) = u_escape r"
    | (plain) "escape_tok html (r, [?c]) = [?c]" "r \<noteq> 34" "r \<noteq> 92" "32 \<le> r"
    using r unfolding escape_tok_def prod.case by (smt (verit) insert_iff not_less)
  then show ?thesis
  proof cases
    case (simple e)
    then show ?thesis using r by (simp add: read_simple valid_tok_def RuneError_def)
  next
    case hex
    then show ?thesis using r read_u_escape [of r rest] by (simp add: valid_tok_def RuneError_def EncodeRune_def)
  next
    case plain
    have "?c \<noteq> dquote" "?c \<noteq> bslash"
      using plain c unfolding dquote_def bslash_def by (metis byte_34 byte_92)+
    moreover have "DecodeRune (?c # rest) = (r, 1)" using c r by (simp add: DecodeRune_def)
    ultimately show ?thesis
      using plain r c read_plain [of ?c rest r 1] by (simp add: valid_tok_def)
  qed
qed

lemma read_escape_bad:
  assumes "length bs = 1"
  shows "read_string (escape_tok html (RuneError, bs) @ rest) =
           map_option (apfst (\<lambda>u. valid_tok (RuneError, bs) @ u)) (read_string rest)"
proof -
  have "read_string (bslash # ''ufffd'' @ rest) = map_option (apfst (\<lambda>u. EncodeRune RuneError @ u)) (read_string rest)"
    using read_u_escape [of RuneError rest] by (simp add: RuneError_def u_escape_def hex_char_def)
  with assms show ?thesis
    by (simp add: escape_tok_def valid_tok_def EncodeRune_RuneError) (simp add: RuneError_def)
qed

lemma read_escape_tok:
  assumes "tok_ok t"
  shows "read_string (escape_tok html t @ rest) = map_option (apfst (\<lambda>u. valid_tok t @ u)) (read_string rest)"
proof -
  obtain r bs where t: "t = (r, bs)" by (cases t)
  consider (ascii) "r < 128" "bs = [char_of r]" | (bad) "r = RuneError" "length bs = 1"
    | (multi) "128 \<le> r" "2 \<le> length bs" "128 \<le> byte (hd bs)" "\<And>rest. DecodeRune (bs @ rest) = (r, length bs)"
    using assms unfolding t tok_ok_def by auto
  then show ?thesis
    using assms unfolding t by cases (simp_all only: read_escape_ascii read_escape_bad read_escape_multi)
qed

lemma read_encoded:
  "read_string (concat (map (escape_tok html) (runes s)) @ dquote # rest) = Some (valid_text s, rest)"
proof -
  have "list_all tok_ok ts \<Longrightarrow>
    read_string (concat (map (escape_tok html) ts) @ dquote # rest) = Some (concat (map valid_tok ts), rest)" for ts
    by (induction ts) (simp_all add: read_escape_tok read_string.simps(2) [of dquote])
  from this [OF runes_ok] show ?thesis by (simp add: valid_text_def)
qed

lemma scalar_encoded: "scalar (encode_string html s @ rest) = Some (JStr (valid_text s), rest)"
  by (simp add: scalar_def encode_string_def read_encoded)

section \<open>Reading back arrays and objects\<close>

text \<open>The members of objects and the elements of arrays, as the encoder prints them.\<close>

definition encode_field :: "bool \<Rightarrow> string \<Rightarrow> string \<Rightarrow> string" where
  "encode_field html name value = encode_string html name @ '':'' @ value"

definition encode_array :: "string list \<Rightarrow> string" where
  "encode_array vs = ''['' @ Join vs '','' @ '']''"

text \<open>\<open>reads d v w\<close>: the text \<open>v\<close> is read as the value \<open>w\<close>, whether the text ends there or \<open>,\<close>, \<open>]\<close> or \<open>}\<close> follows.\<close>

definition ends :: "string \<Rightarrow> bool" where
  "ends r = (r = [] \<or> (\<exists>c x. r = c # x \<and> (c = CHR '','' \<or> c = CHR '']'' \<or> c = CHR ''}'')))"

definition reads :: "nat \<Rightarrow> string \<Rightarrow> json \<Rightarrow> bool" where
  "reads d v w = (v \<noteq> [] \<and> \<not> ws_json (hd v) \<and> hd v \<noteq> CHR '']'' \<and> (\<forall>r. ends r \<longrightarrow> parse_value d (v @ r) = Some (w, r)))"

lemma ends_simps [simp]: "ends []" "ends (CHR '','' # x)" "ends (CHR '']'' # x)" "ends (CHR ''}'' # x)"
  by (auto simp: ends_def)

lemma skip_Cons: "\<not> ws_json c \<Longrightarrow> skip (c # r) = c # r"
  by (simp add: skip_def)

lemma ws_json_punct [simp]:
  "\<not> ws_json dquote" "\<not> ws_json (CHR ''['')" "\<not> ws_json (CHR '']'')" "\<not> ws_json (CHR ''{'')"
  "\<not> ws_json (CHR ''}'')" "\<not> ws_json (CHR '','')" "\<not> ws_json (CHR '':'')"
  by (simp_all add: ws_json_def byte_def dquote_def)

lemma dquote_punct [simp]: "dquote \<noteq> CHR ''[''" "dquote \<noteq> CHR '']''" "dquote \<noteq> CHR ''{''" "dquote \<noteq> CHR ''}''"
  by (simp_all add: dquote_def)

lemma parse_value_encoded: "parse_value d (encode_string h s @ r) = Some (JStr (valid_text s), r)"
proof -
  obtain x where x: "encode_string h s @ r = dquote # x" by (simp add: encode_string_def)
  have "parse_value d (dquote # x) = scalar (dquote # x)"
    by (simp add: parse_value.simps skip_Cons)
  then show ?thesis using scalar_encoded [of h s r] by (simp add: x)
qed

lemma reads_string: "reads d (encode_string h s) (JStr (valid_text s))"
  unfolding reads_def using parse_value_encoded by (auto simp: encode_string_def)

lemma parse_elems_reads:
  assumes "list_all2 (reads d) (v # vs) ws'"
  shows "parse_elems d (Join (v # vs) '','' @ CHR '']'' # r) = Some (ws', r)"
  using assms
proof (induction vs arbitrary: v ws')
  case Nil
  then obtain w where "reads d v w" "ws' = [w]" by (auto simp: list_all2_Cons1)
  then show ?case by (simp add: parse_elems.simps [of d "v @ _"] reads_def skip_Cons)
next
  case (Cons u us)
  then obtain w us' where w: "reads d v w" "ws' = w # us'" "list_all2 (reads d) (u # us) us'" by (auto simp: list_all2_Cons1)
  have "parse_value d (v @ CHR '','' # Join (u # us) '','' @ CHR '']'' # r) = Some (w, CHR '','' # Join (u # us) '','' @ CHR '']'' # r)"
    using w(1) by (simp add: reads_def)
  then show ?case
    using Cons.IH [OF w(3)] w(2) by (simp add: parse_elems.simps [of d "v @ _"] skip_Cons)
qed

lemma reads_array:
  assumes "list_all2 (reads d) vs ws'"
  shows "reads (Suc d) (encode_array vs) (JArr ws')"
proof (cases vs)
  case Nil
  with assms show ?thesis by (simp add: reads_def encode_array_def parse_value.simps skip_Cons)
next
  case (Cons v us)
  obtain w where v: "reads d v w" using assms Cons by (auto simp: list_all2_Cons1)
  obtain c v' where c: "v = c # v'" "\<not> ws_json c" "c \<noteq> CHR '']''" using v by (cases v) (auto simp: reads_def)
  have j: "\<exists>x. Join (v # us) '','' @ y = c # x" for y unfolding c(1) by (cases us) auto
  have sk: "skip (Join (v # us) '','' @ y) = Join (v # us) '','' @ y" "Join (v # us) '','' @ y \<noteq> []"
      "hd (Join (v # us) '','' @ y) \<noteq> CHR '']''" for y
    using j [of y] c by (auto simp: skip_Cons)
  show ?thesis
    using assms parse_elems_reads [of d v us ws'] Cons sk
    by (simp add: reads_def encode_array_def parse_value.simps skip_Cons)
qed

text \<open>One member with a value that reads back, followed by a comma or by the end of the object.\<close>

lemma encode_field_text:
  "encode_field h k v @ r = dquote # (concat (map (escape_tok h) (runes k)) @ dquote # (CHR '':'' # (v @ r)))"
  by (simp add: encode_field_def encode_string_def)

lemma parse_member_next:
  assumes "reads d v w" "parse_members d r = Some (mems, r')"
  shows "parse_members d (encode_field h k v @ CHR '','' # r) = Some ((valid_text k, w) # mems, r')"
  using assms by (simp add: encode_field_text parse_members.simps [of d "dquote # _"] skip_Cons read_encoded reads_def)

lemma parse_member_last:
  assumes "reads d v w"
  shows "parse_members d (encode_field h k v @ CHR ''}'' # r) = Some ([(valid_text k, w)], r)"
  using assms by (simp add: encode_field_text parse_members.simps [of d "dquote # _"] skip_Cons read_encoded reads_def)

text \<open>An object from its members.\<close>

definition encode_object :: "bool \<Rightarrow> (string \<times> string) list \<Rightarrow> string" where
  "encode_object h ms' = ''{'' @ Join (map (\<lambda>(k, v). encode_field h k v) ms') '','' @ ''}''"

lemma parse_members_reads:
  assumes "list_all2 (\<lambda>(k, v) (k', w). k' = valid_text k \<and> reads d v w) (m # mems) ws'"
  shows "parse_members d (Join (map (\<lambda>(k, v). encode_field h k v) (m # mems)) '','' @ CHR ''}'' # r) = Some (ws', r)"
  using assms
proof (induction mems arbitrary: m ws')
  case Nil
  then show ?case by (auto simp: list_all2_Cons1 parse_member_last split: prod.splits)
next
  case (Cons n mems)
  from Cons.prems obtain k v w us' where w: "m = (k, v)" "ws' = (valid_text k, w) # us'" "reads d v w"
      "list_all2 (\<lambda>(k, v) (k', w). k' = valid_text k \<and> reads d v w) (n # mems) us'"
    by (auto simp: list_all2_Cons1 split: prod.splits)
  show ?case using parse_member_next [OF w(3) Cons.IH [OF w(4)]] w(1,2) by simp
qed

lemma parse_object_reads:
  assumes "list_all2 (\<lambda>(k, v) (k', w). k' = valid_text k \<and> reads d v w) (m # mems) ws'"
  shows "parse_value (Suc d) (encode_object h (m # mems) @ r) = Some (JObj ws', r)"
proof -
  obtain k v where m: "m = (k, v)" by (cases m)
  have j: "\<exists>x. Join (map (\<lambda>(k, v). encode_field h k v) (m # mems)) '','' @ y = dquote # x" for y
    unfolding m by (cases mems) (simp_all add: encode_field_def encode_string_def)
  have sk: "skip (Join (map (\<lambda>(k, v). encode_field h k v) (m # mems)) '','' @ y) = Join (map (\<lambda>(k, v). encode_field h k v) (m # mems)) '','' @ y"
     "Join (map (\<lambda>(k, v). encode_field h k v) (m # mems)) '','' @ y \<noteq> []"
      "hd (Join (map (\<lambda>(k, v). encode_field h k v) (m # mems)) '','' @ y) \<noteq> CHR ''}''" for y
    using j [of y] by (auto simp: skip_Cons)
  show ?thesis
    using parse_members_reads [OF assms, of h r] sk
    by (simp add: encode_object_def parse_value.simps skip_Cons del: list.map)
qed

lemma reads_object:
  "list_all2 (\<lambda>(k, v) (k', w). k' = valid_text k \<and> reads d v w) (m # mems) ws' \<Longrightarrow>
     reads (Suc d) (encode_object h (m # mems)) (JObj ws')"
  unfolding reads_def [of "Suc d"]
  by (intro conjI allI impI, simp_all only: parse_object_reads) (simp_all add: encode_object_def)

lemma valid_text_ascii: "list_all (\<lambda>c. byte c < 128) s \<Longrightarrow> valid_text s = s"
proof (induction s)
  case (Cons c s)
  then have "runes (c # s) = (byte c, [c]) # runes s" by (simp add: decode1)
  with Cons show ?case by (simp add: valid_text_def valid_tok_def RuneError_def)
qed (simp add: valid_text_def)

end
