(* ===== verification/Go_Sha256.thy ===== *)
theory Go_Sha256
  imports Go_Json "HOL-Library.Word"
begin

text \<open>
  SHA-256 as \<open>crypto/sha256.Sum256\<close> computes it, on 32-bit words whose addition wraps, and the
  hexadecimal print \<open>%x\<close> of a digest.
\<close>

unbundle bit_operations_syntax

type_synonym w32 = "32 word"

definition rotr :: "nat \<Rightarrow> w32 \<Rightarrow> w32" where
  "rotr n x = drop_bit n x OR push_bit (32 - n) x"

definition sha_h0 :: "w32 list" where
  "sha_h0 = [1779033703, 3144134277, 1013904242, 2773480762, 1359893119, 2600822924, 528734635, 1541459225]"

definition sha_k :: "w32 list" where
  "sha_k =
    [1116352408, 1899447441, 3049323471, 3921009573, 961987163, 1508970993, 2453635748, 2870763221,
     3624381080, 310598401, 607225278, 1426881987, 1925078388, 2162078206, 2614888103, 3248222580,
     3835390401, 4022224774, 264347078, 604807628, 770255983, 1249150122, 1555081692, 1996064986,
     2554220882, 2821834349, 2952996808, 3210313671, 3336571891, 3584528711, 113926993, 338241895,
     666307205, 773529912, 1294757372, 1396182291, 1695183700, 1986661051, 2177026350, 2456956037,
     2730485921, 2820302411, 3259730800, 3345764771, 3516065817, 3600352804, 4094571909, 275423344,
     430227734, 506948616, 659060556, 883997877, 958139571, 1322822218, 1537002063, 1747873779,
     1955562222, 2024104815, 2227730452, 2361852424, 2428436474, 2756734187, 3204031479, 3329325298]"

text \<open>Padding: the byte \<open>0x80\<close>, zeros, and the length in bits as eight bytes, big end first.\<close>

definition be_bytes :: "nat \<Rightarrow> 'a :: len word \<Rightarrow> nat list" where
  "be_bytes k x = map (\<lambda>i. unat (take_bit 8 (drop_bit (8 * (k - 1 - i)) x))) [0..<k]"

definition sha_pad :: "nat list \<Rightarrow> nat list" where
  "sha_pad m = m @ [128] @ replicate ((119 - length m mod 64) mod 64) 0 @ be_bytes 8 (8 * of_nat (length m) :: 64 word)"

definition be_word :: "nat list \<Rightarrow> w32" where
  "be_word bs = foldl (\<lambda>a b. push_bit 8 a OR of_nat b) 0 bs"

fun chunks :: "nat \<Rightarrow> 'a list \<Rightarrow> 'a list list" where
  "chunks n xs = (if n = 0 \<or> xs = [] then [] else take n xs # chunks n (drop n xs))"

declare chunks.simps [simp del]

text \<open>The message schedule, kept with the newest word first.\<close>

definition sha_next :: "w32 list \<Rightarrow> w32" where
  "sha_next w =
     (let w15 = w ! 14; w2 = w ! 1;
          s0 = rotr 7 w15 XOR rotr 18 w15 XOR drop_bit 3 w15;
          s1 = rotr 17 w2 XOR rotr 19 w2 XOR drop_bit 10 w2
      in w ! 15 + s0 + w ! 6 + s1)"

fun sha_extend :: "nat \<Rightarrow> w32 list \<Rightarrow> w32 list" where
  "sha_extend 0 w = w"
| "sha_extend (Suc n) w = sha_extend n (sha_next w # w)"

definition sha_schedule :: "nat list \<Rightarrow> w32 list" where
  "sha_schedule block = rev (sha_extend 48 (rev (map be_word (chunks 4 block))))"

type_synonym sha_state = "w32 \<times> w32 \<times> w32 \<times> w32 \<times> w32 \<times> w32 \<times> w32 \<times> w32"

definition sha_round :: "sha_state \<Rightarrow> w32 \<times> w32 \<Rightarrow> sha_state" where
  "sha_round s kw =
     (case s of (a, b, c, d, e, f, g, h) \<Rightarrow>
        let t1 = h + (rotr 6 e XOR rotr 11 e XOR rotr 25 e) + (e AND f XOR NOT e AND g) + fst kw + snd kw;
            t2 = (rotr 2 a XOR rotr 13 a XOR rotr 22 a) + (a AND b XOR a AND c XOR b AND c)
        in (t1 + t2, a, b, c, d + t1, e, f, g))"

definition sha_block :: "sha_state \<Rightarrow> nat list \<Rightarrow> sha_state" where
  "sha_block s block =
     (case (s, foldl sha_round s (zip sha_k (sha_schedule block))) of
        ((a, b, c, d, e, f, g, h), (a', b', c', d', e', f', g', h')) \<Rightarrow>
          (a + a', b + b', c + c', d + d', e + e', f + f', g + g', h + h'))"

definition sha_init :: sha_state where
  "sha_init = (sha_h0 ! 0, sha_h0 ! 1, sha_h0 ! 2, sha_h0 ! 3, sha_h0 ! 4, sha_h0 ! 5, sha_h0 ! 6, sha_h0 ! 7)"

definition Sum256 :: "string \<Rightarrow> nat list" where
  "Sum256 m =
     (case foldl sha_block sha_init (chunks 64 (sha_pad (map byte m))) of
        (a, b, c, d, e, f, g, h) \<Rightarrow> concat (map (\<lambda>x. be_bytes 4 x) [a, b, c, d, e, f, g, h]))"

definition hex_print :: "nat list \<Rightarrow> string" where
  "hex_print bs = concat (map (\<lambda>b. [hex_char (b div 16), hex_char (b mod 16)]) bs)"

section \<open>Length and alphabet of a printed digest\<close>

lemma length_be_bytes [simp]: "length (be_bytes k n) = k"
  by (simp add: be_bytes_def)

lemma be_bytes_range: "b \<in> set (be_bytes k x) \<Longrightarrow> b < 256"
  by (auto simp: be_bytes_def unsigned_take_bit_eq intro: less_le_trans [OF take_bit_nat_less_exp])

lemma length_Sum256 [simp]: "length (Sum256 m) = 32"
  by (simp add: Sum256_def split: prod.split)

lemma Sum256_range: "b \<in> set (Sum256 m) \<Longrightarrow> b < 256"
  by (auto simp: Sum256_def dest: be_bytes_range split: prod.splits)

lemma length_hex_print [simp]: "length (hex_print bs) = 2 * length bs"
  by (induction bs) (simp_all add: hex_print_def)

definition hex_alphabet :: "char set" where
  "hex_alphabet = set ''0123456789abcdef''"

lemma hex_char_digit: "n < 16 \<Longrightarrow> hex_char n \<in> hex_alphabet"
  unfolding hex_char_def hex_alphabet_def by (rule nth_mem) simp

lemma hex_print_digits:
  "(\<And>b. b \<in> set bs \<Longrightarrow> b < 256) \<Longrightarrow> set (hex_print bs) \<subseteq> hex_alphabet"
  by (fastforce simp: hex_print_def intro!: hex_char_digit)

text \<open>Every padded message is a whole number of blocks.\<close>

lemma sha_pad_length: "length (sha_pad m) mod 64 = 0"
proof -
  define r where "r = length m mod 64"
  have r: "r < 64" "length m = length m div 64 * 64 + r" by (simp_all add: r_def)
  have "(length m + (1 + ((119 - r) mod 64 + 8))) mod 64 = (r + (1 + ((119 - r) mod 64 + 8))) mod 64"
    unfolding r_def by (simp add: mod_add_left_eq)
  also have "\<dots> = 0"
  proof (cases "r \<le> 55")
    case True
    then have "(119 - r) mod 64 = 55 - r" using r by (simp add: mod_if)
    with True show ?thesis by simp
  next
    case False
    then have "(119 - r) mod 64 = 119 - r" using r by simp
    with False r show ?thesis by simp
  qed
  finally show ?thesis by (simp add: sha_pad_def r_def)
qed

end
