(* ===== verification/Fingerprint.thy ===== *)
theory Fingerprint
  imports Domain Go_Sha256
begin

text \<open>
  \<open>FindingFingerprint\<close> of \<open>src/internal/domain/provider.go\<close>: the deduplication key of a finding.
  The errors of a finding are JSON; they are decoded into the texts as \<open>json.Unmarshal\<close> does for a
  slice of structs with one field, the sorted texts are printed with the namespace, the kind and the
  parent as JSON, and the key is the printed SHA-256 digest of that payload.
\<close>

section \<open>Decoding the errors\<close>

definition decode_failures :: "json \<Rightarrow> string list option" where
  "decode_failures v =
     (case v of
        JNull \<Rightarrow> Some []
      | JArr vs \<Rightarrow> if list_ex (\<lambda>v. snd (decode_struct ''text'' v)) vs then None
                  else Some (map (\<lambda>v. fst (decode_struct ''text'' v)) vs)
      | _ \<Rightarrow> None)"

definition Unmarshal_texts :: "string \<Rightarrow> string list option" where
  "Unmarshal_texts s = (case parse_json s of None \<Rightarrow> None | Some v \<Rightarrow> decode_failures v)"

text \<open>The texts of a finding; no errors at all are no texts.\<close>

definition error_texts :: "Finding \<Rightarrow> string list option" where
  "error_texts f = (if f_Errors f \<noteq> [] then Unmarshal_texts (f_Errors f) else Some [])"

section \<open>The payload and the key\<close>

definition encode_payload :: "string \<Rightarrow> string \<Rightarrow> string \<Rightarrow> string list \<Rightarrow> string" where
  "encode_payload namespace kind parentObject errorTexts =
     encode_object False
       [(''namespace'', encode_string False namespace),
        (''kind'', encode_string False kind),
        (''parentObject'', encode_string False parentObject),
        (''errorTexts'', encode_array (map (encode_string False) errorTexts))] @ [CHR 0x0A]"

definition payload_of :: "Finding \<Rightarrow> string list \<Rightarrow> string" where
  "payload_of f texts = encode_payload (f_Namespace f) (f_Kind f) (f_ParentObject f) (sort texts)"

definition FindingFingerprint :: "Finding \<Rightarrow> go_error + string" where
  "FindingFingerprint f =
     (case error_texts f of
        None \<Rightarrow> Inl (Wrap ''FindingFingerprint: malformed errors JSON'' (Err ''json.Unmarshal''))
      | Some texts \<Rightarrow> Inr (hex_print (Sum256 (payload_of f texts))))"

section \<open>Lemmas\<close>

lemma hex_print_inj:
  assumes "hex_print xs = hex_print ys" "\<And>b. b \<in> set xs \<Longrightarrow> b < 256" "\<And>b. b \<in> set ys \<Longrightarrow> b < 256"
  shows "xs = ys"
proof -
  have "length xs = length ys" using arg_cong [OF assms(1), of length] by simp
  then show ?thesis using assms
  proof (induction xs ys rule: list_induct2)
    case (Cons x xs y ys)
    have d: "hex_char (x div 16) = hex_char (y div 16)" "hex_char (x mod 16) = hex_char (y mod 16)"
        "hex_print xs = hex_print ys"
      using Cons.prems(1) by (simp_all add: hex_print_def)
    have "x < 256" "y < 256" using Cons.prems(2) [of x] Cons.prems(3) [of y] by simp_all
    then have "x div 16 = y div 16" "x mod 16 = y mod 16"
      using arg_cong [OF d(1), of hex_val] arg_cong [OF d(2), of hex_val] by (simp_all add: hex_val_hex_char)
    then have "x = y" by (metis div_mod_decomp)
    with Cons d(3) show ?case by simp
  qed simp
qed

lemma valid_field_names [simp]:
  "valid_text ''namespace'' = ''namespace''" "valid_text ''kind'' = ''kind''"
  "valid_text ''parentObject'' = ''parentObject''" "valid_text ''errorTexts'' = ''errorTexts''"
  by (simp_all add: valid_text_ascii byte_def)

definition identity_json :: "string \<Rightarrow> string \<Rightarrow> string \<Rightarrow> string list \<Rightarrow> json" where
  "identity_json a b c ts = JObj [(''namespace'', JStr (valid_text a)), (''kind'', JStr (valid_text b)),
     (''parentObject'', JStr (valid_text c)), (''errorTexts'', JArr (map (\<lambda>s. JStr (valid_text s)) ts))]"

lemma payload_parses:
  "parse_json (encode_payload a b c ts) = Some (identity_json a b c ts)"
proof -
  have "list_all2 (reads 9998) (map (encode_string False) ts) (map (\<lambda>s. JStr (valid_text s)) ts)"
    by (simp add: list_all2_conv_all_nth reads_string)
  then have "reads 9999 (encode_array (map (encode_string False) ts)) (JArr (map (\<lambda>s. JStr (valid_text s)) ts))"
    using reads_array [of 9998] by simp
  then have "parse_value 10000 (encode_payload a b c ts) = Some (identity_json a b c ts, [CHR 0x0A])"
    unfolding encode_payload_def identity_json_def
    using parse_object_reads [of 9999] by (simp add: reads_string)
  moreover have "skip [CHR 0x0A] = []" by (simp add: skip_def ws_json_def byte_def)
  ultimately show ?thesis by (simp add: parse_json_def max_depth_def)
qed

lemma identity_json_inject:
  "identity_json a b c ts = identity_json a' b' c' ts' \<longleftrightarrow>
     valid_text a = valid_text a' \<and> valid_text b = valid_text b' \<and> valid_text c = valid_text c'
     \<and> map valid_text ts = map valid_text ts'"
proof -
  have "map (\<lambda>s. JStr (valid_text s)) xs = map (\<lambda>s. JStr (valid_text s)) ys \<longleftrightarrow> map valid_text xs = map valid_text ys" for xs ys
    using inj_map_eq_map [of JStr "map valid_text xs" "map valid_text ys"] by (simp add: inj_def comp_def)
  then show ?thesis by (simp add: identity_json_def)
qed

lemma fingerprint_of_identity:
  assumes "f_Namespace f = f_Namespace g" "f_Kind f = f_Kind g" "f_ParentObject f = f_ParentObject g"
    and "error_texts f = Some xs" "error_texts g = Some ys" "mset xs = mset ys"
  shows "FindingFingerprint f = FindingFingerprint g"
proof -
  have "sort xs = sort ys" using assms(6) by (metis mset_sort properties_for_sort sorted_sort)
  with assms show ?thesis by (simp add: FindingFingerprint_def payload_of_def)
qed

text \<open>Evaluation of the parser on a given text.\<close>

lemmas json_eval = parse_json_def parse_value.simps parse_elems.simps parse_members.simps skip_def ws_json_def
  byte_def dquote_def bslash_def max_depth_def scalar_def read_string.simps DecodeRune_def valid_tok_def RuneError_def
  Unmarshal_texts_def decode_failures_def decode_struct_def decode_member_def selects_def fold_ascii_def upper_def inr_def

section \<open>Properties\<close>

text \<open>
  A fingerprint is always 64 lower-case hexadecimal digits, and computing it fails exactly when
  the errors are non-empty and do not decode into texts: a finding without errors never fails, and
  JSON of the wrong shape fails just as malformed JSON does, for example an object.
\<close>

theorem fingerprint_result:
  "(\<forall>fp. FindingFingerprint f = Inr fp \<longrightarrow> length fp = 64 \<and> set fp \<subseteq> hex_alphabet)
   \<and> ((\<exists>e. FindingFingerprint f = Inl e) \<longleftrightarrow> f_Errors f \<noteq> [] \<and> Unmarshal_texts (f_Errors f) = None)
   \<and> parse_json ''{}'' = Some (JObj []) \<and> Unmarshal_texts ''{}'' = None"
proof (intro conjI allI impI)
  fix fp assume "FindingFingerprint f = Inr fp"
  then obtain texts where fp: "fp = hex_print (Sum256 (payload_of f texts))"
    by (auto simp: FindingFingerprint_def split: option.splits)
  then show "length fp = 64" by simp
  show "set fp \<subseteq> hex_alphabet" unfolding fp by (rule hex_print_digits) (rule Sum256_range)
next
  show "parse_json ''{}'' = Some (JObj [])" "Unmarshal_texts ''{}'' = None" by (simp_all add: json_eval)
qed (auto simp: FindingFingerprint_def error_texts_def split: option.splits)

definition sample_finding :: "string \<Rightarrow> string \<Rightarrow> Finding" where
  "sample_finding name errs = \<lparr>f_Kind = ''Pod'', f_Name = name, f_Namespace = ''default'',
     f_ParentObject = ''Deployment/web'', f_Errors = errs, f_Details = [], f_Severity = SeverityHigh,
     f_ChainDepth = 0, f_NodeName = []\<rparr>"

theorem fingerprint_result_witness:
  "\<exists>fp. FindingFingerprint (sample_finding ''web-1'' []) = Inr fp \<and> length fp = 64"
  using fingerprint_result [of "sample_finding ''web-1'' []"]
  by (simp add: FindingFingerprint_def error_texts_def sample_finding_def)

text \<open>
  The key is insensitive to the order of the error texts and to everything but namespace, kind,
  parent and texts: two findings that agree on these, whatever their names, details, severities and
  nodes, have the same fingerprint.
\<close>

theorem fingerprint_stable:
  assumes "f_Namespace f = f_Namespace g" "f_Kind f = f_Kind g" "f_ParentObject f = f_ParentObject g"
    and "error_texts f = Some xs" "error_texts g = Some ys" "mset xs = mset ys"
  shows "FindingFingerprint f = FindingFingerprint g"
  using assms by (rule fingerprint_of_identity)

definition errors_of :: "string list \<Rightarrow> string" where
  "errors_of ts = ''['' @ Join (map (\<lambda>t. ''{'' @ encode_field False ''text'' (encode_string False t) @ ''}'') ts) '','' @ '']''"

lemma sample_errors:
  "error_texts (sample_finding n (errors_of [''b'', ''a''])) = Some [''b'', ''a'']"
  "error_texts (sample_finding n (errors_of [''a'', ''b''])) = Some [''a'', ''b'']"
  by (simp_all add: error_texts_def sample_finding_def errors_of_def encode_field_def encode_string_def escape_tok_def json_eval)

theorem fingerprint_stable_witness:
  "FindingFingerprint (sample_finding ''web-1'' (errors_of [''b'', ''a''])) =
   FindingFingerprint (sample_finding ''web-2'' (errors_of [''a'', ''b'']))"
  by (rule fingerprint_stable [OF _ _ _ sample_errors]) (simp_all add: sample_finding_def)

text \<open>
  C15. Conversely, two findings with the same fingerprint agree on namespace, kind, parent and the
  sorted texts (up to the replacement of invalid bytes), or the payloads hashed for them are two
  different messages with the same SHA-256 digest: no two findings share a key because of how the
  payload is put together.
\<close>

theorem fingerprint_identifies:
  assumes "FindingFingerprint f = Inr fp" "FindingFingerprint g = Inr fp"
  shows "\<exists>xs ys. error_texts f = Some xs \<and> error_texts g = Some ys
    \<and> (valid_text (f_Namespace f) = valid_text (f_Namespace g) \<and> valid_text (f_Kind f) = valid_text (f_Kind g)
         \<and> valid_text (f_ParentObject f) = valid_text (f_ParentObject g)
         \<and> map valid_text (sort xs) = map valid_text (sort ys)
       \<or> payload_of f xs \<noteq> payload_of g ys \<and> Sum256 (payload_of f xs) = Sum256 (payload_of g ys))"
proof -
  from assms obtain xs ys where t: "error_texts f = Some xs" "error_texts g = Some ys"
    and e: "hex_print (Sum256 (payload_of f xs)) = hex_print (Sum256 (payload_of g ys))"
    by (auto simp: FindingFingerprint_def split: option.splits)
  have "Sum256 (payload_of f xs) = Sum256 (payload_of g ys)"
    by (rule hex_print_inj [OF e Sum256_range Sum256_range])
  moreover have "payload_of f xs = payload_of g ys \<Longrightarrow>
      identity_json (f_Namespace f) (f_Kind f) (f_ParentObject f) (sort xs) =
      identity_json (f_Namespace g) (f_Kind g) (f_ParentObject g) (sort ys)"
    unfolding payload_of_def by (metis option.inject payload_parses)
  ultimately show ?thesis using t by (auto simp: identity_json_inject)
qed

theorem fingerprint_identifies_witness:
  "\<exists>fp. FindingFingerprint (sample_finding ''web-1'' (errors_of [''b'', ''a''])) = Inr fp
    \<and> (\<exists>xs. error_texts (sample_finding ''web-1'' (errors_of [''b'', ''a''])) = Some xs)"
proof -
  let ?f = "sample_finding ''web-1'' (errors_of [''b'', ''a''])"
  obtain fp where "FindingFingerprint ?f = Inr fp" by (simp add: FindingFingerprint_def sample_errors)
  with fingerprint_identifies [OF this this] show ?thesis by blast
qed

end
