(* ===== verification/Source_Provider.thy ===== *)
theory Source_Provider
  imports Config Metrics Bounded_Map Fingerprint
begin

text \<open>
  \<open>src/internal/provider/provider.go\<close>: the reconciler that turns a failing cluster object into a
  \<open>RemediationJob\<close>. \<open>Reconcile\<close> is cut at its early returns into gates; a gate that stops the
  reconcile returns its result, a gate that lets the finding through returns \<open>None\<close>.
  Every client call, clock reading, event and metric is there in the order of the source; only log
  lines are left out.

  The interfaces the reconciler is given are fields of its record: the provider (the read of the
  watched object of an unknown type \<open>'o\<close>, its annotations, \<open>ExtractFinding\<close>), the readiness checker,
  the circuit breaker, the sink closer and the merge checker; \<open>None\<close> is a nil interface.
\<close>

record ('w, 'o) source_reconciler =
  pr_Client :: "'w kube"
  pr_Cfg :: Config
  pr_ProviderName :: string
  pr_Get :: "string \<Rightarrow> string \<Rightarrow> ('w, api_error + 'o) state"
  pr_Annotations :: "'o \<Rightarrow> string \<rightharpoonup> string"
  pr_ExtractFinding :: "'o \<Rightarrow> ('w, go_error + Finding option) state"
  pr_Recorder :: bool
  pr_ReadinessChecker :: "('w, go_error option) state option"
  pr_CircuitBreaker :: "('w, bool \<times> duration) state option"
  pr_SinkCloser :: "(RemediationJob \<Rightarrow> string \<Rightarrow> ('w, go_error option) state) option"
  pr_PRMergeChecker :: "(SinkRef \<Rightarrow> ('w, go_error + bool) state) option"
  pr_range :: range_order

text \<open>The state of a reconciler: besides the world and the trace, its own two mutable fields.\<close>

record 'w psys = "'w sys" +
  firstSeen :: BoundedMap
  initOnce :: bool

type_synonym ('w, 'a) prog = "('w psys, 'a) state"

definition read_map :: "('w, BoundedMap) prog" where
  "read_map = State (\<lambda>s. (firstSeen s, s))"

definition write_map :: "BoundedMap \<Rightarrow> ('w, unit) prog" where
  "write_map m = State (\<lambda>s. ((), s\<lparr>firstSeen := m\<rparr>))"

definition mark_initialised :: "('w, unit) prog" where
  "mark_initialised = State (\<lambda>s. ((), s\<lparr>initOnce := True\<rparr>))"

definition now :: "('w, 'o) source_reconciler \<Rightarrow> ('w, time) prog" where
  "now r = ask (k_now (pr_Client r))"

definition src_event :: "('w, 'o) source_reconciler \<Rightarrow> event_target \<Rightarrow> string \<Rightarrow> string \<Rightarrow> string \<Rightarrow> ('w, unit) prog" where
  "src_event r target type reason msg =
     (if pr_Recorder r then emit (Event target type reason msg) else ret ())"

text \<open>A gate followed by the rest of the function.\<close>

definition unless_done :: "('w, reconcile_result option) prog \<Rightarrow> ('w, reconcile_result) prog \<Rightarrow> ('w, reconcile_result) prog" where
  "unless_done g k = do { x \<leftarrow> g; case x of Some res \<Rightarrow> ret res | None \<Rightarrow> k }"

definition suppressed :: "string \<Rightarrow> reconcile_result \<Rightarrow> ('w, reconcile_result option) prog" where
  "suppressed reason res = do { emit (Metric (RecordSuppressed reason)); ret (Some res) }"

section \<open>The first sightings\<close>

definition initFirstSeen :: "('w, 'o) source_reconciler \<Rightarrow> ('w, unit) prog" where
  "initFirstSeen r = do {
     s \<leftarrow> State_Monad.get;
     if initOnce s then ret ()
     else (let ttl = wrap64 (cfg_StabilisationWindow (pr_Cfg r) * 2);
               ttl = (if ttl = 0 then Hour else ttl)
           in do {
             m \<leftarrow> NewBoundedMap (now r) 1000 ttl 0;
             write_map m;
             mark_initialised
           })
   }"

definition clear_first_seen :: "('w, 'o) source_reconciler \<Rightarrow> ('w, unit) prog" where
  "clear_first_seen r = do { m \<leftarrow> read_map; m' \<leftarrow> Clear (now r) m; write_map m' }"

section \<open>Deleted and healthy objects\<close>

definition refers_to :: "string \<Rightarrow> string \<Rightarrow> RemediationJob \<Rightarrow> bool" where
  "refers_to name ns rjob =
     (rr_Name (sp_SourceResultRef (rj_Spec rjob)) = name \<and> rr_Namespace (sp_SourceResultRef (rj_Spec rjob)) = ns)"

definition cancellable :: "RemediationJobPhase \<Rightarrow> bool" where
  "cancellable phase =
     (phase \<in> {PhasePending, PhaseDispatched, PhaseRunning, PhaseSuppressed, PhaseNone})"

definition close_reason :: "RemediationJob \<Rightarrow> string" where
  "close_reason rjob =
     ''Closing automatically: the underlying issue ('' @ fs_Kind (rj_Finding rjob) @ ''/'' @ fs_Name (rj_Finding rjob)
     @ '' '' @ fs_Namespace (rj_Finding rjob) @ '') has resolved. No manual fix is required.''"

text \<open>The guard \<open>r.Cfg.PRAutoClose && r.SinkCloser != nil\<close>; the error of \<open>Close\<close> is only logged.\<close>

definition auto_closer :: "('w, 'o) source_reconciler \<Rightarrow> (RemediationJob \<Rightarrow> string \<Rightarrow> ('w, go_error option) state) option" where
  "auto_closer r = (if cfg_PRAutoClose (pr_Cfg r) then pr_SinkCloser r else None)"

definition close_sink :: "(RemediationJob \<Rightarrow> string \<Rightarrow> ('w, go_error option) state) \<Rightarrow> RemediationJob \<Rightarrow> ('w, unit) prog" where
  "close_sink closer rjob = do {
     _ \<leftarrow> act (CloseSink rjob (close_reason rjob)) (closer rjob (close_reason rjob));
     ret ()
   }"

definition failed_for_good :: "api_error option \<Rightarrow> bool" where
  "failed_for_good e = (case e of None \<Rightarrow> False | Some err \<Rightarrow> \<not> IsNotFound err)"

text \<open>Cancelling one job: the object after the calls, and the error to report, if any.\<close>

definition cancel_one :: "('w, 'o) source_reconciler \<Rightarrow> RemediationJob \<Rightarrow> ('w, RemediationJob \<times> go_error option) prog" where
  "cancel_one r rjob = do {
     _ \<leftarrow> (case auto_closer r of
            Some closer \<Rightarrow> if rj_SinkURL rjob \<noteq> [] then close_sink closer rjob else ret ()
          | None \<Rightarrow> ret ());
     (rjob', e) \<leftarrow> patch_status (pr_Client r) rjob (set_phase PhaseCancelled rjob);
     if failed_for_good e then ret (rjob', map_option Api e)
     else do {
       d \<leftarrow> delete_rjob (pr_Client r) rjob';
       if failed_for_good d then ret (rjob', map_option Api d)
       else do {
         src_event r (OnRJob rjob') ''Normal'' ''SourceDeleted'' ''Source object deleted; investigation cancelled'';
         ret (rjob', None)
       }
     }
   }"

text \<open>The loop writes through pointers into the list, so it returns the list as it leaves it.\<close>

fun cancel_loop :: "('w, 'o) source_reconciler \<Rightarrow> string \<Rightarrow> string \<Rightarrow> RemediationJob list \<Rightarrow>
    ('w, RemediationJob list \<times> go_error list) prog" where
  "cancel_loop r name ns [] = ret ([], [])"
| "cancel_loop r name ns (rjob # rjobs) =
     (if \<not> refers_to name ns rjob \<or> \<not> cancellable (rj_Phase rjob)
      then do { (js, es) \<leftarrow> cancel_loop r name ns rjobs; ret (rjob # js, es) }
      else do {
        (j, e) \<leftarrow> cancel_one r rjob;
        (js, es) \<leftarrow> cancel_loop r name ns rjobs;
        ret (j # js, (case e of None \<Rightarrow> es | Some err \<Rightarrow> err # es))
      })"

fun autoCloseSucceededSinks :: "(RemediationJob \<Rightarrow> string \<Rightarrow> ('w, go_error option) state) \<Rightarrow> string \<Rightarrow> string \<Rightarrow>
    RemediationJob list \<Rightarrow> ('w, unit) prog" where
  "autoCloseSucceededSinks closer name ns [] = ret ()"
| "autoCloseSucceededSinks closer name ns (rjob # rjobs) = do {
     _ \<leftarrow> (if \<not> refers_to name ns rjob then ret ()
          else if rj_Phase rjob \<noteq> PhaseSucceeded \<or> rj_SinkURL rjob = [] then ret ()
          else close_sink closer rjob);
     autoCloseSucceededSinks closer name ns rjobs
   }"

definition source_deleted :: "('w, 'o) source_reconciler \<Rightarrow> string \<Rightarrow> string \<Rightarrow> ('w, reconcile_result) prog" where
  "source_deleted r name ns = do {
     clear_first_seen r;
     l \<leftarrow> ask (k_list_rjobs (pr_Client r) (cfg_AgentNamespace (pr_Cfg r)) []);
     case l of
       Inl e \<Rightarrow> ret (Done, Some (Api e))
     | Inr rjobs \<Rightarrow> do {
         (rjobs', cancelErrs) \<leftarrow> cancel_loop r name ns rjobs;
         if cancelErrs \<noteq> [] then ret (Done, Some (Wrap ''cancelling RemediationJobs'' (Joined cancelErrs)))
         else do {
           _ \<leftarrow> (case auto_closer r of
                  Some closer \<Rightarrow> autoCloseSucceededSinks closer name ns rjobs'
                | None \<Rightarrow> ret ());
           ret (Done, None)
         }
       }
   }"

definition finding_cleared :: "('w, 'o) source_reconciler \<Rightarrow> string \<Rightarrow> string \<Rightarrow> ('w, reconcile_result) prog" where
  "finding_cleared r name ns = do {
     clear_first_seen r;
     src_event r OnSource ''Normal'' ''FindingCleared'' ''Finding cleared; no active finding on this object'';
     _ \<leftarrow> (case auto_closer r of
            Some closer \<Rightarrow> do {
              l \<leftarrow> ask (k_list_rjobs (pr_Client r) (cfg_AgentNamespace (pr_Cfg r)) []);
              case l of Inr rjobs \<Rightarrow> autoCloseSucceededSinks closer name ns rjobs | Inl _ \<Rightarrow> ret ()
            }
          | None \<Rightarrow> ret ());
     ret (Done, None)
   }"

section \<open>The gates of a finding\<close>

definition text_gate :: "('w, 'o) source_reconciler \<Rightarrow> string \<Rightarrow> ('w, reconcile_result option) prog" where
  "text_gate r text =
     (if DetectInjection text \<and> cfg_InjectionDetectionAction (pr_Cfg r) = ''suppress''
      then suppressed ReasonInjectionDetected (Done, None) else ret None)"

definition namespace_gate :: "('w, 'o) source_reconciler \<Rightarrow> Finding \<Rightarrow> ('w, reconcile_result option) prog" where
  "namespace_gate r f =
     (if f_Namespace f = [] then ret None
      else if cfg_WatchNamespaces (pr_Cfg r) \<noteq> [] \<and> f_Namespace f \<notin> set (cfg_WatchNamespaces (pr_Cfg r))
      then ret (Some (Done, None))
      else if f_Namespace f \<in> set (cfg_ExcludeNamespaces (pr_Cfg r)) then ret (Some (Done, None))
      else do {
        a \<leftarrow> ask (k_get_namespace (pr_Client r) (f_Namespace f));
        case a of
          Inl e \<Rightarrow> ret (if \<not> IsNotFound e
                       then Some (Done, Some (Wrap (''fetching namespace '' @ f_Namespace f) (Api e)))
                       else None)
        | Inr annotations \<Rightarrow> do {
            t \<leftarrow> now r;
            ret (if ShouldSkip annotations t then Some (Done, None) else None)
          }
      })"

definition severity_gate :: "('w, 'o) source_reconciler \<Rightarrow> Finding \<Rightarrow> ('w, reconcile_result option) prog" where
  "severity_gate r f =
     (let minSeverity = (if cfg_MinSeverity (pr_Cfg r) = [] then SeverityLow else cfg_MinSeverity (pr_Cfg r))
      in if \<not> MeetsSeverityThreshold (f_Severity f) minSeverity
         then suppressed ReasonMinSeverity (Done, None) else ret None)"

definition depth_gate :: "('w, 'o) source_reconciler \<Rightarrow> Finding \<Rightarrow> ('w, reconcile_result option) prog" where
  "depth_gate r f =
     (if 0 < f_ChainDepth f
      then (let maxDepth = cfg_SelfRemediationMaxDepth (pr_Cfg r)
            in if maxDepth = 0 \<or> maxDepth < f_ChainDepth f
               then suppressed ReasonSelfRemediationDepth (Done, None)
               else (case pr_CircuitBreaker r of
                       None \<Rightarrow> ret None
                     | Some breaker \<Rightarrow> do {
                         (allowed, remaining) \<leftarrow> ask breaker;
                         if \<not> allowed
                         then do {
                           emit (Metric (RecordSuppressed ReasonCircuitBreaker));
                           emit (Metric RecordCircuitBreakerActivation);
                           ret (Some (RequeueAfter remaining, None))
                         }
                         else ret None
                       }))
      else ret None)"

definition stabilisation_gate :: "('w, 'o) source_reconciler \<Rightarrow> 'o \<Rightarrow> string \<Rightarrow> ('w, reconcile_result option) prog" where
  "stabilisation_gate r obj fp =
     (let priorityCritical = (mget (pr_Annotations r obj) AnnotationPriority = ''critical'');
          window = cfg_StabilisationWindow (pr_Cfg r)
      in if \<not> priorityCritical \<and> window \<noteq> 0
         then do {
           m \<leftarrow> read_map;
           seen \<leftarrow> Get (now r) fp m;
           case seen of
             None \<Rightarrow> do {
               (_, m') \<leftarrow> SetNow (now r) (pr_range r) fp m;
               write_map m';
               suppressed ReasonStabilisationWindow (RequeueAfter window, None)
             }
           | Some first \<Rightarrow> do {
               t \<leftarrow> now r;
               let elapsed = time_sub t first;
               if elapsed < window
               then suppressed ReasonStabilisationWindow (RequeueAfter (wrap64 (window - elapsed)), None)
               else ret None
             }
         }
         else ret None)"

section \<open>Existing jobs with the same fingerprint\<close>

definition duplicate :: "('w, 'o) source_reconciler \<Rightarrow> RemediationJob \<Rightarrow> string \<Rightarrow> ('w, reconcile_result option) prog" where
  "duplicate r rjob suffix = do {
     src_event r OnSource ''Normal'' ''DuplicateFingerprint''
       (''Existing RemediationJob '' @ rj_Name rjob @ '' already covers this finding'' @ suffix);
     suppressed ReasonDuplicate (Done, None)
   }"

definition tombstone_ttl :: "Config \<Rightarrow> duration" where
  "tombstone_ttl cfg =
     (let shortTTL = seconds (cfg_RemediationJobShortTTLSeconds cfg)
      in if shortTTL = 0 then 24 * Hour else shortTTL)"

text \<open>The branch of an unmerged tombstone: suppress within the short retention, else delete it.\<close>

definition tombstone_expiry :: "('w, 'o) source_reconciler \<Rightarrow> RemediationJob \<Rightarrow> ('w, reconcile_result option) prog" where
  "tombstone_expiry r rjob = do {
     fresh \<leftarrow> (case st_CompletedAt (rj_Status rjob) of
                None \<Rightarrow> ret False
              | Some completed \<Rightarrow> do { t \<leftarrow> now r; ret (time_sub t completed < tombstone_ttl (pr_Cfg r)) });
     if fresh then duplicate r rjob '' (within short TTL)''
     else do {
       d \<leftarrow> delete_rjob (pr_Client r) rjob;
       ret (Some (case d of
              Some e \<Rightarrow> if \<not> IsNotFound e then (Done, Some (Wrap ''deleting expired tombstone'' (Api e))) else (Requeue, None)
            | None \<Rightarrow> (Requeue, None)))
     }
   }"

definition succeeded_duplicate :: "('w, 'o) source_reconciler \<Rightarrow> RemediationJob \<Rightarrow> ('w, reconcile_result option) prog" where
  "succeeded_duplicate r rjob =
     (if st_PRMerged (rj_Status rjob) then duplicate r rjob '' (PR merged)''
      else do {
        merged \<leftarrow> (case pr_PRMergeChecker r of
                    None \<Rightarrow> ret False
                  | Some isMerged \<Rightarrow>
                      if rj_SinkURL rjob = [] then ret False
                      else do {
                        m \<leftarrow> ask (isMerged (st_SinkRef (rj_Status rjob)));
                        ret (case m of Inl _ \<Rightarrow> False | Inr b \<Rightarrow> b)
                      });
        if merged
        then do {
          t \<leftarrow> now r;
          (rjob', _) \<leftarrow> patch_status (pr_Client r) rjob
            (rjob\<lparr>rj_Status := (rj_Status rjob)\<lparr>st_PRMerged := True, st_PRMergedAt := Some t\<rparr>\<rparr>);
          duplicate r rjob' '' (PR just merged)''
        }
        else tombstone_expiry r rjob
      })"

fun dedup_loop :: "('w, 'o) source_reconciler \<Rightarrow> string \<Rightarrow> RemediationJob list \<Rightarrow> ('w, reconcile_result option) prog" where
  "dedup_loop r fp [] = ret None"
| "dedup_loop r fp (rjob # rjobs) =
     (if sp_Fingerprint (rj_Spec rjob) \<noteq> fp then dedup_loop r fp rjobs
      else (case rj_Phase rjob of
              PhasePermanentlyFailed \<Rightarrow> do {
                src_event r OnSource ''Warning'' ''RemediationJobPermanentlyFailed''
                  (''RemediationJob '' @ rj_Name rjob @ '' is permanently failed after ''
                   @ itoa (st_RetryCount (rj_Status rjob)) @ '' retries'');
                suppressed ReasonPermanentlyFailed (Done, None)
              }
            | PhaseFailed \<Rightarrow> do {
                d \<leftarrow> delete_rjob (pr_Client r) rjob;
                if failed_for_good d then ret (Some (Done, map_option Api d)) else dedup_loop r fp rjobs
              }
            | PhaseSucceeded \<Rightarrow> succeeded_duplicate r rjob
            | _ \<Rightarrow> duplicate r rjob []))"

definition fingerprint_label :: string where
  "fingerprint_label = ''remediation.mechanic.io/fingerprint''"

definition dedup_gate :: "('w, 'o) source_reconciler \<Rightarrow> string \<Rightarrow> ('w, reconcile_result option) prog" where
  "dedup_gate r fp = do {
     l \<leftarrow> ask (k_list_rjobs (pr_Client r) (cfg_AgentNamespace (pr_Cfg r)) [(fingerprint_label, take 12 fp)]);
     case l of
       Inl e \<Rightarrow> ret (Some (Done, Some (Api e)))
     | Inr rjobs \<Rightarrow> dedup_loop r fp rjobs
   }"

section \<open>Supersession, readiness and creation\<close>

definition watcher_labels :: labels where
  "watcher_labels = [(''app.kubernetes.io/managed-by'', ''mechanic-watcher'')]"

definition supersedes :: "Finding \<Rightarrow> RemediationJob \<Rightarrow> bool" where
  "supersedes f peer =
     (fs_Namespace (rj_Finding peer) = f_Namespace f \<and> fs_ParentObject (rj_Finding peer) = f_ParentObject f
      \<and> KindHierarchyRank (f_Kind f) < KindHierarchyRank (fs_Kind (rj_Finding peer)))"

definition parent_gate :: "('w, 'o) source_reconciler \<Rightarrow> Finding \<Rightarrow> ('w, reconcile_result option) prog" where
  "parent_gate r f =
     (if f_ParentObject f = [] then ret None
      else do {
        l \<leftarrow> ask (k_list_rjobs (pr_Client r) (cfg_AgentNamespace (pr_Cfg r)) watcher_labels);
        case l of
          Inl e \<Rightarrow> ret (Some (Done, Some (Wrap ''parent-hierarchy suppression: listing RemediationJobs'' (Api e))))
        | Inr peers \<Rightarrow>
            if list_ex (supersedes f) peers
            then suppressed ReasonParentHierarchy (RequeueAfter (30 * Second), None)
            else ret None
      })"

definition ReadinessCacheTTL :: duration where
  "ReadinessCacheTTL = 60 * Second"

definition readiness_gate :: "('w, 'o) source_reconciler \<Rightarrow> ('w, reconcile_result option) prog" where
  "readiness_gate r =
     (case pr_ReadinessChecker r of
        None \<Rightarrow> ret None
      | Some check \<Rightarrow> do {
          e \<leftarrow> ask check;
          ret (case e of None \<Rightarrow> None | Some _ \<Rightarrow> Some (RequeueAfter ReadinessCacheTTL, None))
        })"

definition agent_sa :: "Config \<Rightarrow> string" where
  "agent_sa cfg = (if cfg_AgentRBACScope cfg = ''namespace'' then ''mechanic-agent-ns'' else cfg_AgentSA cfg)"

definition new_rjob :: "('w, 'o) source_reconciler \<Rightarrow> string \<Rightarrow> string \<Rightarrow> Finding \<Rightarrow> string \<Rightarrow> RemediationJob" where
  "new_rjob r name ns f fp =
     (let annotations = [''remediation.mechanic.io/fingerprint-full'' \<mapsto> fp];
          annotations = (if f_NodeName f \<noteq> [] then annotations(NodeNameAnnotation \<mapsto> f_NodeName f) else annotations)
      in \<lparr>rj_Meta = zero_meta\<lparr>
            om_Name := ''mechanic-'' @ take 12 fp,
            om_Namespace := cfg_AgentNamespace (pr_Cfg r),
            om_Labels := [fingerprint_label \<mapsto> take 12 fp, ''app.kubernetes.io/managed-by'' \<mapsto> ''mechanic-watcher''],
            om_Annotations := annotations\<rparr>,
          rj_Spec = \<lparr>
            sp_SourceResultRef = \<lparr>rr_Name = name, rr_Namespace = ns\<rparr>,
            sp_Fingerprint = fp,
            sp_SourceType = pr_ProviderName r,
            sp_SinkType = cfg_SinkType (pr_Cfg r),
            sp_Finding = \<lparr>fs_Kind = f_Kind f, fs_Name = f_Name f, fs_Namespace = f_Namespace f,
              fs_ParentObject = f_ParentObject f, fs_Errors = f_Errors f, fs_Details = f_Details f,
              fs_ChainDepth = wrap32 (f_ChainDepth f)\<rparr>,
            sp_GitOpsRepo = cfg_GitOpsRepo (pr_Cfg r),
            sp_GitOpsManifestRoot = cfg_GitOpsManifestRoot (pr_Cfg r),
            sp_AgentImage = cfg_AgentImage (pr_Cfg r),
            sp_AgentSA = agent_sa (pr_Cfg r),
            sp_MaxRetries = cfg_MaxInvestigationRetries (pr_Cfg r),
            sp_Severity = f_Severity f\<rparr>,
          rj_Status = zero_status\<rparr>)"

definition create_rjob :: "('w, 'o) source_reconciler \<Rightarrow> string \<Rightarrow> string \<Rightarrow> Finding \<Rightarrow> string \<Rightarrow> ('w, reconcile_result) prog" where
  "create_rjob r name ns f fp =
     (let rjob = new_rjob r name ns f fp
      in do {
        c \<leftarrow> act (CreateRJob rjob) (k_create_rjob (pr_Client r) rjob);
        case c of
          Some e \<Rightarrow> ret (if IsAlreadyExists e then (Done, None)
                        else (Done, Some (Wrap ''creating RemediationJob'' (Api e))))
        | None \<Rightarrow> do {
            emit (Metric (RecordDispatched (f_Kind f) (f_Severity f)));
            src_event r OnSource ''Normal'' ''FindingDetected''
              (''Provider '' @ pr_ProviderName r @ '' detected '' @ f_Kind f @ ''/'' @ f_Name f
               @ '' in namespace '' @ f_Namespace f);
            ret (Done, None)
          }
      })"

section \<open>Reconcile\<close>

definition admit :: "('w, 'o) source_reconciler \<Rightarrow> string \<Rightarrow> string \<Rightarrow> 'o \<Rightarrow> Finding \<Rightarrow> string \<Rightarrow> ('w, reconcile_result) prog" where
  "admit r name ns obj f fp =
     unless_done (stabilisation_gate r obj fp)
    (unless_done (dedup_gate r fp)
    (unless_done (parent_gate r f)
    (unless_done (readiness_gate r)
    (create_rjob r name ns f fp))))"

definition handle_finding :: "('w, 'o) source_reconciler \<Rightarrow> string \<Rightarrow> string \<Rightarrow> 'o \<Rightarrow> Finding \<Rightarrow> ('w, reconcile_result) prog" where
  "handle_finding r name ns obj f =
     unless_done (text_gate r (f_Errors f))
    (unless_done (text_gate r (f_Details f))
    (unless_done (namespace_gate r f)
    (unless_done (severity_gate r f)
    (unless_done (depth_gate r f)
    (case FindingFingerprint f of
       Inl e \<Rightarrow> ret (Done, Some (Wrap ''computing fingerprint'' e))
     | Inr fp \<Rightarrow>
         if length fp < 12
         then ret (Done, Some (Err (''fingerprint too short: got '' @ itoa (int (length fp)) @ '' chars, need at least 12'')))
         else admit r name ns obj f fp)))))"

definition reconcile_object :: "('w, 'o) source_reconciler \<Rightarrow> string \<Rightarrow> string \<Rightarrow> ('w, reconcile_result) prog" where
  "reconcile_object r name ns = do {
     got \<leftarrow> ask (pr_Get r name ns);
     case got of
       Inl e \<Rightarrow> if \<not> IsNotFound e then ret (Done, Some (Api e)) else source_deleted r name ns
     | Inr obj \<Rightarrow> do {
         f \<leftarrow> ask (pr_ExtractFinding r obj);
         case f of
           Inl e \<Rightarrow> ret (Done, Some e)
         | Inr None \<Rightarrow> finding_cleared r name ns
         | Inr (Some finding) \<Rightarrow> handle_finding r name ns obj finding
       }
   }"

definition Reconcile_source :: "('w, 'o) source_reconciler \<Rightarrow> string \<Rightarrow> string \<Rightarrow> ('w, reconcile_result) prog" where
  "Reconcile_source r name ns = do { initFirstSeen r; reconcile_object r name ns }"

end
