(* ===== verification/Source_Safety.thy ===== *)
theory Source_Safety
  imports Source_Provider
begin

text \<open>
  What the source reconciler of theory \<open>Source_Provider\<close> may and may not do, whatever the API server,
  the clock, the provider and the other interfaces answer: when it creates a \<open>RemediationJob\<close> and
  with which content, how an existing job blocks it, what happens to the jobs and the pull requests
  of a source that is gone, and how long a new finding is held.
\<close>

section \<open>The effects of the building blocks\<close>

lemma wp_psys [wp_simps]:
  "wp read_map Q = (\<lambda>s. Q (firstSeen s) s)"
  "wp (write_map m) R = (\<lambda>s. R () (s\<lparr>firstSeen := m\<rparr>))"
  "wp mark_initialised R = (\<lambda>s. R () (s\<lparr>initOnce := True\<rparr>))"
  "wp (now r) T = (\<lambda>s. \<forall>t w. run_state (k_now (pr_Client r)) (world s) = (t, w) \<longrightarrow> T t (s\<lparr>world := w\<rparr>))"
  by (simp_all add: wp_def read_map_def write_map_def mark_initialised_def now_def ask_def fun_eq_iff split: prod.split)

lemma emits_psys [gives_intros]:
  "emits A (read_map :: ('w, BoundedMap) prog)" "emits A (write_map m :: ('w, unit) prog)" "emits A (now r)"
  "emits A (mark_initialised :: ('w, unit) prog)"
  by (simp_all add: gives_def wp_simps)

lemma gives_src_event [gives_intros]: "A (Event t a b c) \<Longrightarrow> P () \<Longrightarrow> gives A P (src_event r t a b c)"
  by (simp add: src_event_def gives_intros)

lemma gives_suppressed [gives_intros]: "A (Metric (RecordSuppressed x)) \<Longrightarrow> P (Some res) \<Longrightarrow> gives A P (suppressed x res)"
  unfolding suppressed_def by (intro gives_intros) auto

lemma gives_close_sink [gives_intros]: "A (CloseSink j (close_reason j)) \<Longrightarrow> emits A (close_sink closer j)"
  unfolding close_sink_def by (intro gives_intros) auto

lemma gives_unless_done:
  assumes "gives A (\<lambda>x. case x of Some res \<Rightarrow> P res | None \<Rightarrow> True) g" "gives A P k"
  shows "gives A P (unless_done g k)"
  unfolding unless_done_def
  by (rule gives_bind [OF assms(1)]) (auto split: option.splits intro: gives_return assms(2))

text \<open>A gate whose passing establishes \<open>B\<close>: what follows may rely on it.\<close>

lemma gives_gate:
  assumes "gives A (\<lambda>x. x = None \<longrightarrow> B) g" "B \<Longrightarrow> emits A k"
  shows "emits A (unless_done g k)"
  unfolding unless_done_def
  by (rule gives_bind [OF assms(1)]) (auto split: option.splits intro: gives_return assms(2))

lemma emits_unless_done [gives_intros]: "emits A g \<Longrightarrow> emits A k \<Longrightarrow> emits A (unless_done g k)"
  unfolding unless_done_def by (intro gives_intros) auto

lemma emits_map [gives_intros]:
  "emits A (clear_first_seen r)" "emits A (Get (now r) fp m)" "emits A (SetNow (now r) it fp m)"
  "emits A (NewBoundedMap (now r) n t i)"
  unfolding clear_first_seen_def Clear_def Get_def SetNow_def SetWithTime_def needsCleanup_def cleanupIfNeeded_def NewBoundedMap_def
  by (intro gives_intros; simp)+

lemma emits_state [gives_intros]:
  "emits A (State_Monad.get :: ('w, 'w psys) prog)"
  by (simp add: gives_def wp_simps)

lemma emits_init [gives_intros]: "emits A (initFirstSeen r)"
  unfolding initFirstSeen_def Let_def by (intro gives_intros) auto

lemma emits_wp: "emits A m \<Longrightarrow> wp m (\<lambda>_ s'. \<exists>es. trace s' = trace s @ es \<and> (\<forall>e \<in> set es. A e)) s"
  by (simp add: gives_def list_all_iff)

section \<open>Creation\<close>

definition is_create :: "effect \<Rightarrow> bool" where
  "is_create e = (case e of CreateRJob _ \<Rightarrow> True | _ \<Rightarrow> False)"

lemma is_create_simps [simp]:
  "is_create (CreateRJob j)" "\<not> is_create (PatchStatus b n)" "\<not> is_create (DeleteRJob j)" "\<not> is_create (Event t a c d)"
  "\<not> is_create (Metric x)" "\<not> is_create (CloseSink j u)"
  by (simp_all add: is_create_def)

text \<open>What a configuration asks of a finding, as far as it depends on the finding alone.\<close>

definition admissible :: "Config \<Rightarrow> Finding \<Rightarrow> bool" where
  "admissible cfg f =
     ((cfg_InjectionDetectionAction cfg = ''suppress'' \<longrightarrow> \<not> DetectInjection (f_Errors f) \<and> \<not> DetectInjection (f_Details f))
      \<and> (f_Namespace f \<noteq> [] \<longrightarrow> (cfg_WatchNamespaces cfg = [] \<or> f_Namespace f \<in> set (cfg_WatchNamespaces cfg))
           \<and> f_Namespace f \<notin> set (cfg_ExcludeNamespaces cfg))
      \<and> (cfg_MinSeverity cfg \<noteq> [] \<longrightarrow> MeetsSeverityThreshold (f_Severity f) (cfg_MinSeverity cfg))
      \<and> (0 < f_ChainDepth f \<longrightarrow> cfg_SelfRemediationMaxDepth cfg \<noteq> 0 \<and> f_ChainDepth f \<le> cfg_SelfRemediationMaxDepth cfg))"

text \<open>Passing a gate means that its condition holds.\<close>

lemma text_gate_pass:
  "(\<And>m. A (Metric m)) \<Longrightarrow>
     gives A (\<lambda>x. x = None \<longrightarrow> (cfg_InjectionDetectionAction (pr_Cfg r) = ''suppress'' \<longrightarrow> \<not> DetectInjection t)) (text_gate r t)"
  unfolding text_gate_def by (intro gives_intros) auto

lemma namespace_gate_pass:
  "gives A (\<lambda>x. x = None \<longrightarrow> (f_Namespace f \<noteq> [] \<longrightarrow>
       (cfg_WatchNamespaces (pr_Cfg r) = [] \<or> f_Namespace f \<in> set (cfg_WatchNamespaces (pr_Cfg r)))
       \<and> f_Namespace f \<notin> set (cfg_ExcludeNamespaces (pr_Cfg r)))) (namespace_gate r f)"
  unfolding namespace_gate_def by (intro gives_intros) auto

lemma severity_gate_pass:
  "(\<And>m. A (Metric m)) \<Longrightarrow>
     gives A (\<lambda>x. x = None \<longrightarrow> (cfg_MinSeverity (pr_Cfg r) \<noteq> [] \<longrightarrow> MeetsSeverityThreshold (f_Severity f) (cfg_MinSeverity (pr_Cfg r))))
       (severity_gate r f)"
  unfolding severity_gate_def by (intro gives_intros) auto

lemma depth_gate_pass:
  "(\<And>m. A (Metric m)) \<Longrightarrow>
     gives A (\<lambda>x. x = None \<longrightarrow> (0 < f_ChainDepth f \<longrightarrow> cfg_SelfRemediationMaxDepth (pr_Cfg r) \<noteq> 0
       \<and> f_ChainDepth f \<le> cfg_SelfRemediationMaxDepth (pr_Cfg r))) (depth_gate r f)"
  unfolding depth_gate_def by (intro gives_intros) auto

text \<open>The gates before the creation write no job; \<open>A\<close> is any kind of effect that leaves creation open.\<close>

definition upkeep :: "(effect \<Rightarrow> bool) \<Rightarrow> bool" where
  "upkeep A = (\<forall>e. \<not> is_create e \<longrightarrow> A e)"

lemma upkeepD: "upkeep A \<Longrightarrow> \<not> is_create e \<Longrightarrow> A e"
  by (simp add: upkeep_def)

lemma duplicate_emits: "upkeep A \<Longrightarrow> emits A (duplicate r j t)"
  unfolding duplicate_def by (intro gives_intros) (auto simp: upkeepD)

lemma tombstone_expiry_emits: "upkeep A \<Longrightarrow> emits A (tombstone_expiry r j)"
  unfolding tombstone_expiry_def by (intro gives_intros duplicate_emits) (auto simp: upkeepD)

lemma succeeded_duplicate_emits: "upkeep A \<Longrightarrow> emits A (succeeded_duplicate r j)"
  unfolding succeeded_duplicate_def
  by (intro gives_intros duplicate_emits tombstone_expiry_emits) (auto simp: upkeepD)

lemma dedup_loop_emits: "upkeep A \<Longrightarrow> emits A (dedup_loop r fp js)"
proof (induction js)
  case (Cons j js)
  have "emits A (do { d \<leftarrow> delete_rjob (pr_Client r) j;
      if failed_for_good d then ret (Some (Done, map_option Api d)) else dedup_loop r fp js })"
    using Cons by (intro gives_intros) (auto simp: upkeepD)
  moreover have "emits A (do { src_event r OnSource a b c; suppressed d (Done, None) } :: ('a, reconcile_result option) prog)" for a b c d
    using Cons.prems by (intro gives_intros) (auto simp: upkeepD)
  ultimately show ?case
    using Cons duplicate_emits succeeded_duplicate_emits by (auto split: RemediationJobPhase.split)
qed (simp add: gives_return)

lemma gates_emit [gives_intros]:
  assumes "upkeep A"
  shows "emits A (stabilisation_gate r obj fp)" "emits A (dedup_gate r fp)" "emits A (parent_gate r f)" "emits A (readiness_gate r)"
    "emits A (text_gate r t)" "emits A (namespace_gate r f)" "emits A (severity_gate r f)" "emits A (depth_gate r f)"
proof -
  have M: "A (Metric m)" for m using assms by (simp add: upkeepD)
  show "emits A (stabilisation_gate r obj fp)"
    unfolding stabilisation_gate_def by (intro gives_intros) (auto simp: M)
  show "emits A (dedup_gate r fp)"
    unfolding dedup_gate_def by (intro gives_intros dedup_loop_emits assms) auto
  show "emits A (parent_gate r f)"
    unfolding parent_gate_def by (intro gives_intros) (auto simp: M)
  show "emits A (readiness_gate r)"
    unfolding readiness_gate_def by (intro gives_intros) auto
  show "emits A (text_gate r t)" "emits A (namespace_gate r f)" "emits A (severity_gate r f)" "emits A (depth_gate r f)"
    by (rule emits_of, rule text_gate_pass, rule M) (rule emits_of, rule namespace_gate_pass,
      rule emits_of, rule severity_gate_pass, rule M, rule emits_of, rule depth_gate_pass, rule M)
qed

lemma cleared_emits:
  assumes "upkeep A"
  shows "emits A (source_deleted r name ns)" "emits A (finding_cleared r name ns)"
proof -
  have close: "emits A (autoCloseSucceededSinks closer name ns js)" for closer js
    by (induction js) (auto intro!: gives_intros upkeepD [OF assms])
  have one: "emits A (cancel_one r j)" for j
    unfolding cancel_one_def by (intro gives_intros) (auto simp: upkeepD [OF assms])
  have loop: "emits A (cancel_loop r name ns js)" for js
    by (induction js) (auto intro!: gives_intros one)
  show "emits A (source_deleted r name ns)"
    unfolding source_deleted_def by (intro gives_intros loop close) auto
  show "emits A (finding_cleared r name ns)"
    unfolding finding_cleared_def by (intro gives_intros close) (auto simp: upkeepD [OF assms])
qed

text \<open>The jobs that a reconcile may create.\<close>

definition gated_create :: "('w, 'o) source_reconciler \<Rightarrow> string \<Rightarrow> string \<Rightarrow> RemediationJob \<Rightarrow> bool" where
  "gated_create r name ns j =
     (\<exists>obj f fp u u' w w'. run_state (pr_Get r name ns) u = (Inr obj, u') \<and> run_state (pr_ExtractFinding r obj) w = (Inr (Some f), w')
        \<and> FindingFingerprint f = Inr fp \<and> admissible (pr_Cfg r) f \<and> j = new_rjob r name ns f fp)"

abbreviation create_ok :: "('w, 'o) source_reconciler \<Rightarrow> string \<Rightarrow> string \<Rightarrow> effect \<Rightarrow> bool" where
  "create_ok r name ns e \<equiv> (\<forall>j. e = CreateRJob j \<longrightarrow> gated_create r name ns j)"

lemma upkeep_create_ok [simp]: "upkeep (create_ok r name ns)" "upkeep (\<lambda>e. \<not> is_create e)"
  by (auto simp: upkeep_def)

lemma create_rjob_ok:
  "gated_create r name ns (new_rjob r name ns f fp) \<Longrightarrow> emits (create_ok r name ns) (create_rjob r name ns f fp)"
  unfolding create_rjob_def by (intro gives_intros) auto

lemma admit_ok:
  "gated_create r name ns (new_rjob r name ns f fp) \<Longrightarrow> emits (create_ok r name ns) (admit r name ns obj f fp)"
  unfolding admit_def by (intro gives_intros create_rjob_ok) auto

lemma handle_finding_ok:
  assumes "run_state (pr_Get r name ns) u = (Inr obj, u')" "run_state (pr_ExtractFinding r obj) w = (Inr (Some f), w')"
  shows "emits (create_ok r name ns) (handle_finding r name ns obj f)"
proof -
  have tail: "emits (create_ok r name ns) (case FindingFingerprint f of
       Inl e \<Rightarrow> ret (Done, Some (Wrap ''computing fingerprint'' e))
     | Inr fp \<Rightarrow>
         if length fp < 12
         then ret (Done, Some (Err (''fingerprint too short: got '' @ itoa (int (length fp)) @ '' chars, need at least 12'')))
         else admit r name ns obj f fp)" if "admissible (pr_Cfg r) f"
  proof -
    have g: "gated_create r name ns (new_rjob r name ns f fp)" if "FindingFingerprint f = Inr fp" for fp
      unfolding gated_create_def using assms \<open>admissible (pr_Cfg r) f\<close> that by blast
    then show ?thesis by (intro gives_sum gives_if gives_return admit_ok) simp_all
  qed
  show ?thesis
    unfolding handle_finding_def
    by (rule gives_gate [OF text_gate_pass], simp, rule gives_gate [OF text_gate_pass], simp,
      rule gives_gate [OF namespace_gate_pass], rule gives_gate [OF severity_gate_pass], simp,
      rule gives_gate [OF depth_gate_pass], simp, rule tail)
      (simp add: admissible_def)
qed

lemma Reconcile_source_ok: "emits (create_ok r name ns) (Reconcile_source r name ns)"
proof -
  have ext: "gives A (\<lambda>x. \<exists>w w'. run_state (pr_ExtractFinding r obj) w = (x, w')) (ask (pr_ExtractFinding r obj) :: ('a, _) prog)" for A obj
    by (rule gives_ask) blast
  have found: "emits (create_ok r name ns) (do {
         f \<leftarrow> ask (pr_ExtractFinding r obj);
         case f of
           Inl e \<Rightarrow> ret (Done, Some e)
         | Inr None \<Rightarrow> finding_cleared r name ns
         | Inr (Some finding) \<Rightarrow> handle_finding r name ns obj finding
       })" if "run_state (pr_Get r name ns) u = (Inr obj, u')" for obj u u'
    by (rule gives_bind [OF ext]) (use that in \<open>auto split: sum.split option.split intro!: gives_return cleared_emits handle_finding_ok\<close>)
  have got: "gives A (\<lambda>x. \<exists>u u'. run_state (pr_Get r name ns) u = (x, u')) (ask (pr_Get r name ns) :: ('a, _) prog)" for A
    by (rule gives_ask) blast
  show ?thesis
    unfolding Reconcile_source_def reconcile_object_def
    by (rule gives_bind_any [OF emits_init], rule gives_bind [OF got], rule gives_sum)
      (auto intro: found gives_return cleared_emits)
qed

text \<open>At most one creation.\<close>

lemma spends_unless_done:
  "emits (\<lambda>e. \<not> A e) g \<Longrightarrow> spends A (\<lambda>_. n) k \<Longrightarrow> spends A (\<lambda>_. n) (unless_done g k)"
  unfolding unless_done_def
  by (rule spends_skip) (auto split: option.split intro: spends_none gives_return)

lemma create_rjob_spends: "spends is_create (\<lambda>_. 1) (create_rjob r name ns f fp)"
  unfolding create_rjob_def Let_def
  by (rule spends_last [OF spends_act]) (auto split: option.split intro!: gives_intros)

lemma handle_finding_spends: "spends is_create (\<lambda>_. 1) (handle_finding r name ns obj f)"
  unfolding handle_finding_def admit_def
  by (intro spends_unless_done gates_emit upkeep_create_ok spends_case create_rjob_spends)
    (auto intro: spends_none gives_return)

lemma Reconcile_source_spends: "spends is_create (\<lambda>_. 1) (Reconcile_source r name ns)"
  unfolding Reconcile_source_def reconcile_object_def
  by (intro spends_skip emits_init emits_calls spends_case handle_finding_spends)
    (auto intro!: spends_none gives_return cleared_emits)

section \<open>The stabilisation window\<close>

text \<open>\<open>frame m\<close>: \<open>m\<close> leaves the first sightings alone.\<close>

definition frame :: "('w, 'a) prog \<Rightarrow> bool" where
  "frame m = (\<forall>s. wp m (\<lambda>_ s'. firstSeen s' = firstSeen s) s)"

named_theorems frame_intros \<open>programs that do not touch the first sightings\<close>

lemma frame_basic [frame_intros]:
  "frame (ret a)" "frame (ask c)" "frame (emit e)" "frame (now r)"
  by (simp_all add: frame_def wp_simps)

lemma frame_bind [frame_intros]:
  fixes m :: "('w, 'a) prog"
  assumes "frame m" "\<And>a. frame (f a)"
  shows "frame (State_Monad.bind m f)"
  unfolding frame_def wp_bind
proof
  fix s
  from assms(1) have "wp m (\<lambda>_ s'. firstSeen s' = firstSeen s) s" by (simp add: frame_def)
  then show "wp m (\<lambda>a. wp (f a) (\<lambda>_ s'. firstSeen s' = firstSeen s)) s"
  proof (rule wp_mono)
    fix a and s' :: "'w psys" assume "firstSeen s' = firstSeen s"
    with assms(2) [of a, unfolded frame_def, rule_format, of s'] show "wp (f a) (\<lambda>_ s'. firstSeen s' = firstSeen s) s'"
      by simp
  qed
qed

lemma frame_cases [frame_intros]:
  "(b \<Longrightarrow> frame m) \<Longrightarrow> (\<not> b \<Longrightarrow> frame n) \<Longrightarrow> frame (if b then m else n)"
  "(x = None \<Longrightarrow> frame m) \<Longrightarrow> (\<And>a. x = Some a \<Longrightarrow> frame (g a)) \<Longrightarrow> frame (case x of None \<Rightarrow> m | Some a \<Rightarrow> g a)"
  "(\<And>a. y = Inl a \<Longrightarrow> frame (h a)) \<Longrightarrow> (\<And>a. y = Inr a \<Longrightarrow> frame (k a)) \<Longrightarrow> frame (case y of Inl a \<Rightarrow> h a | Inr a \<Rightarrow> k a)"
  "(\<And>a c. z = (a, c) \<Longrightarrow> frame (p a c)) \<Longrightarrow> frame (case z of (a, c) \<Rightarrow> p a c)"
  "frame (q t) \<Longrightarrow> frame (Let t q)"
  by (simp_all split: option.split sum.split prod.split)

lemma frame_gates:
  "frame (text_gate r t)" "frame (namespace_gate r f)" "frame (severity_gate r f)" "frame (depth_gate r f)"
  unfolding text_gate_def namespace_gate_def severity_gate_def depth_gate_def suppressed_def
  by (intro frame_intros)+

text \<open>\<open>from_map m A P p\<close>: as \<open>gives A P p\<close>, for runs that start with the sightings \<open>m\<close>.\<close>

definition from_map :: "BoundedMap \<Rightarrow> (effect \<Rightarrow> bool) \<Rightarrow> ('a \<Rightarrow> bool) \<Rightarrow> ('w, 'a) prog \<Rightarrow> bool" where
  "from_map m A P p = (\<forall>s. firstSeen s = m \<longrightarrow> wp p (\<lambda>a s'. P a \<and> (\<exists>es. trace s' = trace s @ es \<and> list_all A es)) s)"

lemma from_map_gives: "gives A P p \<Longrightarrow> from_map m A P p"
  by (simp add: gives_def from_map_def)

lemma from_map_read: "gives A P (f m) \<Longrightarrow> from_map m A P (State_Monad.bind read_map f)"
  by (simp add: from_map_def gives_def wp_simps)

lemma from_map_bind_gen:
  assumes "from_map m A P p" "\<And>s a s'. firstSeen s = m \<Longrightarrow> run_state p s = (a, s') \<Longrightarrow> firstSeen s' = m'"
    and "\<And>a. P a \<Longrightarrow> from_map m' A Q (f a)"
  shows "from_map m A Q (State_Monad.bind p f)"
  unfolding from_map_def
proof (intro allI impI wpI)
  fix s b s'' assume s: "firstSeen s = m" and r: "run_state (State_Monad.bind p f) s = (b, s'')"
  obtain a s' where p: "run_state p s = (a, s')" by (cases "run_state p s")
  with r have f: "run_state (f a) s' = (b, s'')" by simp
  from wp_run [OF _ p] assms(1) s obtain xs where "P a" "trace s' = trace s @ xs" "list_all A xs"
    unfolding from_map_def by blast
  moreover from wp_run [OF _ f] assms(3) [OF \<open>P a\<close>] assms(2) [OF s p] obtain ys where "Q b" "trace s'' = trace s' @ ys" "list_all A ys"
    unfolding from_map_def by blast
  ultimately show "Q b \<and> (\<exists>es. trace s'' = trace s @ es \<and> list_all A es)"
    by (intro conjI exI [of _ "xs @ ys"]) simp_all
qed

lemma from_map_bind:
  assumes "gives A P p" "frame p" "\<And>a. P a \<Longrightarrow> from_map m A Q (f a)"
  shows "from_map m A Q (State_Monad.bind p f)"
  by (rule from_map_bind_gen [OF from_map_gives [OF assms(1)] _ assms(3)])
    (use assms(2) wp_run in \<open>fastforce simp: frame_def\<close>)

lemma from_map_unless:
  assumes "emits A g" "frame g" "from_map m A Q k" "\<And>x. Q x"
  shows "from_map m A Q (unless_done g k)"
  unfolding unless_done_def
  by (rule from_map_bind [OF assms(1,2)]) (auto split: option.split intro: assms(3,4) from_map_gives gives_return)

lemma from_map_gate:
  assumes "from_map m A (\<lambda>x. x = None \<longrightarrow> B) g" "B \<Longrightarrow> emits A k"
  shows "from_map m A (\<lambda>_. True) (unless_done g k)"
  unfolding from_map_def
proof (intro allI impI wpI)
  fix s b s'' assume s: "firstSeen s = m" and run: "run_state (unless_done g k) s = (b, s'')"
  obtain a s' where g: "run_state g s = (a, s')" by (cases "run_state g s")
  from assms(1) s wp_run [OF _ g] obtain xs where x: "a = None \<longrightarrow> B" "trace s' = trace s @ xs" "list_all A xs"
    unfolding from_map_def by blast
  have rest: "emits A (case a of Some res \<Rightarrow> ret res | None \<Rightarrow> k)"
    using x(1) assms(2) by (auto split: option.split intro: gives_return)
  from run g have "run_state (case a of Some res \<Rightarrow> ret res | None \<Rightarrow> k) s' = (b, s'')" by (simp add: unless_done_def)
  with givesD(2) [OF rest] obtain ys where "trace s'' = trace s' @ ys" "list_all A ys" by blast
  with x show "True \<and> (\<exists>es. trace s'' = trace s @ es \<and> list_all A es)"
    by (intro conjI exI [of _ "xs @ ys"]) simp_all
qed

text \<open>The finding \<open>fp\<close> was sighted before, and the window has passed since.\<close>

definition waited :: "('w, 'o) source_reconciler \<Rightarrow> BoundedMap \<Rightarrow> string \<Rightarrow> bool" where
  "waited r m fp =
     (\<exists>first t w w'. map_of (bm_data m) fp = Some first \<and> run_state (k_now (pr_Client r)) w = (t, w')
        \<and> cfg_StabilisationWindow (pr_Cfg r) \<le> time_sub t first)"

lemma Get_lookup: "gives A (\<lambda>x. \<forall>t. x = Some t \<longrightarrow> map_of (bm_data m) fp = Some t) (Get (now r) fp m)"
  unfolding Get_def needsCleanup_def by (intro gives_intros) auto

lemma stabilisation_gate_pass:
  assumes "cfg_StabilisationWindow (pr_Cfg r) \<noteq> 0" "mget (pr_Annotations r obj) AnnotationPriority \<noteq> ''critical''" "\<And>x. A (Metric x)"
  shows "from_map m A (\<lambda>x. x = None \<longrightarrow> waited r m fp) (stabilisation_gate r obj fp)"
proof -
  have nw: "gives A (\<lambda>t. \<exists>w w'. run_state (k_now (pr_Client r)) w = (t, w')) (now r)"
    unfolding now_def by (rule gives_ask) blast
  have seen: "gives A (\<lambda>x. x = None \<longrightarrow> waited r m fp) (do {
      t \<leftarrow> now r; let elapsed = time_sub t first;
      if elapsed < cfg_StabilisationWindow (pr_Cfg r)
      then suppressed ReasonStabilisationWindow (RequeueAfter (wrap64 (cfg_StabilisationWindow (pr_Cfg r) - elapsed)), None)
      else ret None })" if "map_of (bm_data m) fp = Some first" for first
    by (rule gives_bind [OF nw]) (use that assms(3) in \<open>auto simp: waited_def Let_def not_less intro!: gives_suppressed gives_return\<close>)
  have unseen: "gives A (\<lambda>x. x = None \<longrightarrow> waited r m fp) (do {
      (_, m') \<leftarrow> SetNow (now r) (pr_range r) fp m;
      write_map m';
      suppressed ReasonStabilisationWindow (RequeueAfter (cfg_StabilisationWindow (pr_Cfg r)), None) })"
    by (intro gives_intros) (use assms(3) in auto)
  show ?thesis
    unfolding stabilisation_gate_def Let_def using assms(1,2)
    by (simp only: simp_thms if_True not_False_eq_True)
      (auto intro!: from_map_read gives_bind [OF Get_lookup] seen [unfolded Let_def] unseen split: option.split)
qed

text \<open>Where every creation is one whose fingerprint waited in the map \<open>m\<close>.\<close>

abbreviation create_waited :: "('w, 'o) source_reconciler \<Rightarrow> BoundedMap \<Rightarrow> effect \<Rightarrow> bool" where
  "create_waited r m e \<equiv> (\<forall>j. e = CreateRJob j \<longrightarrow> waited r m (sp_Fingerprint (rj_Spec j)))"

lemma upkeep_create_waited [simp]: "upkeep (create_waited r m)"
  by (auto simp: upkeep_def)

lemma new_rjob_fingerprint [simp]: "sp_Fingerprint (rj_Spec (new_rjob r name ns f fp)) = fp"
  by (simp add: new_rjob_def Let_def)

lemma admit_waits:
  assumes "cfg_StabilisationWindow (pr_Cfg r) \<noteq> 0" "mget (pr_Annotations r obj) AnnotationPriority \<noteq> ''critical''"
  shows "from_map m (create_waited r m) (\<lambda>_. True) (admit r name ns obj f fp)"
  unfolding admit_def
proof (rule from_map_gate [OF stabilisation_gate_pass [OF assms]])
  assume w: "waited r m fp"
  have "emits (create_waited r m) (create_rjob r name ns f fp)"
    unfolding create_rjob_def Let_def by (intro gives_intros) (use w in auto)
  then show "emits (create_waited r m) (unless_done (dedup_gate r fp) (unless_done (parent_gate r f)
      (unless_done (readiness_gate r) (create_rjob r name ns f fp))))"
    by (intro gives_intros) auto
qed simp

lemma handle_finding_waits:
  assumes "cfg_StabilisationWindow (pr_Cfg r) \<noteq> 0" "mget (pr_Annotations r obj) AnnotationPriority \<noteq> ''critical''"
  shows "from_map m (create_waited r m) (\<lambda>_. True) (handle_finding r name ns obj f)"
  unfolding handle_finding_def
  by (intro from_map_unless gates_emit frame_gates upkeep_create_waited)
    (auto split: sum.split intro: admit_waits [OF assms] from_map_gives gives_return)

definition never_critical :: "('w, 'o) source_reconciler \<Rightarrow> string \<Rightarrow> string \<Rightarrow> bool" where
  "never_critical r name ns = (\<forall>obj w w'. run_state (pr_Get r name ns) w = (Inr obj, w') \<longrightarrow>
     mget (pr_Annotations r obj) AnnotationPriority \<noteq> ''critical'')"

lemma after_init_waits:
  assumes "cfg_StabilisationWindow (pr_Cfg r) \<noteq> 0" "never_critical r name ns"
  shows "from_map m (create_waited r m) (\<lambda>_. True) (reconcile_object r name ns)"
proof -
  have found: "from_map m (create_waited r m) (\<lambda>_. True) (do {
         f \<leftarrow> ask (pr_ExtractFinding r obj);
         case f of
           Inl e \<Rightarrow> ret (Done, Some e)
         | Inr None \<Rightarrow> finding_cleared r name ns
         | Inr (Some finding) \<Rightarrow> handle_finding r name ns obj finding
       })" if "mget (pr_Annotations r obj) AnnotationPriority \<noteq> ''critical''" for obj
    by (rule from_map_bind [OF emits_calls(1) frame_basic(2)])
      (auto split: sum.split option.split
        intro: handle_finding_waits [OF assms(1) that] from_map_gives [OF gives_return] from_map_gives [OF cleared_emits(2)])
  have got: "gives A (\<lambda>x. \<exists>w w'. run_state (pr_Get r name ns) w = (x, w')) (ask (pr_Get r name ns) :: ('a, _) prog)" for A
    by (rule gives_ask) blast
  show ?thesis
    using assms(2) unfolding never_critical_def reconcile_object_def
    by (intro from_map_bind [OF got frame_basic(2)])
      (auto split: sum.split intro: found from_map_gives [OF gives_return] from_map_gives [OF cleared_emits(1)])
qed

lemma wp_init:
  "wp (initFirstSeen r) (\<lambda>_ s'. trace s' = trace s
     \<and> (if initOnce s then firstSeen s' = firstSeen s else bm_data (firstSeen s') = [])) s"
  by (simp add: initFirstSeen_def NewBoundedMap_def wp_simps Let_def)

section \<open>Existing jobs\<close>

text \<open>A job with this fingerprint that is not \<open>Failed\<close>.\<close>

definition covers :: "string \<Rightarrow> RemediationJob \<Rightarrow> bool" where
  "covers fp j = (sp_Fingerprint (rj_Spec j) = fp \<and> rj_Phase j \<noteq> PhaseFailed)"

definition stopped :: "reconcile_result option \<Rightarrow> bool" where
  "stopped x = (x \<noteq> None)"

lemma stopped_Some [simp]: "stopped (Some x)"
  by (simp add: stopped_def)

lemma duplicate_stops: "gives (\<lambda>_. True) stopped (duplicate r j t)"
  unfolding duplicate_def by (intro gives_intros) auto

lemma tombstone_stops: "gives (\<lambda>_. True) stopped (tombstone_expiry r j)"
  unfolding tombstone_expiry_def by (intro gives_intros duplicate_stops) auto

lemma succeeded_stops: "gives (\<lambda>_. True) stopped (succeeded_duplicate r j)"
  unfolding succeeded_duplicate_def by (intro gives_intros duplicate_stops tombstone_stops) auto

lemma dedup_loop_stops:
  "list_ex (covers fp) js \<Longrightarrow> gives (\<lambda>_. True) stopped (dedup_loop r fp js)"
proof (induction js)
  case (Cons j js)
  have failed: "gives (\<lambda>_. True) stopped (do { d \<leftarrow> delete_rjob (pr_Client r) j;
      if failed_for_good d then ret (Some (Done, map_option Api d)) else dedup_loop r fp js })" if "list_ex (covers fp) js"
    using Cons.IH [OF that] by (intro gives_intros) auto
  have perm: "gives (\<lambda>_. True) stopped (do { src_event r OnSource a b c; suppressed d (Done, None) } :: ('a, reconcile_result option) prog)" for a b c d
    by (intro gives_intros) auto
  show ?case
  proof (cases "sp_Fingerprint (rj_Spec j) = fp")
    case False
    with Cons show ?thesis by (simp add: covers_def)
  next
    case True
    with Cons.prems have "rj_Phase j = PhaseFailed \<Longrightarrow> list_ex (covers fp) js"
      by (simp add: covers_def [of fp j])
    with True failed perm show ?thesis
      by (simp add: duplicate_stops succeeded_stops split: RemediationJobPhase.split)
  qed
qed simp

lemma gives_result: "gives B P m \<Longrightarrow> emits A m \<Longrightarrow> gives A P m"
  by (auto simp: gives_def wp_def split: prod.splits)

lemma dedup_gate_stops:
  assumes "\<And>w l w'. run_state (k_list_rjobs (pr_Client r) (cfg_AgentNamespace (pr_Cfg r)) [(fingerprint_label, take 12 fp)]) w = (Inr l, w')
      \<Longrightarrow> list_ex (covers fp) l" and "upkeep A"
  shows "gives A stopped (dedup_gate r fp)"
proof (rule gives_result)
  have "gives (\<lambda>_. True) (\<lambda>x. case x of Inl _ \<Rightarrow> True | Inr l \<Rightarrow> list_ex (covers fp) l)
      (ask (k_list_rjobs (pr_Client r) (cfg_AgentNamespace (pr_Cfg r)) [(fingerprint_label, take 12 fp)]) :: ('a, _) prog)"
    by (rule gives_ask) (auto split: sum.split intro: assms(1))
  then show "gives (\<lambda>_. True) stopped (dedup_gate r fp)"
    unfolding dedup_gate_def
    by (rule gives_bind) (auto split: sum.splits intro: gives_return dedup_loop_stops)
qed (rule gates_emit(2) [OF assms(2)])

text \<open>The effects of a reconcile are upkeep and those of \<open>admit\<close>.\<close>

lemma Reconcile_source_lift:
  assumes "upkeep A" "\<And>obj f fp. FindingFingerprint f = Inr fp \<Longrightarrow> emits A (admit r name ns obj f fp)"
  shows "emits A (Reconcile_source r name ns)"
proof -
  have "emits A (handle_finding r name ns obj f)" for obj f
    unfolding handle_finding_def
    by (intro emits_unless_done gates_emit assms(1) gives_sum gives_if gives_return assms(2)) simp_all
  then show ?thesis
    unfolding Reconcile_source_def reconcile_object_def
    by (intro gives_bind_any gives_sum gives_if gives_return gives_option emits_init emits_calls(1) cleared_emits assms(1)) simp_all
qed

section \<open>A source that is gone\<close>

text \<open>A server that accepts every patch as sent and every deletion.\<close>

definition obliging :: "'w kube \<Rightarrow> bool" where
  "obliging K = ((\<forall>b n w. fst (run_state (k_patch_status K b n) w) = Inr n)
     \<and> (\<forall>j w. fst (run_state (k_delete_rjob K j) w) = None))"

definition cancel_effects :: "('w, 'o) source_reconciler \<Rightarrow> RemediationJob \<Rightarrow> effect list" where
  "cancel_effects r j =
     (if auto_closer r \<noteq> None \<and> rj_SinkURL j \<noteq> [] then [CloseSink j (close_reason j)] else [])
     @ [PatchStatus j (set_phase PhaseCancelled j), DeleteRJob (set_phase PhaseCancelled j)]
     @ (if pr_Recorder r
        then [Event (OnRJob (set_phase PhaseCancelled j)) ''Normal'' ''SourceDeleted'' ''Source object deleted; investigation cancelled'']
        else [])"

definition close_effects :: "('w, 'o) source_reconciler \<Rightarrow> string \<Rightarrow> string \<Rightarrow> RemediationJob list \<Rightarrow> effect list" where
  "close_effects r name ns js =
     (if auto_closer r = None then []
      else map (\<lambda>j. CloseSink j (close_reason j))
             (filter (\<lambda>j. refers_to name ns j \<and> rj_Phase j = PhaseSucceeded \<and> rj_SinkURL j \<noteq> []) js))"

definition to_cancel :: "string \<Rightarrow> string \<Rightarrow> RemediationJob \<Rightarrow> bool" where
  "to_cancel name ns j = (refers_to name ns j \<and> cancellable (rj_Phase j))"

lemma obligingD:
  "obliging K \<Longrightarrow> run_state (k_patch_status K b n) w = (x, w') \<Longrightarrow> x = Inr n"
  "obliging K \<Longrightarrow> run_state (k_delete_rjob K j) w = (y, w') \<Longrightarrow> y = None"
  unfolding obliging_def by (metis fst_conv)+

lemma wp_cancel_one:
  assumes "obliging (pr_Client r)"
  shows "wp (cancel_one r j) (\<lambda>x s'. x = (set_phase PhaseCancelled j, None) \<and> trace s' = trace s @ cancel_effects r j
      \<and> firstSeen s' = firstSeen s) s"
  by (auto simp: cancel_one_def close_sink_def src_event_def cancel_effects_def failed_for_good_def wp_simps
      dest!: obligingD [OF assms] split: option.split)

lemma wp_cancel_loop:
  assumes "obliging (pr_Client r)"
  shows "wp (cancel_loop r name ns js) (\<lambda>x s'. x = (map (\<lambda>j. if to_cancel name ns j then set_phase PhaseCancelled j else j) js, [])
      \<and> trace s' = trace s @ concat (map (cancel_effects r) (filter (to_cancel name ns) js))
      \<and> firstSeen s' = firstSeen s) s"
proof (induction js arbitrary: s)
  case (Cons j js)
  show ?case
  proof (cases "to_cancel name ns j")
    case True
    then have "refers_to name ns j" "cancellable (rj_Phase j)" by (simp_all add: to_cancel_def)
    with True show ?thesis
      unfolding cancel_loop.simps
      by (auto simp: wp_simps intro!: wp_mono [OF wp_cancel_one [OF assms]] wp_mono [OF Cons.IH])
  next
    case False
    then have "\<not> refers_to name ns j \<or> \<not> cancellable (rj_Phase j)" by (simp add: to_cancel_def)
    with False show ?thesis
      unfolding cancel_loop.simps by (auto simp: wp_simps intro!: wp_mono [OF Cons.IH])
  qed
qed (simp add: wp_simps)

lemma wp_autoClose:
  "wp (autoCloseSucceededSinks closer name ns js) (\<lambda>_ s'. firstSeen s' = firstSeen s \<and>
     trace s' = trace s @ map (\<lambda>j. CloseSink j (close_reason j))
       (filter (\<lambda>j. refers_to name ns j \<and> rj_Phase j = PhaseSucceeded \<and> rj_SinkURL j \<noteq> []) js)) s"
proof (induction js arbitrary: s)
  case (Cons j js)
  show ?case by (auto simp: wp_simps close_sink_def intro!: wp_mono [OF Cons.IH])
qed (simp add: wp_simps)

section \<open>Properties\<close>

text \<open>A reconciler for evaluation: one object with the finding \<open>f\<close> in the cluster \<open>K\<close>.\<close>

definition sample_source :: "unit kube \<Rightarrow> Finding \<Rightarrow> (unit, unit) source_reconciler" where
  "sample_source K f = \<lparr>pr_Client = K,
     pr_Cfg = zero_config\<lparr>cfg_AgentNamespace := ''mechanic'', cfg_StabilisationWindow := 30 * Second, cfg_PRAutoClose := True\<rparr>,
     pr_ProviderName = ''native'', pr_Get = (\<lambda>name ns. ret (Inr ())), pr_Annotations = (\<lambda>_. Map.empty),
     pr_ExtractFinding = (\<lambda>_. ret (Inr (Some f))), pr_Recorder = True, pr_ReadinessChecker = None,
     pr_CircuitBreaker = None, pr_SinkCloser = Some NoopSinkCloser_Close, pr_PRMergeChecker = None, pr_range = (\<lambda>xs. xs)\<rparr>"

definition fresh_state :: "unit psys" where
  "fresh_state = \<lparr>world = (), trace = [], firstSeen = \<lparr>bm_data = [], bm_maxSize = 0, bm_ttl = 0, bm_lastCleanup = 0,
     bm_cleanupInterval = 0\<rparr>, initOnce = False\<rparr>"

text \<open>
  C7. A reconcile of a source object creates at most one \<open>RemediationJob\<close>, whatever the cluster
  answers, and a job it creates is the one determined by a finding the provider extracted from the
  object of that name: named
  after the first twelve digits of the finding's fingerprint, with the finding's data, and only for
  a finding that the configuration admits (no suppressed injection, a watched and not excluded
  namespace, the minimum severity, the self-remediation depth).
\<close>

theorem creation_gated:
  "wp (Reconcile_source r name ns) (\<lambda>_ s'. \<exists>es. trace s' = trace s @ es \<and> length (filter is_create es) \<le> 1
     \<and> (\<forall>j. CreateRJob j \<in> set es \<longrightarrow> gated_create r name ns j)) s"
proof (rule wpI)
  fix a s' assume run: "run_state (Reconcile_source r name ns) s = (a, s')"
  from givesD(2) [OF Reconcile_source_ok run] obtain es where es: "trace s' = trace s @ es" "list_all (create_ok r name ns) es"
    by blast
  moreover from spendsD [OF Reconcile_source_spends run] es(1) have "length (filter is_create es) \<le> 1" by auto
  ultimately show "\<exists>es. trace s' = trace s @ es \<and> length (filter is_create es) \<le> 1
      \<and> (\<forall>j. CreateRJob j \<in> set es \<longrightarrow> gated_create r name ns j)"
    by (auto simp: list_all_iff)
qed

theorem creation_gated_witness:
  "\<exists>es. trace (snd (run_state (Reconcile_source (sample_source (empty_cluster 0) (sample_finding ''web-1'' [])) ''web-1'' ''default'') fresh_state)) = es
     \<and> (\<forall>j. CreateRJob j \<in> set es \<longrightarrow> gated_create (sample_source (empty_cluster 0) (sample_finding ''web-1'' [])) ''web-1'' ''default'' j)"
  using creation_gated [of "sample_source (empty_cluster 0) (sample_finding ''web-1'' [])" "''web-1''" "''default''" fresh_state]
  by (auto simp: wp_def fresh_state_def split: prod.splits)

text \<open>
  C8. The stabilisation window holds: unless the object is marked critical, a reconcile creates a job
  only for a fingerprint that an earlier reconcile of this reconciler has recorded, and only when
  the clock then reads at least the window later. The first sighting of a finding never creates a
  job, nor does a reconciler that has just started.
\<close>

theorem creation_after_window:
  fixes s :: "'w psys"
  assumes "cfg_StabilisationWindow (pr_Cfg r) \<noteq> 0" "never_critical r name ns"
  shows "wp (Reconcile_source r name ns) (\<lambda>_ s'. \<exists>es. trace s' = trace s @ es
    \<and> (\<forall>j. CreateRJob j \<in> set es \<longrightarrow> initOnce s \<and> waited r (firstSeen s) (sp_Fingerprint (rj_Spec j)))) s"
  unfolding Reconcile_source_def wp_bind [of "initFirstSeen r"]
proof (rule wp_mono [OF wp_init])
  fix u and s' :: "'w psys" assume i: "trace s' = trace s
    \<and> (if initOnce s then firstSeen s' = firstSeen s else bm_data (firstSeen s') = [])"
  then have w: "waited r (firstSeen s') fp \<Longrightarrow> initOnce s \<and> waited r (firstSeen s) fp" for fp
    by (auto simp: waited_def split: if_splits)
  show "wp (reconcile_object r name ns) (\<lambda>_ s''. \<exists>es. trace s'' = trace s @ es
    \<and> (\<forall>j. CreateRJob j \<in> set es \<longrightarrow> initOnce s \<and> waited r (firstSeen s) (sp_Fingerprint (rj_Spec j)))) s'"
  proof (rule wp_mono)
    show "wp (reconcile_object r name ns) (\<lambda>_ s''. \<exists>es. trace s'' = trace s' @ es
        \<and> list_all (create_waited r (firstSeen s')) es) s'"
      using after_init_waits [OF assms, of "firstSeen s'"] by (simp add: from_map_def)
  qed (use i w in \<open>fastforce simp: list_all_iff\<close>)
qed

theorem creation_after_window_witness:
  "wp (Reconcile_source (sample_source (empty_cluster 0) (sample_finding ''web-1'' [])) ''web-1'' ''default'')
     (\<lambda>_ s'. \<forall>j. CreateRJob j \<notin> set (trace s')) fresh_state"
proof -
  let ?r = "sample_source (empty_cluster 0) (sample_finding ''web-1'' [])"
  have "cfg_StabilisationWindow (pr_Cfg ?r) \<noteq> 0" by (simp add: sample_source_def Second_def)
  moreover have "never_critical ?r ''web-1'' ''default''" by (simp add: never_critical_def sample_source_def mget_def)
  ultimately show ?thesis
    by (rule wp_mono [OF creation_after_window [of ?r "''web-1''" "''default''" fresh_state]])
      (auto simp: fresh_state_def)
qed

text \<open>
  C9. One investigation per fingerprint: if every listing of the jobs labelled with the fingerprint
  shows one with that full fingerprint that is not \<open>Failed\<close> (pending, dispatched, running,
  suppressed, cancelled, permanently failed, or succeeded), the reconcile creates no job for it.
  This includes an expired tombstone, a succeeded job past its short retention: the reconcile
  deletes it, and the finding has to wait for the next reconcile, although the comment in the source
  says that such a finding is let through.
\<close>

theorem existing_job_blocks:
  assumes "\<And>w l w'. run_state (k_list_rjobs (pr_Client r) (cfg_AgentNamespace (pr_Cfg r)) [(fingerprint_label, take 12 fp)]) w = (Inr l, w')
      \<Longrightarrow> list_ex (covers fp) l"
  shows "wp (Reconcile_source r name ns) (\<lambda>_ s'. \<exists>es. trace s' = trace s @ es
    \<and> (\<forall>j. CreateRJob j \<in> set es \<longrightarrow> sp_Fingerprint (rj_Spec j) \<noteq> fp)) s"
proof -
  let ?A = "\<lambda>e. \<forall>j. e = CreateRJob j \<longrightarrow> sp_Fingerprint (rj_Spec j) \<noteq> fp"
  have up: "upkeep ?A" by (auto simp: upkeep_def)
  have "emits ?A (create_rjob r name ns f fp')" if "fp' \<noteq> fp" for f fp'
    unfolding create_rjob_def Let_def by (intro gives_intros) (use that in auto)
  then have other: "emits ?A (admit r name ns obj f fp')" if "fp' \<noteq> fp" for obj f fp'
    unfolding admit_def by (intro gives_intros up) (use that in simp_all)
  have "gives ?A stopped (dedup_gate r fp)" by (rule dedup_gate_stops [OF assms up])
  then have stop: "gives ?A (\<lambda>x. x = None \<longrightarrow> False) (dedup_gate r fp)"
    by (rule gives_mono) (simp_all add: stopped_def)
  have same: "emits ?A (admit r name ns obj f fp)" for obj f
    unfolding admit_def by (rule emits_unless_done [OF gates_emit(1) [OF up] gives_gate [OF stop]]) simp
  have "emits ?A (Reconcile_source r name ns)"
  proof (rule Reconcile_source_lift [OF up])
    fix obj f fp'
    show "emits ?A (admit r name ns obj f fp')" by (cases "fp' = fp") (simp only: same, rule other)
  qed
  from emits_wp [OF this] show ?thesis by (rule wp_mono) blast
qed

definition cluster_with :: "time \<Rightarrow> RemediationJob list \<Rightarrow> unit kube" where
  "cluster_with t js = (empty_cluster t)\<lparr>k_list_rjobs := \<lambda>ns ls. ret (Inr js)\<rparr>"

text \<open>A source without a window, in a cluster with the jobs \<open>js\<close>: without a job it creates one at once.\<close>

definition urgent_source :: "RemediationJob list \<Rightarrow> (unit, unit) source_reconciler" where
  "urgent_source js = (sample_source (cluster_with 0 js) (sample_finding ''web-1'' []))
     \<lparr>pr_Cfg := zero_config\<lparr>cfg_AgentNamespace := ''mechanic''\<rparr>\<rparr>"

definition running_job :: "string \<Rightarrow> RemediationJob" where
  "running_job fp = (sample_rjob ''a'' ''Pod'' ''web'' 1 PhaseRunning)\<lparr>rj_Spec := zero_spec\<lparr>sp_Fingerprint := fp\<rparr>\<rparr>"

lemma sample_finding_sel:
  "f_Kind (sample_finding n e) = ''Pod''" "f_Namespace (sample_finding n e) = ''default''"
  "f_ParentObject (sample_finding n e) = ''Deployment/web''" "f_Severity (sample_finding n e) = SeverityHigh"
  "f_ChainDepth (sample_finding n e) = 0"
  by (simp_all add: sample_finding_def)

lemma urgent_source_sel:
  "k_now (pr_Client (urgent_source js)) = ret 0" "k_list_rjobs (pr_Client (urgent_source js)) ns ls = ret (Inr js)"
  "k_create_rjob (pr_Client (urgent_source js)) j = ret None" "k_get_namespace (pr_Client (urgent_source js)) ns = ret (Inr Map.empty)"
  "pr_Cfg (urgent_source js) = zero_config\<lparr>cfg_AgentNamespace := ''mechanic''\<rparr>"
  "pr_Get (urgent_source js) name ns = ret (Inr ())" "pr_ExtractFinding (urgent_source js) o' = ret (Inr (Some (sample_finding ''web-1'' [])))"
  "pr_Annotations (urgent_source js) o' = Map.empty" "pr_ReadinessChecker (urgent_source js) = None" "pr_Recorder (urgent_source js) = True"
  by (simp_all add: urgent_source_def sample_source_def cluster_with_def empty_cluster_def)

lemma zero_config_sel:
  "cfg_InjectionDetectionAction zero_config = []" "cfg_WatchNamespaces zero_config = []" "cfg_ExcludeNamespaces zero_config = []"
  "cfg_MinSeverity zero_config = []" "cfg_StabilisationWindow zero_config = 0"
  by (simp_all add: zero_config_def)

lemma urgent_creates:
  assumes "FindingFingerprint (sample_finding ''web-1'' []) = Inr fp" "length fp = 64"
  shows "wp (Reconcile_source (urgent_source []) ''web-1'' ''default'')
    (\<lambda>_ s'. \<exists>j. CreateRJob j \<in> set (trace s') \<and> sp_Fingerprint (rj_Spec j) = fp) s"
proof -
  have "wp (reconcile_object (urgent_source []) ''web-1'' ''default'')
    (\<lambda>_ s'. CreateRJob (new_rjob (urgent_source []) ''web-1'' ''default'' (sample_finding ''web-1'' []) fp) \<in> set (trace s')) s" for s
    using assms
    by (simp add: reconcile_object_def handle_finding_def text_gate_def namespace_gate_def severity_gate_def depth_gate_def
        unless_done_def admit_def stabilisation_gate_def dedup_gate_def parent_gate_def readiness_gate_def create_rjob_def
        src_event_def urgent_source_sel zero_config_sel sample_finding_sel wp_simps ShouldSkip_def mget_def
        MeetsSeverityThreshold_def SeverityLevel_def severityOrder_def SeverityHigh_def SeverityLow_def)
  then have "wp (reconcile_object (urgent_source []) ''web-1'' ''default'')
    (\<lambda>_ s'. \<exists>j. CreateRJob j \<in> set (trace s') \<and> sp_Fingerprint (rj_Spec j) = fp) s" for s
    by (rule wp_mono) (use new_rjob_fingerprint in blast)
  then show ?thesis unfolding Reconcile_source_def wp_bind by (intro wp_mono [OF wp_init]) simp
qed

theorem existing_job_blocks_witness:
  "\<exists>fp. FindingFingerprint (sample_finding ''web-1'' []) = Inr fp
     \<and> wp (Reconcile_source (urgent_source [running_job fp]) ''web-1'' ''default'')
         (\<lambda>_ s'. \<forall>j. CreateRJob j \<in> set (trace s') \<longrightarrow> sp_Fingerprint (rj_Spec j) \<noteq> fp) fresh_state
     \<and> wp (Reconcile_source (urgent_source []) ''web-1'' ''default'')
         (\<lambda>_ s'. \<exists>j. CreateRJob j \<in> set (trace s') \<and> sp_Fingerprint (rj_Spec j) = fp) fresh_state"
proof -
  obtain fp where fp: "FindingFingerprint (sample_finding ''web-1'' []) = Inr fp" "length fp = 64"
    by (simp add: FindingFingerprint_def error_texts_def sample_finding_def)
  have "list_ex (covers fp) l"
    if "run_state (k_list_rjobs (pr_Client (urgent_source [running_job fp])) ns ls) w = (Inr l, w')" for ns ls w l w'
    using that by (auto simp: urgent_source_sel covers_def running_job_def sample_defs)
  then have "wp (Reconcile_source (urgent_source [running_job fp]) ''web-1'' ''default'')
      (\<lambda>_ s'. \<forall>j. CreateRJob j \<in> set (trace s') \<longrightarrow> sp_Fingerprint (rj_Spec j) \<noteq> fp) fresh_state"
    by (intro wp_mono [OF existing_job_blocks [of "urgent_source [running_job fp]" fp]]) (auto simp: fresh_state_def)
  with fp urgent_creates [OF fp] show ?thesis by blast
qed

text \<open>
  A failed investigation is retried: when the jobs with the fingerprint have all \<open>Failed\<close> and
  the server accepts deletions, the duplicate check deletes exactly these jobs, in order, and lets
  the finding through.
\<close>

theorem failed_jobs_retried:
  assumes "obliging (pr_Client r)" "\<not> list_ex (covers fp) js"
  shows "wp (dedup_loop r fp js) (\<lambda>x s'. x = None
    \<and> trace s' = trace s @ map DeleteRJob (filter (\<lambda>j. sp_Fingerprint (rj_Spec j) = fp) js)) s"
  using assms(2)
proof (induction js arbitrary: s)
  case (Cons j js)
  have IH: "wp (dedup_loop r fp js) (\<lambda>x s'. x = None
      \<and> trace s' = trace t @ map DeleteRJob (filter (\<lambda>j. sp_Fingerprint (rj_Spec j) = fp) js)) t" for t
    using Cons by simp
  show ?case
  proof (cases "sp_Fingerprint (rj_Spec j) = fp")
    case True
    with Cons.prems have "rj_Phase j = PhaseFailed" by (simp add: covers_def [of fp j])
    with True show ?thesis
      by (auto simp: wp_simps failed_for_good_def dest!: obligingD(2) [OF assms(1)]
          intro!: wp_mono [OF IH [unfolded True [symmetric]]])
  qed (simp add: IH)
qed (simp add: wp_simps)

theorem failed_jobs_retried_witness:
  "wp (dedup_loop (sample_source (empty_cluster 0) (sample_finding ''web-1'' [])) [] [sample_rjob ''a'' ''Pod'' ''web'' 1 PhaseFailed])
     (\<lambda>x s'. x = None \<and> trace s' = [DeleteRJob (sample_rjob ''a'' ''Pod'' ''web'' 1 PhaseFailed)]) fresh_state"
  by (rule wp_mono [OF failed_jobs_retried])
    (auto simp: obliging_def sample_source_def empty_cluster_def covers_def sample_defs fresh_state_def)

text \<open>
  C26. When the source object is gone and the server accepts the writes, the effects of the reconcile
  are exactly these, in this order: for every job of the source that has not finished, the closing
  of its pull request if that is enabled and there is one, the patch to \<open>Cancelled\<close>, the deletion and
  the event; then the closing of the pull requests of its succeeded jobs. No other job is touched,
  succeeded jobs are kept, and all first sightings are forgotten.
\<close>

theorem source_deleted_effects:
  assumes "obliging (pr_Client r)"
    and "\<And>w. fst (run_state (k_list_rjobs (pr_Client r) (cfg_AgentNamespace (pr_Cfg r)) []) w) = Inr js"
  shows "wp (source_deleted r name ns) (\<lambda>res s'. res = (Done, None) \<and> bm_data (firstSeen s') = []
    \<and> trace s' = trace s @ concat (map (cancel_effects r) (filter (to_cancel name ns) js)) @ close_effects r name ns js) s"
proof -
  have succ: "filter (\<lambda>j. refers_to name ns j \<and> rj_Phase j = PhaseSucceeded \<and> rj_SinkURL j \<noteq> [])
      (map (\<lambda>j. if to_cancel name ns j then set_phase PhaseCancelled j else j) js)
    = filter (\<lambda>j. refers_to name ns j \<and> rj_Phase j = PhaseSucceeded \<and> rj_SinkURL j \<noteq> []) js"
    by (induction js) (auto simp: to_cancel_def cancellable_def)
  have list: "x = Inr js" if "run_state (k_list_rjobs (pr_Client r) (cfg_AgentNamespace (pr_Cfg r)) []) w = (x, w')" for w x w'
    using assms(2) [of w] that by simp
  show ?thesis
    unfolding source_deleted_def clear_first_seen_def Clear_def
    by (auto simp: wp_simps close_effects_def succ dest!: list split: option.split
        intro!: wp_mono [OF wp_cancel_loop [OF assms(1)]] wp_mono [OF wp_autoClose])
qed

theorem source_deleted_effects_witness:
  "wp (source_deleted (sample_source (cluster_with 0 [sample_rjob ''a'' ''Pod'' ''web'' 1 PhaseRunning, sample_rjob ''b'' ''Pod'' ''web'' 2 PhaseSucceeded])
        (sample_finding ''web'' [])) [] [])
     (\<lambda>_ s'. trace s' = [PatchStatus (sample_rjob ''a'' ''Pod'' ''web'' 1 PhaseRunning) (sample_rjob ''a'' ''Pod'' ''web'' 1 PhaseCancelled),
        DeleteRJob (sample_rjob ''a'' ''Pod'' ''web'' 1 PhaseCancelled),
        Event (OnRJob (sample_rjob ''a'' ''Pod'' ''web'' 1 PhaseCancelled)) ''Normal'' ''SourceDeleted''
          ''Source object deleted; investigation cancelled'']) fresh_state"
  by (rule wp_mono [OF source_deleted_effects [where js = "[sample_rjob ''a'' ''Pod'' ''web'' 1 PhaseRunning, sample_rjob ''b'' ''Pod'' ''web'' 2 PhaseSucceeded]"]])
    (auto simp: obliging_def sample_source_def cluster_with_def empty_cluster_def fresh_state_def cancel_effects_def close_effects_def
      to_cancel_def cancellable_def refers_to_def sample_defs set_phase_def)

text \<open>
  C39. One healthy object restarts every window: clearing a finding forgets the first sightings of all
  findings of the provider, not only its own, so a reconcile of any other object of the same kind
  that follows creates no job, however long its finding has been waiting.
\<close>

theorem healthy_object_restarts_windows:
  fixes s :: "'w psys"
  assumes "cfg_StabilisationWindow (pr_Cfg r) \<noteq> 0" "mget (pr_Annotations r obj) AnnotationPriority \<noteq> ''critical''"
  shows "wp (do { _ \<leftarrow> finding_cleared r name ns; handle_finding r name' ns' obj f })
    (\<lambda>_ s'. \<exists>es. trace s' = trace s @ es \<and> (\<forall>j. CreateRJob j \<notin> set es)) s"
  unfolding wp_bind
proof (rule wp_mono)
  show "wp (finding_cleared r name ns) (\<lambda>_ s'. bm_data (firstSeen s') = []
      \<and> (\<exists>es. trace s' = trace s @ es \<and> (\<forall>e \<in> set es. \<not> is_create e))) s"
  proof (rule wp_conjI)
    show "wp (finding_cleared r name ns) (\<lambda>_ s'. bm_data (firstSeen s') = []) s"
      unfolding finding_cleared_def clear_first_seen_def Clear_def src_event_def
      by (auto simp: wp_simps split: option.split sum.split intro!: wp_mono [OF wp_autoClose])
  qed (rule emits_wp [OF cleared_emits(2)], simp)
  fix u and t :: "'w psys"
  assume t: "bm_data (firstSeen t) = [] \<and> (\<exists>es. trace t = trace s @ es \<and> (\<forall>e \<in> set es. \<not> is_create e))"
  then obtain es where es: "trace t = trace s @ es" "\<forall>e \<in> set es. \<not> is_create e" by blast
  have none: "\<not> waited r (firstSeen t) fp" for fp using t by (simp add: waited_def)
  have "wp (handle_finding r name' ns' obj f) (\<lambda>_ s'. \<exists>es. trace s' = trace t @ es \<and> list_all (create_waited r (firstSeen t)) es) t"
    using handle_finding_waits [OF assms, of "firstSeen t"] by (simp add: from_map_def)
  then show "wp (handle_finding r name' ns' obj f) (\<lambda>_ s'. \<exists>es. trace s' = trace s @ es \<and> (\<forall>j. CreateRJob j \<notin> set es)) t"
  proof (rule wp_mono)
    fix v and s' :: "'w psys"
    assume "\<exists>es. trace s' = trace t @ es \<and> list_all (create_waited r (firstSeen t)) es"
    then obtain xs where "trace s' = trace t @ xs" "list_all (create_waited r (firstSeen t)) xs" by blast
    with es none show "\<exists>es. trace s' = trace s @ es \<and> (\<forall>j. CreateRJob j \<notin> set es)"
      by (intro exI [of _ "es @ xs"]) (auto simp: list_all_iff)
  qed
qed

theorem healthy_object_restarts_windows_witness:
  "wp (do { _ \<leftarrow> finding_cleared (sample_source (empty_cluster 0) (sample_finding ''web-1'' [])) ''web-2'' ''default'';
         handle_finding (sample_source (empty_cluster 0) (sample_finding ''web-1'' [])) ''web-1'' ''default'' () (sample_finding ''web-1'' []) })
     (\<lambda>_ s'. \<forall>j. CreateRJob j \<notin> set (trace s')) fresh_state"
  by (rule wp_mono [OF healthy_object_restarts_windows])
    (auto simp: sample_source_def mget_def Second_def fresh_state_def)

end
