(* ===== verification/Correlator.thy ===== *)
theory Correlator
  imports Domain
begin

text \<open>
  \<open>src/internal/correlator\<close>: the three correlation rules (\<open>rules.go\<close>) and the correlator that
  applies a list of rules in order (\<open>correlator.go\<close>); and \<open>buildCorrelator\<close> of
  \<open>src/cmd/watcher/main.go\<close>, which chooses the rules. A rule is its name and its \<open>Evaluate\<close>, a
  program over the world, since one rule reads pods from the API server and a match draws a random
  group identifier. Timestamps and names are compared as in the source; \<open>sort.Slice\<close> and
  \<open>sort.Strings\<close> are sorting by the compared key.

  The locale \<open>correlation_rule\<close> is the contract of \<open>domain.CorrelationRule\<close>; each of the three
  rules is an interpretation, and the correlator's guarantees hold for every list of rules that
  satisfy it.
\<close>

type_synonym 'w evaluate = "RemediationJob \<Rightarrow> RemediationJob list \<Rightarrow> ('w, go_error + CorrelationResult) state"
type_synonym 'w rule = "string \<times> 'w evaluate"

section \<open>Choosing the primary\<close>

definition kindRank :: "string \<Rightarrow> int" where
  "kindRank kind = KindHierarchyRank kind"

text \<open>The three comparisons of the loop body: does \<open>p\<close> replace \<open>primary\<close>?\<close>

definition beats :: "RemediationJob \<Rightarrow> RemediationJob \<Rightarrow> bool" where
  "beats p primary =
     (let pr = kindRank (fs_Kind (rj_Finding p)); cr = kindRank (fs_Kind (rj_Finding primary)) in
      if cr < pr then True
      else if pr = cr \<and> rj_Created p < rj_Created primary then True
      else pr = cr \<and> rj_Created p = rj_Created primary \<and> rj_Name p < rj_Name primary)"

definition selectPrimary :: "RemediationJob \<Rightarrow> RemediationJob list \<Rightarrow> RemediationJob" where
  "selectPrimary candidate matched = pick beats candidate matched"

text \<open>A match: every rule draws its group identifier at the end.\<close>

definition matched_result :: "'w kube \<Rightarrow> string \<Rightarrow> string \<Rightarrow> string list \<Rightarrow> ('w, go_error + CorrelationResult) state" where
  "matched_result K primary reason uids = do {
     g \<leftarrow> NewCorrelationGroupID K;
     ret (case g of Inl e \<Rightarrow> Inl e
          | Inr gid \<Rightarrow> Inr \<lparr>cr_Matched = True, cr_GroupID = gid, cr_PrimaryUID = primary,
                           cr_Reason = reason, cr_MatchedUIDs = uids\<rparr>)
   }"

section \<open>SameNamespaceParentRule\<close>

definition isParentPrefix :: "string \<Rightarrow> string \<Rightarrow> bool" where
  "isParentPrefix a b = (a = b \<or> HasPrefix a (b @ ''-''))"

definition parent_related :: "RemediationJob \<Rightarrow> RemediationJob \<Rightarrow> bool" where
  "parent_related candidate p =
     (let cParent = fs_ParentObject (rj_Finding candidate); pParent = fs_ParentObject (rj_Finding p) in
      rj_UID p \<noteq> rj_UID candidate
      \<and> fs_Namespace (rj_Finding p) = fs_Namespace (rj_Finding candidate)
      \<and> \<not> (cParent = [] \<or> pParent = [])
      \<and> (isParentPrefix cParent pParent \<or> isParentPrefix pParent cParent))"

definition SameNamespaceParent_Evaluate :: "'w kube \<Rightarrow> 'w evaluate" where
  "SameNamespaceParent_Evaluate K candidate peers =
     (let matched = filter (parent_related candidate) peers in
      if matched = [] then ret (Inr NoMatch)
      else matched_result K (rj_UID (selectPrimary candidate matched)) ''same-namespace-parent-prefix''
             (rj_UID candidate # map rj_UID matched))"

section \<open>PVCPodRule\<close>

definition podClaimNames :: "string option list \<Rightarrow> string set" where
  "podClaimNames volumes = set (concat (map (\<lambda>v. case v of None \<Rightarrow> [] | Some c \<Rightarrow> [c]) volumes))"

definition age_key :: "RemediationJob \<Rightarrow> time \<times> string" where
  "age_key j = (rj_Created j, rj_Name j)"

definition evaluatePodCandidate :: "'w kube \<Rightarrow> 'w evaluate" where
  "evaluatePodCandidate K candidate peers =
     (let ns = fs_Namespace (rj_Finding candidate); podName = fs_Name (rj_Finding candidate);
          pvcPeers = filter (\<lambda>p. fs_Kind (rj_Finding p) = ''PersistentVolumeClaim''
                                \<and> fs_Namespace (rj_Finding p) = ns) peers
      in if pvcPeers = [] then ret (Inr NoMatch)
         else do {
           r \<leftarrow> k_get_pod_claims K ns podName;
           case r of
             Inl e \<Rightarrow> ret (if IsNotFound e then Inr NoMatch else Inl (Api e))
           | Inr volumes \<Rightarrow>
               (let claimNames = podClaimNames volumes;
                    matchedPVCs = filter (\<lambda>p. fs_Name (rj_Finding p) \<in> claimNames) pvcPeers
                in case sort_key age_key matchedPVCs of
                     [] \<Rightarrow> ret (Inr NoMatch)
                   | primary # rest \<Rightarrow>
                       matched_result K (rj_UID primary) ''pvc-pod-volume-reference''
                         (rj_UID candidate # map rj_UID (primary # rest)))
         })"

text \<open>The loop over the pod peers; \<open>Inl\<close> is the early return with a transient error.\<close>

fun pods_mounting :: "'w kube \<Rightarrow> string \<Rightarrow> string \<Rightarrow> RemediationJob list \<Rightarrow> ('w, go_error + RemediationJob list) state" where
  "pods_mounting K ns pvcName [] = ret (Inr [])"
| "pods_mounting K ns pvcName (p # ps) =
     (if fs_Kind (rj_Finding p) \<noteq> ''Pod'' \<or> fs_Namespace (rj_Finding p) \<noteq> ns
      then pods_mounting K ns pvcName ps
      else do {
        r \<leftarrow> k_get_pod_claims K ns (fs_Name (rj_Finding p));
        case r of
          Inl e \<Rightarrow> if IsNotFound e then pods_mounting K ns pvcName ps else ret (Inl (Api e))
        | Inr volumes \<Rightarrow> do {
            rest \<leftarrow> pods_mounting K ns pvcName ps;
            ret (case rest of Inl e \<Rightarrow> Inl e
                 | Inr ms \<Rightarrow> Inr (if pvcName \<in> podClaimNames volumes then p # ms else ms))
          }
      })"

definition evaluatePVCCandidate :: "'w kube \<Rightarrow> 'w evaluate" where
  "evaluatePVCCandidate K candidate peers = do {
     r \<leftarrow> pods_mounting K (fs_Namespace (rj_Finding candidate)) (fs_Name (rj_Finding candidate)) peers;
     case r of
       Inl e \<Rightarrow> ret (Inl e)
     | Inr matchedPods \<Rightarrow>
         if matchedPods = [] then ret (Inr NoMatch)
         else matched_result K (rj_UID candidate) ''pvc-pod-volume-reference''
                (rj_UID candidate # map rj_UID matchedPods)
   }"

definition PVCPod_Evaluate :: "'w kube \<Rightarrow> 'w evaluate" where
  "PVCPod_Evaluate K candidate peers =
     (if fs_Kind (rj_Finding candidate) = ''Pod'' then evaluatePodCandidate K candidate peers
      else if fs_Kind (rj_Finding candidate) = ''PersistentVolumeClaim''
      then evaluatePVCCandidate K candidate peers
      else ret (Inr NoMatch))"

section \<open>MultiPodSameNodeRule\<close>

definition node_of :: "RemediationJob \<Rightarrow> string" where
  "node_of j = mget (rj_Annotations j) NodeNameAnnotation"

definition on_node :: "RemediationJob list \<Rightarrow> string \<Rightarrow> RemediationJob list" where
  "on_node jobs n = filter (\<lambda>j. fs_Kind (rj_Finding j) = ''Pod'' \<and> node_of j = n) jobs"

definition nodes_counted :: "RemediationJob list \<Rightarrow> string list" where
  "nodes_counted jobs =
     filter (\<lambda>n. n \<noteq> []) (map node_of (filter (\<lambda>j. fs_Kind (rj_Finding j) = ''Pod'') jobs))"

definition qualifyingNodes :: "int \<Rightarrow> RemediationJob list \<Rightarrow> string list" where
  "qualifyingNodes threshold jobs =
     sort (filter (\<lambda>n. threshold \<le> int (count_list (nodes_counted jobs) n)) (remdups (nodes_counted jobs)))"

definition older :: "RemediationJob \<Rightarrow> RemediationJob \<Rightarrow> bool" where
  "older p primary = (if rj_Created p < rj_Created primary then True
     else rj_Created primary = rj_Created p \<and> rj_Name p < rj_Name primary)"

definition MultiPodSameNode_Evaluate :: "'w kube \<Rightarrow> int \<Rightarrow> 'w evaluate" where
  "MultiPodSameNode_Evaluate K threshold candidate peers =
     (if threshold \<le> 0
      then ret (Inl (Err (''MultiPodSameNodeRule: Threshold must be > 0, got '' @ itoa threshold)))
      else (case qualifyingNodes threshold (candidate # peers) of
              [] \<Rightarrow> ret (Inr NoMatch)
            | nodeName # _ \<Rightarrow>
                (case on_node (candidate # peers) nodeName of
                   [] \<Rightarrow> ret (Inl (GoPanic ''index out of range [0] with length 0''))
                 | p # ps \<Rightarrow> matched_result K (rj_UID (pick older p ps)) ''multi-pod-same-node''
                              (map rj_UID (p # ps)))))"

section \<open>The correlator\<close>

record CorrelationGroup =
  cg_GroupID :: string
  cg_PrimaryUID :: string
  cg_CorrelatedUIDs :: "string list"
  cg_Rule :: string
  cg_AllFindings :: "FindingSpec list"

text \<open>The group built from a match: restricted to the matched UIDs, or the fallback.\<close>

definition make_group :: "string \<Rightarrow> CorrelationResult \<Rightarrow> RemediationJob \<Rightarrow> RemediationJob list \<Rightarrow> CorrelationGroup" where
  "make_group name result candidate peers =
     (let prim = cr_PrimaryUID result;
          uids = cr_MatchedUIDs result
      in if uids \<noteq> []
         then \<lparr>cg_GroupID = cr_GroupID result, cg_PrimaryUID = prim,
               cg_CorrelatedUIDs = filter (\<lambda>u. u \<noteq> prim) uids, cg_Rule = name,
               cg_AllFindings =
                 (if rj_UID candidate \<in> set uids \<and> rj_UID candidate \<noteq> prim then [rj_Finding candidate] else [])
                 @ map (\<lambda>p. rj_Finding p) (filter (\<lambda>p. rj_UID p \<in> set uids \<and> rj_UID p \<noteq> prim) peers)\<rparr>
         else \<lparr>cg_GroupID = cr_GroupID result, cg_PrimaryUID = prim,
               cg_CorrelatedUIDs = filter (\<lambda>u. u \<noteq> prim) (map (\<lambda>p. rj_UID p) (candidate # peers)), cg_Rule = name,
               cg_AllFindings = map (\<lambda>p. rj_Finding p) (filter (\<lambda>p. rj_UID p \<noteq> prim) (candidate # peers))\<rparr>)"

text \<open>\<open>Correlator.Evaluate\<close>: the first match decides; \<open>None\<close> is \<open>found = false\<close>.\<close>

fun Evaluate :: "'w rule list \<Rightarrow> RemediationJob \<Rightarrow> RemediationJob list \<Rightarrow> ('w, go_error + CorrelationGroup option) state" where
  "Evaluate [] candidate peers = ret (Inr None)"
| "Evaluate ((name, eval) # rules) candidate peers = do {
     r \<leftarrow> eval candidate peers;
     case r of
       Inl e \<Rightarrow> ret (Inl (Wrap (''correlator: rule '' @ name) e))
     | Inr result \<Rightarrow>
         if \<not> cr_Matched result then Evaluate rules candidate peers
         else ret (Inr (Some (make_group name result candidate peers)))
   }"

section \<open>The built-in rules\<close>

text \<open>
  \<open>buildCorrelator\<close> reads two fields of the configuration; \<open>Inr None\<close> is the nil correlator that
  switches correlation off.
\<close>

definition buildCorrelator :: "'w kube \<Rightarrow> bool \<Rightarrow> int \<Rightarrow> go_error + 'w rule list option" where
  "buildCorrelator K DisableCorrelation MultiPodThreshold =
     (if DisableCorrelation then Inr None
      else if MultiPodThreshold \<le> 0
      then Inl (Err (''buildCorrelator: MultiPodThreshold must be > 0, got '' @ itoa MultiPodThreshold
                     @ '' (check CORRELATION_MULTI_POD_THRESHOLD)''))
      else Inr (Some [(''PVCPod'', PVCPod_Evaluate K),
                      (''SameNamespaceParent'', SameNamespaceParent_Evaluate K),
                      (''MultiPodSameNode'', MultiPodSameNode_Evaluate K MultiPodThreshold)]))"

section \<open>The contract of a rule\<close>

text \<open>
  A match names its members: they are the candidate and peers, and the primary is one of them.
\<close>

definition answer_ok :: "RemediationJob \<Rightarrow> RemediationJob list \<Rightarrow> go_error + CorrelationResult \<Rightarrow> bool" where
  "answer_ok c ps r = (case r of Inl _ \<Rightarrow> True
     | Inr res \<Rightarrow> \<not> cr_Matched res \<or> cr_PrimaryUID res \<in> set (cr_MatchedUIDs res)
         \<and> set (cr_MatchedUIDs res) \<subseteq> (\<lambda>j. rj_UID j) ` set (c # ps))"

locale correlation_rule =
  fixes eval :: "'w evaluate"
  assumes match: "wp (eval c ps) (\<lambda>r _. answer_ok c ps r) w"
begin

lemma match_run:
  assumes "run_state (eval c ps) w = (Inr res, w')" "cr_Matched res"
  shows "cr_PrimaryUID res \<in> set (cr_MatchedUIDs res)"
    and "set (cr_MatchedUIDs res) \<subseteq> (\<lambda>j. rj_UID j) ` set (c # ps)"
  using wp_run [OF match assms(1)] assms(2) by (simp_all add: answer_ok_def)

text \<open>What a client may rely on in the group built from a match.\<close>

lemma group_sound:
  assumes "run_state (eval c ps) w = (Inr res, w')" "cr_Matched res"
    and "g = make_group name res c ps"
  shows "cg_PrimaryUID g \<in> (\<lambda>j. rj_UID j) ` set (c # ps)"
    and "cg_PrimaryUID g \<notin> set (cg_CorrelatedUIDs g)"
    and "set (cg_CorrelatedUIDs g) \<subseteq> (\<lambda>j. rj_UID j) ` set (c # ps)"
    and "cg_AllFindings g = map (\<lambda>j. rj_Finding j) (filter (\<lambda>j. rj_UID j \<in> set (cg_CorrelatedUIDs g)) (c # ps))"
  using match_run [OF assms(1,2)] by (auto simp: assms(3) make_group_def Let_def intro!: filter_cong)

end

text \<open>The guarantees of a group, as one predicate.\<close>

definition group_ok :: "RemediationJob \<Rightarrow> RemediationJob list \<Rightarrow> CorrelationGroup \<Rightarrow> bool" where
  "group_ok c ps g = (cg_PrimaryUID g \<in> (\<lambda>j. rj_UID j) ` set (c # ps)
     \<and> cg_PrimaryUID g \<notin> set (cg_CorrelatedUIDs g)
     \<and> set (cg_CorrelatedUIDs g) \<subseteq> (\<lambda>j. rj_UID j) ` set (c # ps)
     \<and> cg_AllFindings g = map (\<lambda>j. rj_Finding j) (filter (\<lambda>j. rj_UID j \<in> set (cg_CorrelatedUIDs g)) (c # ps)))"

lemma Evaluate_sound:
  assumes "\<And>n e. (n, e) \<in> set rules \<Longrightarrow> correlation_rule e"
  shows "wp (Evaluate rules c ps) (\<lambda>r _. \<forall>g. r = Inr (Some g) \<longrightarrow> group_ok c ps g \<and> cg_Rule g \<in> fst ` set rules) w"
  using assms
proof (induction rules arbitrary: w)
  case (Cons rule rules w)
  obtain n e where rule: "rule = (n, e)" by (cases rule)
  then have e: "correlation_rule e" using Cons.prems [of n e] by simp
  obtain r w' where r: "run_state (e c ps) w = (r, w')" by (cases "run_state (e c ps) w")
  show ?case
  proof (cases r)
    case (Inr res)
    have rest: "wp (Evaluate rules c ps) (\<lambda>r _. \<forall>g. r = Inr (Some g) \<longrightarrow> group_ok c ps g \<and> cg_Rule g \<in> fst ` set rules) w'"
      by (rule Cons.IH) (use Cons.prems in auto)
    then have "wp (Evaluate rules c ps) (\<lambda>r _. \<forall>g. r = Inr (Some g) \<longrightarrow> group_ok c ps g \<and> cg_Rule g \<in> fst ` set (rule # rules)) w'"
      by (rule wp_mono) auto
    moreover have "group_ok c ps (make_group n res c ps)" if "cr_Matched res"
      using correlation_rule.group_sound [OF e r [unfolded Inr] that refl, of n] by (simp add: group_ok_def)
    ultimately show ?thesis
      using r Inr rule by (auto simp: wp_simps wp_all [of "e c ps"] make_group_def Let_def)
  qed (use r rule in \<open>simp add: wp_simps wp_all [of "e c ps"]\<close>)
qed (simp add: wp_simps)

section \<open>The three rules satisfy it\<close>

lemma answer_ok_simps [simp]: "answer_ok c ps (Inr NoMatch)" "answer_ok c ps (Inl e)"
  by (simp_all add: answer_ok_def NoMatch_def)

lemma wp_matched_result:
  assumes "p \<in> set us" "set us \<subseteq> (\<lambda>j. rj_UID j) ` set (c # ps)"
  shows "wp (matched_result K p rs us) (\<lambda>r _. answer_ok c ps r) w"
  unfolding matched_result_def NewCorrelationGroupID_def wp_simps
  by (rule wpI) (use assms in \<open>auto simp: answer_ok_def split: option.splits\<close>)

lemma selectPrimary_in: "selectPrimary c ms \<in> set (c # ms)"
  unfolding selectPrimary_def by (rule pick_in)

interpretation same_ns: correlation_rule "SameNamespaceParent_Evaluate K" for K :: "'w kube"
proof
  fix c ps and w :: 'w
  let ?m = "filter (parent_related c) ps"
  have "rj_UID (selectPrimary c ?m) \<in> set (rj_UID c # map (\<lambda>j. rj_UID j) ?m)"
    using selectPrimary_in [of c ?m] by auto
  then show "wp (SameNamespaceParent_Evaluate K c ps) (\<lambda>r _. answer_ok c ps r) w"
    by (auto simp: SameNamespaceParent_Evaluate_def Let_def wp_simps intro!: wp_matched_result)
qed

lemma pods_mounting_sub:
  "wp (pods_mounting K ns n ps) (\<lambda>r _. \<forall>ms. r = Inr ms \<longrightarrow> set ms \<subseteq> set ps) w"
proof (induction ps arbitrary: w)
  case (Cons p ps w)
  have "wp (pods_mounting K ns n ps) (\<lambda>r _. \<forall>ms. r = Inr ms \<longrightarrow> set ms \<subseteq> set (p # ps)) w" for w
    using Cons by (rule wp_mono) auto
  moreover have "wp (pods_mounting K ns n ps)
     (\<lambda>a _. \<forall>ms. (case a of Inl e \<Rightarrow> Inl e | Inr ms \<Rightarrow> Inr (if n \<in> podClaimNames vs then p # ms else ms)) = Inr ms
        \<longrightarrow> set ms \<subseteq> set (p # ps)) w" for w vs
    using Cons by (rule wp_mono) (auto split: sum.splits if_splits)
  ultimately show ?case
    by (simp add: wp_simps wp_all [of "k_get_pod_claims K ns (fs_Name (rj_Finding p))"] del: set_simps split: sum.split)
qed (simp add: wp_simps)

lemma sort_key_ConsD:
  "sort_key f (filter P xs) = y # ys \<Longrightarrow> set (y # ys) \<subseteq> set xs"
  by (metis filter_is_subset set_sort)

lemma evaluatePod_match: "wp (evaluatePodCandidate K c ps) (\<lambda>r _. answer_ok c ps r) w"
proof -
  have m: "wp (matched_result K (rj_UID p) rs (rj_UID c # map (\<lambda>j. rj_UID j) (p # rest))) (\<lambda>r _. answer_ok c ps r) w"
    if "set (p # rest) \<subseteq> set ps" for p rest rs w
    by (rule wp_matched_result) (use that in auto)
  show ?thesis
    unfolding evaluatePodCandidate_def Let_def wp_simps filter_filter
    by (auto simp: wp_all [of "k_get_pod_claims K x y" for x y] simp del: list.map
        intro!: m split: sum.splits list.splits dest!: sort_key_ConsD)
qed

lemma evaluatePVC_match: "wp (evaluatePVCCandidate K c ps) (\<lambda>r _. answer_ok c ps r) w"
proof -
  have m: "wp (matched_result K (rj_UID c) rs (rj_UID c # map (\<lambda>j. rj_UID j) ms)) (\<lambda>r _. answer_ok c ps r) w"
    if "set ms \<subseteq> set ps" for ms rs w
    by (rule wp_matched_result) (use that in auto)
  show ?thesis
    unfolding evaluatePVCCandidate_def wp_simps
    by (rule wp_mono [OF pods_mounting_sub]) (auto simp: m split: sum.splits)
qed

interpretation pvc_pod: correlation_rule "PVCPod_Evaluate K" for K :: "'w kube"
  by unfold_locales
    (simp add: PVCPod_Evaluate_def evaluatePod_match evaluatePVC_match wp_simps)

lemma on_node_sub: "set (on_node jobs n) \<subseteq> set jobs"
  by (auto simp: on_node_def)

interpretation multi_pod: correlation_rule "MultiPodSameNode_Evaluate K t" for K :: "'w kube" and t :: int
proof
  fix c ps and w :: 'w
  have m: "wp (matched_result K (rj_UID (pick older p ps')) rs (map (\<lambda>j. rj_UID j) (p # ps'))) (\<lambda>r _. answer_ok c ps r) w"
    if "on_node (c # ps) n = p # ps'" for p ps' rs n
    by (rule wp_matched_result) (use that pick_in [of older p ps'] on_node_sub [of "c # ps" n] in auto)
  show "wp (MultiPodSameNode_Evaluate K t c ps) (\<lambda>r _. answer_ok c ps r) w"
    using m by (auto simp: MultiPodSameNode_Evaluate_def wp_simps split: list.splits)
qed

section \<open>Keys\<close>

definition primary_key :: "RemediationJob \<Rightarrow> int \<times> time \<times> string" where
  "primary_key j = (- kindRank (fs_Kind (rj_Finding j)), rj_Created j, rj_Name j)"

lemma beats_key: "beats p q \<longleftrightarrow> primary_key p < primary_key q"
  by (auto simp: beats_def primary_key_def Let_def)

lemma older_key: "older p q \<longleftrightarrow> age_key p < age_key q"
  by (auto simp: older_def age_key_def)

lemma beats_eq: "beats = (\<lambda>p q. primary_key p < primary_key q)"
  by (simp add: fun_eq_iff beats_key)

lemma older_eq: "older = (\<lambda>p q. age_key p < age_key q)"
  by (simp add: fun_eq_iff older_key)

lemma primary_key_inj: "inj_on age_key A \<Longrightarrow> inj_on primary_key A"
  by (auto simp: inj_on_def age_key_def primary_key_def)

lemma qualifyingNodes_perm:
  assumes "mset jobs = mset jobs'"
  shows "qualifyingNodes t jobs = qualifyingNodes t jobs'"
proof -
  have m: "mset (nodes_counted jobs) = mset (nodes_counted jobs')"
    using assms by (simp add: nodes_counted_def mset_filter mset_map)
  then have c: "count_list (nodes_counted jobs) n = count_list (nodes_counted jobs') n" for n
    by (metis count_mset)
  let ?q = "\<lambda>js. filter (\<lambda>n. t \<le> int (count_list (nodes_counted jobs) n)) (remdups (nodes_counted js))"
  have "set (?q jobs) = set (?q jobs')"
    using mset_eq_setD [OF m] by simp
  then have "sort (?q jobs) = sort (?q jobs')"
    by (intro sorted_distinct_set_unique) simp_all
  with c show ?thesis by (simp add: qualifyingNodes_def)
qed

lemma on_node_set: "mset jobs = mset jobs' \<Longrightarrow> set (on_node jobs n) = set (on_node jobs' n)"
  by (drule mset_eq_setD) (simp add: on_node_def)

section \<open>Properties\<close>

text \<open>
  C18. With the built-in rules, a correlation group is well formed whatever the API server and the
  random source answer: its primary is the candidate or one of the peers, the primary is not among
  the correlated jobs that will be suppressed, those are the candidate or peers too, and the
  findings handed to the agent are exactly those of the correlated jobs, in order.
\<close>

theorem correlation_group_sound:
  assumes "buildCorrelator K disabled threshold = Inr (Some rules)"
  shows "wp (Evaluate rules c ps) (\<lambda>r _. \<forall>g. r = Inr (Some g) \<longrightarrow>
      cg_PrimaryUID g \<in> (\<lambda>j. rj_UID j) ` set (c # ps)
      \<and> cg_PrimaryUID g \<notin> set (cg_CorrelatedUIDs g)
      \<and> set (cg_CorrelatedUIDs g) \<subseteq> (\<lambda>j. rj_UID j) ` set (c # ps)
      \<and> cg_AllFindings g = map (\<lambda>j. rj_Finding j) (filter (\<lambda>j. rj_UID j \<in> set (cg_CorrelatedUIDs g)) (c # ps))) w"
proof -
  have "correlation_rule e" if "(n, e) \<in> set rules" for n e
    using that assms by (auto simp: buildCorrelator_def pvc_pod.correlation_rule_axioms
        same_ns.correlation_rule_axioms multi_pod.correlation_rule_axioms split: if_splits)
  from wp_mono [OF Evaluate_sound [OF this]] show ?thesis by (simp add: group_ok_def)
qed

theorem correlation_group_sound_witness:
  "wp (Evaluate [(''PVCPod'', PVCPod_Evaluate (empty_cluster 0)),
       (''SameNamespaceParent'', SameNamespaceParent_Evaluate (empty_cluster 0)),
       (''MultiPodSameNode'', MultiPodSameNode_Evaluate (empty_cluster 0) 3)]
      (sample_rjob ''a'' ''Pod'' ''x'' 1 PhasePending) [sample_rjob ''b'' ''Pod'' ''y'' 2 PhasePending])
     (\<lambda>r _. \<forall>g. r = Inr (Some g) \<longrightarrow> cg_PrimaryUID g \<notin> set (cg_CorrelatedUIDs g)) ()"
  by (rule wp_mono [OF correlation_group_sound [of "empty_cluster 0" False 3]]) (auto simp: buildCorrelator_def)

text \<open>
  C32. \<open>selectPrimary\<close> returns the best job under the documented rule (highest kind, then oldest, then
  least name), and its choice depends neither on the order of the list nor on which member of the
  group is the candidate, as long as no two jobs share both timestamp and name.
\<close>

theorem select_primary_spec:
  assumes "set (c # ms) = set (c' # ms')" "inj_on age_key (set (c # ms))"
  shows "selectPrimary c ms \<in> set (c # ms)
    \<and> (\<forall>q \<in> set (c # ms). \<not> beats q (selectPrimary c ms))
    \<and> selectPrimary c ms = selectPrimary c' ms'"
proof (intro conjI ballI)
  show "selectPrimary c ms \<in> set (c # ms)" by (rule selectPrimary_in)
  show "\<not> beats q (selectPrimary c ms)" if "q \<in> set (c # ms)" for q
    using pick_least [OF that, of primary_key] by (simp add: selectPrimary_def beats_eq)
  show "selectPrimary c ms = selectPrimary c' ms'"
    unfolding selectPrimary_def beats_eq by (rule pick_perm) (use assms primary_key_inj in blast)+
qed

theorem select_primary_spec_witness:
  "selectPrimary (sample_rjob ''a'' ''Pod'' ''x'' 1 PhasePending) [sample_rjob ''b'' ''Deployment'' ''y'' 2 PhasePending]
   = selectPrimary (sample_rjob ''b'' ''Deployment'' ''y'' 2 PhasePending) [sample_rjob ''a'' ''Pod'' ''x'' 1 PhasePending]"
  using select_primary_spec [of "sample_rjob ''a'' ''Pod'' ''x'' 1 PhasePending"
      "[sample_rjob ''b'' ''Deployment'' ''y'' 2 PhasePending]"
      "sample_rjob ''b'' ''Deployment'' ''y'' 2 PhasePending" "[sample_rjob ''a'' ''Pod'' ''x'' 1 PhasePending]"]
  by (auto simp: inj_on_def age_key_def sample_defs)

text \<open>
  C19. The node rule gives every candidate the same answer: two members that evaluate the same set of
  pending jobs, in whatever order the lists arrive, agree on whether there is a group, on its
  members and on its primary, so at most one of them dispatches.
\<close>

theorem multi_pod_agreement:
  assumes "mset (c # ps) = mset (c' # ps')" "inj_on age_key (set (c # ps))"
  shows "wp (MultiPodSameNode_Evaluate K t c ps) (\<lambda>r _.
      wp (MultiPodSameNode_Evaluate K t c' ps') (\<lambda>r' _. \<forall>res res'. r = Inr res \<and> r' = Inr res' \<longrightarrow>
        cr_Matched res = cr_Matched res' \<and> cr_PrimaryUID res = cr_PrimaryUID res'
        \<and> set (cr_MatchedUIDs res) = set (cr_MatchedUIDs res')) w') w"
proof (cases "0 < t")
  case True
  note q = qualifyingNodes_perm [OF assms(1), of t]
  have same: "rj_UID (pick older p ms) = rj_UID (pick older p' ms')"
    if "on_node (c # ps) n = p # ms" "on_node (c' # ps') n = p' # ms'" for n p ms p' ms'
  proof -
    have "set (p # ms) = set (p' # ms')" using on_node_set [OF assms(1), of n] that by simp
    moreover have "inj_on age_key (set (p # ms))"
      using assms(2) that on_node_sub by (metis inj_on_subset)
    ultimately show ?thesis unfolding older_eq by (metis pick_perm)
  qed
  have uids: "set (map (\<lambda>j. rj_UID j) (p # ms)) = set (map (\<lambda>j. rj_UID j) (p' # ms'))"
    if "on_node (c # ps) n = p # ms" "on_node (c' # ps') n = p' # ms'" for n p ms p' ms'
    using on_node_set [OF assms(1), of n] that by (metis list.set_map)
  show ?thesis
  proof (cases "qualifyingNodes t (c # ps)")
    case Nil
    with q True show ?thesis by (simp add: MultiPodSameNode_Evaluate_def wp_simps)
  next
    case (Cons n ns)
    show ?thesis
      using Cons q True same [of n] uids [of n]
      by (simp add: MultiPodSameNode_Evaluate_def wp_simps matched_result_def NewCorrelationGroupID_def
          wp_all [of "k_rand_read K 6"] split: list.splits option.splits)
  qed
qed (simp add: MultiPodSameNode_Evaluate_def wp_simps)

theorem multi_pod_agreement_witness:
  "let a = sample_rjob ''a'' ''Pod'' ''x'' 1 PhasePending; b = sample_rjob ''b'' ''Pod'' ''y'' 2 PhasePending in
   wp (MultiPodSameNode_Evaluate (empty_cluster 0) 2 a [b]) (\<lambda>r _.
      wp (MultiPodSameNode_Evaluate (empty_cluster 0) 2 b [a]) (\<lambda>r' _. \<forall>res res'. r = Inr res \<and> r' = Inr res' \<longrightarrow>
        cr_Matched res = cr_Matched res' \<and> cr_PrimaryUID res = cr_PrimaryUID res'
        \<and> set (cr_MatchedUIDs res) = set (cr_MatchedUIDs res')) ()) ()"
  unfolding Let_def
  by (rule multi_pod_agreement) (simp_all add: inj_on_def age_key_def sample_defs)

text \<open>
  The claim rule elects no common primary when a pod mounts two failing claims: each of the two
  claims, evaluated as the candidate beside the other and the pod, is told that it is the primary
  of the group, while the pod is told the older one; so both claims dispatch an agent.
\<close>

theorem pvc_candidates_both_primary:
  assumes "\<And>w. run_state (k_get_pod_claims K (fs_Namespace (rj_Finding p)) (fs_Name (rj_Finding p))) w = (Inr vols, w)"
    and "\<And>w. run_state (k_rand_read K 6) w = (Some bytes, w)"
    and "fs_Kind (rj_Finding p) = ''Pod''"
    and "fs_Kind (rj_Finding a) = ''PersistentVolumeClaim''" "fs_Kind (rj_Finding b) = ''PersistentVolumeClaim''"
    and "fs_Namespace (rj_Finding a) = fs_Namespace (rj_Finding p)" "fs_Namespace (rj_Finding b) = fs_Namespace (rj_Finding p)"
    and "Some (fs_Name (rj_Finding a)) \<in> set vols" "Some (fs_Name (rj_Finding b)) \<in> set vols"
    and "rj_Created a < rj_Created b"
  shows "wp (PVCPod_Evaluate K a [b, p]) (\<lambda>r _. \<exists>res. r = Inr res \<and> cr_Matched res \<and> cr_PrimaryUID res = rj_UID a) w
    \<and> wp (PVCPod_Evaluate K b [a, p]) (\<lambda>r _. \<exists>res. r = Inr res \<and> cr_Matched res \<and> cr_PrimaryUID res = rj_UID b) w
    \<and> wp (PVCPod_Evaluate K p [a, b]) (\<lambda>r _. \<exists>res. r = Inr res \<and> cr_Matched res \<and> cr_PrimaryUID res = rj_UID a) w"
proof -
  have claims: "fs_Name (rj_Finding a) \<in> podClaimNames vols" "fs_Name (rj_Finding b) \<in> podClaimNames vols"
    using assms(8,9) by (force simp: podClaimNames_def)+
  have sorted: "sort_key age_key [a, b] = [a, b]" using assms(10) by (simp add: age_key_def)
  note calls = wp_all [of "k_get_pod_claims K n m" for n m] wp_all [of "k_rand_read K 6"]
  show ?thesis
    using assms(1-7) claims sorted
    by (simp add: PVCPod_Evaluate_def evaluatePVCCandidate_def evaluatePodCandidate_def Let_def wp_simps
        matched_result_def NewCorrelationGroupID_def calls)
qed

theorem pvc_candidates_both_primary_witness:
  "let K = (empty_cluster 0)\<lparr>k_get_pod_claims := \<lambda>ns n. ret (Inr [Some ''data'', None, Some ''logs''])\<rparr>;
       a = sample_rjob ''a'' ''PersistentVolumeClaim'' ''data'' 1 PhasePending;
       b = sample_rjob ''b'' ''PersistentVolumeClaim'' ''logs'' 2 PhasePending;
       p = sample_rjob ''p'' ''Pod'' ''web'' 3 PhasePending in
   wp (PVCPod_Evaluate K a [b, p]) (\<lambda>r _. \<exists>res. r = Inr res \<and> cr_Matched res \<and> cr_PrimaryUID res = ''uid-a'') ()
    \<and> wp (PVCPod_Evaluate K b [a, p]) (\<lambda>r _. \<exists>res. r = Inr res \<and> cr_Matched res \<and> cr_PrimaryUID res = ''uid-b'') ()"
  using pvc_candidates_both_primary [of "(empty_cluster 0)\<lparr>k_get_pod_claims := \<lambda>ns n. ret (Inr [Some ''data'', None, Some ''logs''])\<rparr>"
      "sample_rjob ''p'' ''Pod'' ''web'' 3 PhasePending" "[Some ''data'', None, Some ''logs'']" "replicate 6 0"
      "sample_rjob ''a'' ''PersistentVolumeClaim'' ''data'' 1 PhasePending"
      "sample_rjob ''b'' ''PersistentVolumeClaim'' ''logs'' 2 PhasePending" "()"]
  by (simp add: empty_cluster_def sample_defs)

text \<open>
  \<open>isParentPrefix\<close> orders names: it is reflexive, transitive and antisymmetric, and a proper
  parent is shorter and ends where a dash follows, so \<open>app\<close> is not a parent of \<open>application\<close>.
\<close>

theorem parent_prefix_order:
  "isParentPrefix a a
   \<and> (isParentPrefix a b \<and> isParentPrefix b c \<longrightarrow> isParentPrefix a c)
   \<and> (isParentPrefix a b \<and> isParentPrefix b a \<longrightarrow> a = b)
   \<and> (isParentPrefix a b \<and> a \<noteq> b \<longrightarrow> length b < length a \<and> a ! length b = CHR ''-'')"
  by (auto simp: isParentPrefix_def HasPrefix_iff nth_append)

theorem parent_prefix_order_witness:
  "isParentPrefix ''my-app-7d9f'' ''my'' \<and> \<not> isParentPrefix ''application'' ''app''"
  using parent_prefix_order [of "''my-app-7d9f''" "''my-app''" "''my''"]
    parent_prefix_order [of "''application''" "''app''" "''app''"]
  by (simp add: isParentPrefix_def HasPrefix_def)

end
