(* ===== verification/Controller.thy ===== *)
theory Controller
  imports Correlator Config Metrics
begin

text \<open>
  \<open>src/internal/controller/remediationjob_controller.go\<close>: the reconciler that drives a
  \<open>RemediationJob\<close> from \<open>Pending\<close> through its agent \<open>Job\<close> to a terminal phase. \<open>Reconcile\<close> is cut at
  its early returns into consecutive blocks, one definition each; a block that may fall through to
  the next one returns an \<open>option\<close>. Every client call, clock reading, event and metric of the
  source is there, in the same order; only log lines are left out.

  The job builder is an argument, \<open>rc_Build\<close>, whose implementation is theory \<open>Job_Builder\<close>; the
  correlator is the list of rules of theory \<open>Correlator\<close> (\<open>None\<close> switches correlation off).
\<close>

record 'w reconciler =
  rc_Client :: "'w kube"
  rc_Build :: "RemediationJob \<Rightarrow> FindingSpec list \<Rightarrow> go_error + Job"
  rc_Cfg :: Config
  rc_Recorder :: bool
  rc_APIReader :: "(string \<Rightarrow> string \<Rightarrow> ('w, api_error + (string \<rightharpoonup> string)) state) option"
  rc_Correlator :: "'w rule list option"

section \<open>Small functions\<close>

definition managed_by :: labels where
  "managed_by = [(''app.kubernetes.io/managed-by'', ''mechanic-watcher'')]"

definition event :: "'w reconciler \<Rightarrow> RemediationJob \<Rightarrow> string \<Rightarrow> string \<Rightarrow> string \<Rightarrow> ('w sys, unit) state" where
  "event r rjob type reason msg =
     (if rc_Recorder r then emit (Event (OnRJob rjob) type reason msg) else ret ())"

definition mk_condition :: "string \<Rightarrow> string \<Rightarrow> string \<Rightarrow> time \<Rightarrow> Condition" where
  "mk_condition type reason msg t =
     \<lparr>c_Type = type, c_Status = ''True'', c_Reason = reason, c_Message = msg, c_LastTransitionTime = t\<rparr>"

definition add_condition :: "'w kube \<Rightarrow> Condition \<Rightarrow> RemediationJob \<Rightarrow> RemediationJob" where
  "add_condition K c j =
     j\<lparr>rj_Status := (rj_Status j)\<lparr>st_Conditions := k_SetStatusCondition K (st_Conditions (rj_Status j)) c\<rparr>\<rparr>"

definition DryRunCMName :: "string \<Rightarrow> string" where
  "DryRunCMName fingerprint =
     ''mechanic-dryrun-'' @ (if 12 < length fingerprint then take 12 fingerprint else fingerprint)"

fun api_msg :: "api_error \<Rightarrow> string" where
  "api_msg (NotFound m) = m"
| "api_msg (AlreadyExists m) = m"
| "api_msg (OtherAPI m) = m"

definition nl :: string where "nl = [CHR 0x0A]"

definition fetchDryRunReport :: "'w reconciler \<Rightarrow> RemediationJob \<Rightarrow> ('w sys, string) state" where
  "fetchDryRunReport r rjob =
     (let cmName = DryRunCMName (sp_Fingerprint (rj_Spec rjob));
          ns = cfg_AgentNamespace (rc_Cfg r);
          reader = (case rc_APIReader r of None \<Rightarrow> k_get_configmap (rc_Client r) | Some g \<Rightarrow> g)
      in do {
        cm \<leftarrow> ask (reader ns cmName);
        case cm of
          Inl e \<Rightarrow> ret (if IsNotFound e
                       then ''dry-run report unavailable: ConfigMap '' @ ns @ ''/'' @ cmName
                            @ '' not found (agent may have crashed before writing it)''
                       else ''dry-run report unavailable: get ConfigMap: '' @ api_msg e)
        | Inr d \<Rightarrow>
            (let report = mget d ''report''; patch = mget d ''patch'';
                 text = report @ (if patch \<noteq> []
                                  then nl @ nl @ ''=== PROPOSED PATCH ==='' @ nl @ patch @ nl @ ''=== END PATCH ===''
                                  else [])
             in do {
               _ \<leftarrow> act (DeleteConfigMap ns cmName) (k_delete_configmap (rc_Client r) ns cmName);
               ret (TrimSpace text)
             })
      })"

text \<open>The default of \<open>backoffLimit\<close> and the test \<open>Failed >= backoffLimit+1\<close>, in 32 bits.\<close>

definition backoff_exhausted :: "Job \<Rightarrow> bool" where
  "backoff_exhausted job =
     (let backoffLimit = (case jb_BackoffLimit job of None \<Rightarrow> 6 | Some b \<Rightarrow> b)
      in wrap32 (backoffLimit + 1) \<le> jb_Failed job)"

definition syncPhaseFromJob :: "Job \<Rightarrow> RemediationJobPhase" where
  "syncPhaseFromJob job =
     (if 0 < jb_Succeeded job then PhaseSucceeded
      else if backoff_exhausted job then PhaseFailed
      else if 0 < jb_Active job then PhaseRunning
      else PhaseDispatched)"

definition pendingPeers :: "'w reconciler \<Rightarrow> RemediationJob \<Rightarrow> ('w sys, api_error + RemediationJob list) state" where
  "pendingPeers r candidate = do {
     l \<leftarrow> ask (k_list_rjobs (rc_Client r) (cfg_AgentNamespace (rc_Cfg r)) managed_by);
     ret (case l of
            Inl e \<Rightarrow> Inl e
          | Inr items \<Rightarrow> Inr (filter (\<lambda>p. rj_UID p \<noteq> rj_UID candidate \<and> rj_Phase p = PhasePending) items))
   }"

section \<open>Suppression\<close>

definition transitionSuppressed :: "'w reconciler \<Rightarrow> RemediationJob \<Rightarrow> string \<Rightarrow> string \<Rightarrow> ('w sys, go_error option) state" where
  "transitionSuppressed r rjob groupID primaryUID =
     (if rj_Phase rjob = PhaseSuppressed then ret None
      else if rj_Phase rjob \<noteq> PhasePending then ret None
      else do {
        now \<leftarrow> ask (k_now (rc_Client r));
        let new = add_condition (rc_Client r)
              (mk_condition ConditionCorrelationSuppressed ''CorrelatedGroupFound''
                 (''suppressed: primary job UID '' @ primaryUID @ '' handles investigation'') now)
              (rjob\<lparr>rj_Status := (rj_Status rjob)\<lparr>st_Phase := PhaseSuppressed, st_CorrelationGroupID := groupID\<rparr>\<rparr>);
        emit (Metric (RecordSuppressed ReasonCorrelationSuppressed));
        (j, e) \<leftarrow> patch_status (rc_Client r) rjob new;
        case e of
          Some err \<Rightarrow> ret (Some (Api err))
        | None \<Rightarrow> do {
            let labelled = set_label CorrelationGroupRoleLabel CorrelationRoleCorrelated
                             (set_label CorrelationGroupIDLabel groupID j);
            (_, e2) \<leftarrow> patch_rjob (rc_Client r) j labelled;
            ret (map_option Api e2)
          }
      })"

fun suppress_loop :: "'w reconciler \<Rightarrow> CorrelationGroup \<Rightarrow> RemediationJob list \<Rightarrow> ('w sys, go_error option) state" where
  "suppress_loop r grp [] = ret None"
| "suppress_loop r grp (peer # peers) =
     (if rj_UID peer \<notin> set (cg_CorrelatedUIDs grp) then suppress_loop r grp peers
      else do {
        e \<leftarrow> transitionSuppressed r peer (cg_GroupID grp) (cg_PrimaryUID grp);
        case e of Some err \<Rightarrow> ret (Some err) | None \<Rightarrow> suppress_loop r grp peers
      })"

definition suppressCorrelatedPeers :: "'w reconciler \<Rightarrow> RemediationJob list \<Rightarrow> CorrelationGroup \<Rightarrow> ('w sys, go_error option) state" where
  "suppressCorrelatedPeers r peers grp = suppress_loop r grp peers"

section \<open>Dispatch\<close>

definition injection_suppress :: "'w reconciler \<Rightarrow> RemediationJob \<Rightarrow> bool" where
  "injection_suppress r rjob =
     ((DetectInjection (fs_Errors (rj_Finding rjob)) \<or> DetectInjection (fs_Details (rj_Finding rjob)))
      \<and> cfg_InjectionDetectionAction (rc_Cfg r) = ''suppress'')"

text \<open>The job exists already: take its phase over.\<close>

definition adopt_existing :: "'w reconciler \<Rightarrow> RemediationJob \<Rightarrow> Job \<Rightarrow> ('w sys, go_error option) state" where
  "adopt_existing r rjob job = do {
     g \<leftarrow> ask (k_get_job (rc_Client r) (om_Namespace (jb_Meta job)) (om_Name (jb_Meta job)));
     case g of
       Inl e \<Rightarrow> ret (Some (Api e))
     | Inr existing \<Rightarrow> do {
         let new = set_phase (syncPhaseFromJob existing) rjob;
         let new = (if st_JobRef (rj_Status new) = []
                    then new\<lparr>rj_Status := (rj_Status new)\<lparr>st_JobRef := om_Name (jb_Meta existing)\<rparr>\<rparr> else new);
         (j, e) \<leftarrow> patch_status (rc_Client r) rjob new;
         case e of
           Some err \<Rightarrow> ret (Some (Api err))
         | None \<Rightarrow> do {
             event r j ''Normal'' ''JobDispatched'' (''Created agent Job '' @ om_Name (jb_Meta job));
             ret None
           }
       }
   }"

definition dispatch :: "'w reconciler \<Rightarrow> RemediationJob \<Rightarrow> FindingSpec list \<Rightarrow> ('w sys, go_error option) state" where
  "dispatch r rjob correlatedFindings =
     (if injection_suppress r rjob
      then do {
        now \<leftarrow> ask (k_now (rc_Client r));
        (_, e) \<leftarrow> patch_status (rc_Client r) rjob
          (add_condition (rc_Client r)
             (mk_condition ConditionPermanentlyFailed ''InjectionDetected''
                ''injection pattern detected in finding; dispatch suppressed'' now)
             (set_phase PhasePermanentlyFailed rjob));
        ret (map_option Api e)
      }
      else (case rc_Build r rjob correlatedFindings of
              Inl e \<Rightarrow> ret (Some (Wrap ''building Job'' e))
            | Inr job \<Rightarrow> do {
                c \<leftarrow> act (CreateJob job) (k_create_job (rc_Client r) job);
                case c of
                  Some e \<Rightarrow>
                    if IsAlreadyExists e then adopt_existing r rjob job
                    else ret (Some (Wrap ''creating Job'' (Api e)))
                | None \<Rightarrow> do {
                    now \<leftarrow> ask (k_now (rc_Client r));
                    let new = add_condition (rc_Client r)
                          (mk_condition ConditionJobDispatched ''JobCreated'' [] now)
                          (rjob\<lparr>rj_Status := (rj_Status rjob)\<lparr>st_Phase := PhaseDispatched,
                             st_JobRef := om_Name (jb_Meta job), st_DispatchedAt := Some now\<rparr>\<rparr>);
                    (j, e) \<leftarrow> patch_status (rc_Client r) rjob new;
                    case e of
                      Some err \<Rightarrow> ret (Some (Api err))
                    | None \<Rightarrow> do {
                        event r j ''Normal'' ''JobDispatched'' (''Created agent Job '' @ om_Name (jb_Meta job));
                        ret None
                      }
                  }
              }))"

section \<open>The concurrency gate\<close>

definition jobStalenessTimeout :: duration where
  "jobStalenessTimeout = 30 * Minute"

definition isJobActive :: "'w kube \<Rightarrow> Job \<Rightarrow> ('w, bool) state" where
  "isJobActive K j =
     (if 0 < jb_Succeeded j then ret False
      else if backoff_exhausted j then ret False
      else if jb_Active j = 0 \<and> jb_Failed j = 0
      then do {
        now \<leftarrow> k_now K;
        ret (\<not> jobStalenessTimeout < time_sub now (om_CreationTimestamp (jb_Meta j)))
      }
      else ret True)"

fun count_active :: "'w kube \<Rightarrow> Job list \<Rightarrow> ('w, int) state" where
  "count_active K [] = ret 0"
| "count_active K (j # js) = do {
     a \<leftarrow> isJobActive K j;
     n \<leftarrow> count_active K js;
     ret (if a then n + 1 else n)
   }"

text \<open>\<open>Inr None\<close>: the gate is open; \<open>Inr (Some result)\<close>: limited.\<close>

definition concurrencyGate :: "'w reconciler \<Rightarrow> ('w sys, api_error + Result option) state" where
  "concurrencyGate r =
     (if cfg_MaxConcurrentJobs (rc_Cfg r) = 0 then ret (Inr None)
      else do {
        l \<leftarrow> ask (k_list_jobs (rc_Client r) (cfg_AgentNamespace (rc_Cfg r)) managed_by);
        case l of
          Inl e \<Rightarrow> ret (Inl e)
        | Inr jobs \<Rightarrow> do {
            activeCount \<leftarrow> ask (count_active (rc_Client r) jobs);
            emit (Metric (SetActiveJobs activeCount));
            p \<leftarrow> ask (k_list_rjobs (rc_Client r) (cfg_AgentNamespace (rc_Cfg r)) managed_by);
            (case p of
               Inl _ \<Rightarrow> ret ()
             | Inr pend \<Rightarrow> emit (Metric (SetPendingJobs
                 (int (length (filter (\<lambda>j. rj_Phase j = PhasePending) pend))))));
            ret (if cfg_MaxConcurrentJobs (rc_Cfg r) \<le> activeCount
                 then Inr (Some (RequeueAfter (30 * Second))) else Inr None)
          }
      })"

section \<open>Reconcile: before the phase switch\<close>

text \<open>The first sight of a pull request, on any path.\<close>

definition record_pr :: "'w reconciler \<Rightarrow> RemediationJob \<Rightarrow> ('w sys, RemediationJob) state" where
  "record_pr r rjob =
     (let K = rc_Client r in
      if rj_SinkURL rjob \<noteq> []
         \<and> \<not> k_IsStatusConditionTrue K (st_Conditions (rj_Status rjob)) ConditionPRRecorded
      then do {
        emit (Metric RecordPROpened);
        now \<leftarrow> ask (k_now K);
        (j, _) \<leftarrow> patch_status K rjob (add_condition K
          (mk_condition ConditionPRRecorded ''SinkRefObserved''
             ''SinkRef.URL observed; prs_opened_total incremented'' now) rjob);
        ret j
      }
      else ret rjob)"

definition init_phase :: "'w reconciler \<Rightarrow> RemediationJob \<Rightarrow> ('w sys, reconcile_result) state" where
  "init_phase r rjob = do {
     (_, e) \<leftarrow> patch_status (rc_Client r) rjob (set_phase PhasePending rjob);
     ret (case e of Some err \<Rightarrow> (Done, Some (Api err)) | None \<Rightarrow> (Requeue, None))
   }"

section \<open>Reconcile: the retention of succeeded jobs\<close>

definition ttl_of :: "Config \<Rightarrow> duration" where
  "ttl_of cfg = seconds (cfg_RemediationJobTTLSeconds cfg)"

definition short_ttl_of :: "Config \<Rightarrow> duration" where
  "short_ttl_of cfg =
     (let shortTTL = seconds (cfg_RemediationJobShortTTLSeconds cfg)
      in if shortTTL = 0 then 24 * Hour else shortTTL)"

text \<open>The deadline of a job that completed at \<open>t\<close>.\<close>

definition ttl_deadline :: "Config \<Rightarrow> RemediationJob \<Rightarrow> time \<Rightarrow> time" where
  "ttl_deadline cfg rjob t =
     (if st_PRMerged (rj_Status rjob)
      then (case st_PRMergedAt (rj_Status rjob) of None \<Rightarrow> t | Some m \<Rightarrow> m) + ttl_of cfg
      else t + short_ttl_of cfg)"

text \<open>The code that follows the deletion: a patch of the status of the object just deleted.\<close>

definition after_delete :: "'w kube \<Rightarrow> RemediationJob \<Rightarrow> ('w sys, reconcile_result) state" where
  "after_delete K rjob = do {
     now \<leftarrow> ask (k_now K);
     (_, e) \<leftarrow> patch_status K rjob (rjob\<lparr>rj_Status := (rj_Status rjob)\<lparr>st_CompletedAt := Some now\<rparr>\<rparr>);
     ret (case e of Some err \<Rightarrow> (Done, Some (Api err)) | None \<Rightarrow> (Requeue, None))
   }"

definition succeeded_step :: "'w reconciler \<Rightarrow> RemediationJob \<Rightarrow> ('w sys, reconcile_result) state" where
  "succeeded_step r rjob =
     (let K = rc_Client r in
      case st_CompletedAt (rj_Status rjob) of
        None \<Rightarrow> do {
          now \<leftarrow> ask (k_now K);
          (_, e) \<leftarrow> patch_status K rjob (rjob\<lparr>rj_Status := (rj_Status rjob)\<lparr>st_CompletedAt := Some now\<rparr>\<rparr>);
          case e of
            Some err \<Rightarrow> ret (if IsNotFound err then (RequeueAfter Second, None) else (Done, Some (Api err)))
          | None \<Rightarrow> ret (RequeueAfter Second, None)
        }
      | Some t \<Rightarrow> do {
          let deadline = ttl_deadline (rc_Cfg r) rjob t;
          now \<leftarrow> ask (k_now K);
          if now < deadline
          then do {
            now2 \<leftarrow> ask (k_now K);
            ret (RequeueAfter (time_sub deadline now2), None)
          }
          else do {
            d \<leftarrow> delete_rjob K rjob;
            case d of
              Some err \<Rightarrow> if \<not> IsNotFound err then ret (Done, Some (Api err)) else after_delete K rjob
            | None \<Rightarrow> after_delete K rjob
          }
        })"

section \<open>Reconcile: synchronisation with the owned job\<close>

definition max_retries :: "RemediationJob \<Rightarrow> int" where
  "max_retries rjob = (if sp_MaxRetries (rj_Spec rjob) \<le> 0 then 3 else sp_MaxRetries (rj_Spec rjob))"

text \<open>
  The update of a job whose agent job has failed: \<open>old\<close> is the object before the phase was set,
  \<open>rjob\<close> the object with the phase \<open>Failed\<close>.
\<close>

definition mark_failed :: "'w kube \<Rightarrow> RemediationJob \<Rightarrow> RemediationJob \<Rightarrow> ('w sys, RemediationJob) state" where
  "mark_failed K old rjob =
     (let rjob = (if rj_Phase old \<noteq> PhaseFailed
                  then rjob\<lparr>rj_Status := (rj_Status rjob)\<lparr>st_RetryCount := wrap32 (st_RetryCount (rj_Status rjob) + 1)\<rparr>\<rparr>
                  else rjob);
          maxRetries = max_retries rjob;
          count = st_RetryCount (rj_Status rjob)
      in do {
        now \<leftarrow> ask (k_now K);
        ret (if maxRetries \<le> count
             then add_condition K (mk_condition ConditionPermanentlyFailed ''RetryCapReached''
                    (''RetryCount '' @ itoa count @ '' reached MaxRetries '' @ itoa maxRetries) now)
                    (set_phase PhasePermanentlyFailed rjob)
             else add_condition K (mk_condition ConditionJobFailed (phase_string PhaseFailed) [] now) rjob)
      })"

definition job_outcome :: "RemediationJobPhase \<Rightarrow> RemediationJob \<Rightarrow> string" where
  "job_outcome newPhase rjob =
     (if rj_Phase rjob = PhasePermanentlyFailed then OutcomePermanentlyFailed
      else if newPhase = PhaseFailed then OutcomeFailed else OutcomeSucceeded)"

definition fp12 :: "RemediationJob \<Rightarrow> string" where
  "fp12 rjob = (let fp = sp_Fingerprint (rj_Spec rjob) in if 12 \<le> length fp then take 12 fp else [])"

definition mark_terminal :: "'w kube \<Rightarrow> RemediationJob \<Rightarrow> RemediationJobPhase \<Rightarrow> RemediationJob \<Rightarrow> ('w sys, RemediationJob) state" where
  "mark_terminal K old newPhase rjob = do {
     rjob \<leftarrow> (if newPhase = PhaseFailed then mark_failed K old rjob
              else do {
                now \<leftarrow> ask (k_now K);
                ret (add_condition K (mk_condition ConditionJobComplete (phase_string newPhase) [] now) rjob)
              });
     rjob \<leftarrow> (case st_CompletedAt (rj_Status rjob) of
                None \<Rightarrow> do {
                  now \<leftarrow> ask (k_now K);
                  ret (rjob\<lparr>rj_Status := (rj_Status rjob)\<lparr>st_CompletedAt := Some now\<rparr>\<rparr>)
                }
              | Some _ \<Rightarrow> ret rjob);
     (case (st_CompletedAt (rj_Status old), st_DispatchedAt (rj_Status rjob), st_CompletedAt (rj_Status rjob)) of
        (None, Some d, Some c) \<Rightarrow> emit (Metric (ObserveJobDuration (fp12 rjob) (job_outcome newPhase rjob) d c))
      | _ \<Rightarrow> ret ());
     ret rjob
   }"

definition sync_event :: "'w reconciler \<Rightarrow> Job \<Rightarrow> RemediationJobPhase \<Rightarrow> RemediationJob \<Rightarrow> ('w sys, unit) state" where
  "sync_event r job newPhase rjob =
     (case newPhase of
        PhaseSucceeded \<Rightarrow>
          if st_PRRef (rj_Status rjob) \<noteq> []
          then event r rjob ''Normal'' ''JobSucceeded'' (''Agent Job completed; PR: '' @ st_PRRef (rj_Status rjob))
          else event r rjob ''Normal'' ''JobSucceeded'' ''Agent Job completed''
      | PhaseFailed \<Rightarrow>
          if rj_Phase rjob = PhasePermanentlyFailed
          then event r rjob ''Warning'' ''JobPermanentlyFailed''
                 (''Agent Job permanently failed after '' @ itoa (st_RetryCount (rj_Status rjob))
                  @ '' attempt(s); no further retries'')
          else event r rjob ''Warning'' ''JobFailed''
                 (''Agent Job failed after '' @ itoa (jb_Failed job) @ '' attempt(s)'')
      | _ \<Rightarrow> ret ())"

definition sync_owned :: "'w reconciler \<Rightarrow> RemediationJob \<Rightarrow> Job \<Rightarrow> ('w sys, reconcile_result) state" where
  "sync_owned r old job =
     (let K = rc_Client r; newPhase = syncPhaseFromJob job; rjob = set_phase newPhase old in do {
        rjob \<leftarrow> (if newPhase = PhaseSucceeded \<or> newPhase = PhaseFailed
                 then mark_terminal K old newPhase rjob else ret rjob);
        let rjob = (if st_JobRef (rj_Status rjob) = []
                    then rjob\<lparr>rj_Status := (rj_Status rjob)\<lparr>st_JobRef := om_Name (jb_Meta job)\<rparr>\<rparr> else rjob);
        rjob \<leftarrow> (if newPhase = PhaseSucceeded
                    \<and> mget (om_Annotations (jb_Meta job)) ''mechanic.io/dry-run'' = ''true''
                    \<and> st_Message (rj_Status rjob) = []
                 then do {
                   m \<leftarrow> fetchDryRunReport r rjob;
                   ret (rjob\<lparr>rj_Status := (rj_Status rjob)\<lparr>st_Message := m\<rparr>\<rparr>)
                 }
                 else ret rjob);
        (j, e) \<leftarrow> patch_status K old rjob;
        case e of
          Some err \<Rightarrow> ret (Done, Some (Api err))
        | None \<Rightarrow> do { sync_event r job newPhase j; ret (Done, None) }
      })"

section \<open>Reconcile: correlation\<close>

definition failure :: "go_error \<Rightarrow> reconcile_result option" where
  "failure e = Some (Done, Some e)"

text \<open>
  A member that is not the primary waits, unless the primary has disappeared for longer than the
  grace period. \<open>None\<close> is the fall-back to a solo dispatch.
\<close>

definition await_primary :: "'w reconciler \<Rightarrow> RemediationJob \<Rightarrow> duration \<Rightarrow> CorrelationGroup \<Rightarrow> ('w sys, reconcile_result option) state" where
  "await_primary r rjob window grp = do {
     l \<leftarrow> ask (k_list_rjobs (rc_Client r) (cfg_AgentNamespace (rc_Cfg r)) managed_by);
     case l of
       Inl e \<Rightarrow> ret (failure (Wrap ''listing all jobs to check primary liveness'' (Api e)))
     | Inr items \<Rightarrow> do {
         let primaryGone = list_all (\<lambda>j. rj_UID j \<noteq> cg_PrimaryUID grp) items;
         let gracePeriod = wrap64 (wrap64 (3 * cfg_CorrelationWindowSeconds (rc_Cfg r)) * Second);
         now \<leftarrow> ask (k_now (rc_Client r));
         let waitedLongEnough = (wrap64 (gracePeriod + window) < time_sub now (rj_Created rjob));
         ret (if primaryGone \<and> waitedLongEnough then None else Some (RequeueAfter (5 * Second), None))
       }
   }"

text \<open>The group identifier of an earlier attempt is kept.\<close>

definition primary_group :: "RemediationJob \<Rightarrow> CorrelationGroup \<Rightarrow> CorrelationGroup" where
  "primary_group rjob grp =
     (if st_CorrelationGroupID (rj_Status rjob) \<noteq> []
      then grp\<lparr>cg_GroupID := st_CorrelationGroupID (rj_Status rjob)\<rparr>
      else if mget (rj_Labels rjob) CorrelationGroupIDLabel \<noteq> []
      then grp\<lparr>cg_GroupID := mget (rj_Labels rjob) CorrelationGroupIDLabel\<rparr>
      else grp)"

definition label_primary :: "'w kube \<Rightarrow> string \<Rightarrow> RemediationJob \<Rightarrow> ('w sys, RemediationJob \<times> api_error option) state" where
  "label_primary K gid rjob =
     patch_rjob K rjob (set_label CorrelationGroupRoleLabel CorrelationRolePrimary
       (set_label CorrelationGroupIDLabel gid rjob))"

definition publish_group :: "'w kube \<Rightarrow> string \<Rightarrow> RemediationJob \<Rightarrow> ('w sys, RemediationJob \<times> api_error option) state" where
  "publish_group K gid rjob = do {
     (rjob, e) \<leftarrow> patch_status K rjob (rjob\<lparr>rj_Status := (rj_Status rjob)\<lparr>st_CorrelationGroupID := gid\<rparr>\<rparr>);
     case e of Some err \<Rightarrow> ret (rjob, Some err) | None \<Rightarrow> label_primary K gid rjob
   }"

definition dispatch_primary :: "'w reconciler \<Rightarrow> RemediationJob \<Rightarrow> RemediationJob list \<Rightarrow> CorrelationGroup \<Rightarrow> ('w sys, reconcile_result) state" where
  "dispatch_primary r rjob peers grp0 = do {
     let grp = primary_group rjob grp0;
     e \<leftarrow> suppressCorrelatedPeers r peers grp;
     case e of
       Some err \<Rightarrow> ret (Done, Some err)
     | None \<Rightarrow> do {
         (rjob, e) \<leftarrow> publish_group (rc_Client r) (cg_GroupID grp) rjob;
         case e of
           Some err \<Rightarrow> ret (Done, Some (Api err))
         | None \<Rightarrow> do { d \<leftarrow> dispatch r rjob (cg_AllFindings grp); ret (Done, d) }
       }
   }"

text \<open>The gate and the dispatch at the end of both dispatching paths.\<close>

definition gated_dispatch :: "'w reconciler \<Rightarrow> RemediationJob \<Rightarrow> FindingSpec list \<Rightarrow> ('w sys, reconcile_result) state" where
  "gated_dispatch r rjob findings = do {
     g \<leftarrow> concurrencyGate r;
     case g of
       Inl e \<Rightarrow> ret (Done, Some (Api e))
     | Inr (Some result) \<Rightarrow> ret (result, None)
     | Inr None \<Rightarrow> do { d \<leftarrow> dispatch r rjob findings; ret (Done, d) }
   }"

text \<open>A primary whose peers were suppressed by an earlier reconcile that did not finish.\<close>

definition recover_group :: "'w reconciler \<Rightarrow> RemediationJob \<Rightarrow> ('w sys, reconcile_result) state" where
  "recover_group r rjob =
     (let K = rc_Client r; gid = st_CorrelationGroupID (rj_Status rjob) in do {
        l \<leftarrow> ask (k_list_rjobs K (cfg_AgentNamespace (rc_Cfg r)) managed_by);
        case l of
          Inl e \<Rightarrow> ret (Done, Some (Wrap ''listing peers for correlation recovery'' (Api e)))
        | Inr items \<Rightarrow> do {
            let recovered = map (\<lambda>p. rj_Finding p)
                  (filter (\<lambda>p. rj_UID p \<noteq> rj_UID rjob \<and> st_CorrelationGroupID (rj_Status p) = gid
                               \<and> rj_Phase p = PhaseSuppressed) items);
            (rjob, e) \<leftarrow> (if mget (rj_Labels rjob) CorrelationGroupIDLabel = []
                          then label_primary K gid rjob else ret (rjob, None));
            case e of
              Some err \<Rightarrow> ret (Done, Some (Api err))
            | None \<Rightarrow> gated_dispatch r rjob recovered
          }
      })"

definition after_group :: "'w reconciler \<Rightarrow> RemediationJob \<Rightarrow> ('w sys, reconcile_result option) state" where
  "after_group r rjob =
     (if st_CorrelationGroupID (rj_Status rjob) \<noteq> [] \<and> rj_Phase rjob = PhasePending
      then do { x \<leftarrow> recover_group r rjob; ret (Some x) }
      else ret None)"

text \<open>The window hold: \<open>Some\<close> is the early return.\<close>

definition window_hold :: "'w reconciler \<Rightarrow> RemediationJob \<Rightarrow> duration \<Rightarrow> ('w sys, reconcile_result option) state" where
  "window_hold r rjob window =
     (if 0 < window
      then do {
        now \<leftarrow> ask (k_now (rc_Client r));
        let age = time_sub now (rj_Created rjob);
        ret (if age < window then Some (RequeueAfter (wrap64 (window - age)), None) else None)
      }
      else ret None)"

definition correlate :: "'w reconciler \<Rightarrow> 'w rule list \<Rightarrow> RemediationJob \<Rightarrow> ('w sys, reconcile_result option) state" where
  "correlate r rules rjob =
     (let window = seconds (cfg_CorrelationWindowSeconds (rc_Cfg r)) in do {
        h \<leftarrow> window_hold r rjob window;
        case h of
          Some x \<Rightarrow> ret (Some x)
        | None \<Rightarrow> do {
            p \<leftarrow> pendingPeers r rjob;
            case p of
              Inl e \<Rightarrow> ret (failure (Wrap ''listing pending peers'' (Api e)))
            | Inr peers \<Rightarrow> do {
                g \<leftarrow> ask (Evaluate rules rjob peers);
                case g of
                  Inl e \<Rightarrow> ret (failure (Wrap ''correlator evaluate'' e))
                | Inr None \<Rightarrow> after_group r rjob
                | Inr (Some grp) \<Rightarrow>
                    if cg_PrimaryUID grp \<noteq> rj_UID rjob
                    then do {
                      w \<leftarrow> await_primary r rjob window grp;
                      case w of Some x \<Rightarrow> ret (Some x) | None \<Rightarrow> after_group r rjob
                    }
                    else do { x \<leftarrow> dispatch_primary r rjob peers grp; ret (Some x) }
              }
          }
      })"

section \<open>Reconcile\<close>

text \<open>From the listing of the owned jobs to the end.\<close>

definition drive :: "'w reconciler \<Rightarrow> RemediationJob \<Rightarrow> ('w sys, reconcile_result) state" where
  "drive r rjob = do {
     l \<leftarrow> ask (k_list_jobs (rc_Client r) (cfg_AgentNamespace (rc_Cfg r))
                [(''remediation.mechanic.io/remediation-job'', rj_Name rjob)]);
     case l of
       Inl e \<Rightarrow> ret (Done, Some (Api e))
     | Inr (job # _) \<Rightarrow> sync_owned r rjob job
     | Inr [] \<Rightarrow>
         if rj_Phase rjob = PhaseDispatched \<or> rj_Phase rjob = PhaseRunning then ret (Done, None)
         else do {
           c \<leftarrow> (case rc_Correlator r of None \<Rightarrow> ret None | Some rules \<Rightarrow> correlate r rules rjob);
           case c of
             Some x \<Rightarrow> ret x
           | None \<Rightarrow> gated_dispatch r rjob []
         }
   }"

definition by_phase :: "'w reconciler \<Rightarrow> RemediationJob \<Rightarrow> ('w sys, reconcile_result) state" where
  "by_phase r rjob =
     (case rj_Phase rjob of
        PhaseSucceeded \<Rightarrow> succeeded_step r rjob
      | PhaseFailed \<Rightarrow> ret (Done, None)
      | PhasePermanentlyFailed \<Rightarrow> ret (Done, None)
      | PhaseCancelled \<Rightarrow> ret (Done, None)
      | PhaseSuppressed \<Rightarrow> ret (Done, None)
      | _ \<Rightarrow> drive r rjob)"

definition Reconcile :: "'w reconciler \<Rightarrow> string \<Rightarrow> string \<Rightarrow> ('w sys, reconcile_result) state" where
  "Reconcile r ns name = do {
     g \<leftarrow> ask (k_get_rjob (rc_Client r) ns name);
     case g of
       Inl e \<Rightarrow> ret (Done, if IsNotFound e then None else Some (Api e))
     | Inr rjob \<Rightarrow> do {
         rjob \<leftarrow> record_pr r rjob;
         if rj_Phase rjob = PhaseNone then init_phase r rjob else by_phase r rjob
       }
   }"

end
