(* ===== verification/Controller_Safety.thy ===== *)
theory Controller_Safety
  imports Controller
begin

text \<open>
  What the controller of theory \<open>Controller\<close> may and may not do, whatever the API server, the clock
  and the other writers do in between: how many agent jobs a reconcile creates and from which
  phase, which phase changes it writes (a refinement of the life cycle below), in which order a
  correlation group is suppressed and dispatched, when a finished job is deleted, and how the
  concurrency gate counts.
\<close>

section \<open>The life cycle\<close>

text \<open>
  The abstract state of a job: its phase and its retry counter. \<open>lifecycle m\<close> is the contract of
  the controller's status writes for a job with the retry limit \<open>m\<close>.
\<close>

type_synonym life = "RemediationJobPhase \<times> int"

definition live :: "RemediationJobPhase \<Rightarrow> bool" where
  "live p = (p \<in> {PhasePending, PhaseDispatched, PhaseRunning})"

definition terminal :: "RemediationJobPhase \<Rightarrow> bool" where
  "terminal p = (p \<in> {PhaseSucceeded, PhaseFailed, PhasePermanentlyFailed, PhaseCancelled, PhaseSuppressed})"

inductive lifecycle :: "int \<Rightarrow> life \<Rightarrow> life \<Rightarrow> bool" for m :: int where
  stay: "lifecycle m (p, c) (p, c)"
| init: "lifecycle m (PhaseNone, c) (PhasePending, c)"
| suppress: "lifecycle m (PhasePending, c) (PhaseSuppressed, c)"
| inject: "lifecycle m (PhasePending, c) (PhasePermanentlyFailed, c)"
| advance: "live p \<Longrightarrow> q \<in> {PhaseDispatched, PhaseRunning, PhaseSucceeded} \<Longrightarrow> lifecycle m (p, c) (q, c)"
| fail: "live p \<Longrightarrow> wrap32 (c + 1) < m \<Longrightarrow> lifecycle m (p, c) (PhaseFailed, wrap32 (c + 1))"
| exhaust: "live p \<Longrightarrow> m \<le> wrap32 (c + 1) \<Longrightarrow> lifecycle m (p, c) (PhasePermanentlyFailed, wrap32 (c + 1))"
| adopt: "lifecycle m (PhasePending, c) (PhaseFailed, c)"

inductive_cases lifecycle_elim: "lifecycle m (p, c) (q, d)"

definition life :: "RemediationJob \<Rightarrow> life" where
  "life j = (rj_Phase j, st_RetryCount (rj_Status j))"

text \<open>A status patch that the contract allows.\<close>

definition patch_ok :: "effect \<Rightarrow> bool" where
  "patch_ok e = (case e of PatchStatus b n \<Rightarrow> lifecycle (max_retries b) (life b) (life n) | _ \<Rightarrow> True)"

text \<open>
  The assumption about the API server: the answer to a patch carries the phase, the retry counter
  and the retry limit of the object that was sent, that is, no other writer changed them between
  the read and the patch.
\<close>

definition answers_agree :: "'w kube \<Rightarrow> bool" where
  "answers_agree K = ((\<forall>b n w j w'. run_state (k_patch_status K b n) w = (Inr j, w') \<longrightarrow> life j = life n \<and> max_retries j = max_retries n)
     \<and> (\<forall>b n w j w'. run_state (k_patch_rjob K b n) w = (Inr j, w') \<longrightarrow> life j = life n \<and> max_retries j = max_retries n))"

section \<open>The blocks respect the contract\<close>

lemma life_simps [simp]:
  "life (add_condition K c j) = life j" "life (set_label k v j) = life j"
  "life (set_phase p j) = (p, st_RetryCount (rj_Status j))"
  "max_retries (add_condition K c j) = max_retries j" "max_retries (set_label k v j) = max_retries j"
  "max_retries (set_phase p j) = max_retries j"
  by (simp_all add: life_def add_condition_def max_retries_def)

lemma patch_ok_other [simp]:
  "patch_ok (PatchRJob b n)" "patch_ok (CreateJob j)" "patch_ok (Event t a b' c)" "patch_ok (Metric x)"
  "patch_ok (DeleteRJob j')" "patch_ok (DeleteConfigMap ns n')" "patch_ok (CloseSink j'' u)" "patch_ok (CreateRJob q)"
  by (simp_all add: patch_ok_def)

lemma patch_ok_status [simp]: "patch_ok (PatchStatus b n) \<longleftrightarrow> lifecycle (max_retries b) (life b) (life n)"
  by (simp add: patch_ok_def)

lemma emits_event [gives_intros]: "A (Event (OnRJob j) t rs m) \<Longrightarrow> P () \<Longrightarrow> gives A P (event r j t rs m)"
  by (simp add: event_def gives_intros)

lemma sync_advance:
  "live p \<Longrightarrow> syncPhaseFromJob job \<noteq> PhaseFailed \<Longrightarrow> lifecycle m (p, c) (syncPhaseFromJob job, c)"
  by (rule lifecycle.advance) (auto simp: syncPhaseFromJob_def split: if_splits)

lemma lifecycle_adopt: "lifecycle m (PhasePending, c) (syncPhaseFromJob job, c)"
  by (cases "syncPhaseFromJob job = PhaseFailed") (auto intro: lifecycle.adopt sync_advance simp: live_def)

lemma adopt_existing_ok:
  "rj_Phase rjob = PhasePending \<Longrightarrow> emits patch_ok (adopt_existing r rjob job)"
  unfolding adopt_existing_def by (intro gives_intros) (auto simp: life_def lifecycle_adopt)

lemma dispatch_ok:
  assumes "rj_Phase rjob = PhasePending"
  shows "emits patch_ok (dispatch r rjob fs)"
  unfolding dispatch_def
  by (intro gives_intros adopt_existing_ok assms)
    (auto simp: assms life_def add_condition_def live_def intro: lifecycle.inject lifecycle.advance)

text \<open>What is known of the object that a patch returns.\<close>

definition keeps :: "RemediationJob \<Rightarrow> RemediationJob \<times> api_error option \<Rightarrow> bool" where
  "keeps n x = (life (fst x) = life n \<and> max_retries (fst x) = max_retries n)"

lemma patch_status_keeps:
  "answers_agree K \<Longrightarrow> A (PatchStatus b n) \<Longrightarrow> gives A (keeps n) (patch_status K b n)"
  by (rule gives_patch_status) (simp_all add: keeps_def answers_agree_def, metis)

lemma patch_rjob_keeps:
  "answers_agree K \<Longrightarrow> A (PatchRJob b n) \<Longrightarrow> gives A (keeps n) (patch_rjob K b n)"
  by (rule gives_patch_rjob) (simp_all add: keeps_def answers_agree_def, metis)

lemma transitionSuppressed_ok: "emits patch_ok (transitionSuppressed r j gid u)"
  unfolding transitionSuppressed_def
  by (intro gives_intros) (auto simp: life_def add_condition_def intro: lifecycle.suppress)

lemma suppress_loop_ok: "emits patch_ok (suppress_loop r grp peers)"
  by (induction peers) (auto intro!: gives_intros transitionSuppressed_ok)

lemma concurrencyGate_quiet:
  "emits (\<lambda>e. \<exists>m. e = Metric m) (concurrencyGate r)"
  unfolding concurrencyGate_def by (intro gives_intros) auto

lemma concurrencyGate_emits: "(\<And>m. A (Metric m)) \<Longrightarrow> emits A (concurrencyGate r)"
  by (rule gives_mono [OF concurrencyGate_quiet]) auto

lemma gated_dispatch_ok:
  "rj_Phase rjob = PhasePending \<Longrightarrow> emits patch_ok (gated_dispatch r rjob fs)"
  unfolding gated_dispatch_def by (intro gives_intros concurrencyGate_emits dispatch_ok) auto

lemma label_primary_ok:
  assumes "answers_agree K"
  shows "gives patch_ok (keeps rjob) (label_primary K gid rjob)"
  unfolding label_primary_def
  by (rule gives_mono [OF patch_rjob_keeps [OF assms]]) (auto simp: keeps_def)

lemma publish_group_ok:
  assumes "answers_agree K"
  shows "gives patch_ok (keeps rjob) (publish_group K gid rjob)"
proof -
  let ?n = "rjob\<lparr>rj_Status := (rj_Status rjob)\<lparr>st_CorrelationGroupID := gid\<rparr>\<rparr>"
  have n: "life ?n = life rjob" "max_retries ?n = max_retries rjob" by (simp_all add: life_def max_retries_def)
  have "gives patch_ok (keeps ?n) (patch_status K rjob ?n)"
    by (rule patch_status_keeps [OF assms]) (simp add: n lifecycle.stay [of _ "fst (life rjob)" "snd (life rjob)", simplified])
  then show ?thesis
    unfolding publish_group_def
  proof (rule gives_bind)
    fix x assume x: "keeps ?n x"
    have "gives patch_ok (keeps rjob) (label_primary K gid (fst x))"
      by (rule gives_mono [OF label_primary_ok [OF assms]]) (use x in \<open>auto simp: keeps_def n\<close>)
    with x show "gives patch_ok (keeps rjob) (case x of (rjob, e) \<Rightarrow>
        (case e of Some err \<Rightarrow> ret (rjob, Some err) | None \<Rightarrow> label_primary K gid rjob))"
      by (auto simp: keeps_def n intro!: gives_return split: prod.splits option.splits)
  qed
qed

lemma dispatch_primary_ok:
  assumes "answers_agree (rc_Client r)" "rj_Phase rjob = PhasePending"
  shows "emits patch_ok (dispatch_primary r rjob peers grp)"
proof -
  have tail: "emits patch_ok (case x of (j, e) \<Rightarrow> (case e of Some err \<Rightarrow> ret (Done, Some (Api err))
      | None \<Rightarrow> do { d \<leftarrow> dispatch r j fs; ret (Done, d) }))" if "keeps rjob x" for x fs
    using that assms(2) by (auto simp: keeps_def life_def intro!: gives_intros dispatch_ok split: prod.splits)
  show ?thesis
    unfolding dispatch_primary_def suppressCorrelatedPeers_def
    by (intro gives_Let gives_bind_any [OF suppress_loop_ok] gives_option gives_bind [OF publish_group_ok [OF assms(1)] tail])
      (auto intro: gives_return)
qed

lemma recover_group_ok:
  assumes "answers_agree (rc_Client r)" "rj_Phase rjob = PhasePending"
  shows "emits patch_ok (recover_group r rjob)"
proof -
  have lab: "gives patch_ok (keeps rjob) (if b then label_primary (rc_Client r) gid rjob else ret (rjob, None))" for b gid
    by (simp add: label_primary_ok [OF assms(1)] gives_return keeps_def)
  have tail: "emits patch_ok (case x of (j, e) \<Rightarrow> (case e of Some err \<Rightarrow> ret (Done, Some (Api err))
      | None \<Rightarrow> gated_dispatch r j fs))" if "keeps rjob x" for x fs
    using that assms(2) by (auto simp: keeps_def life_def intro!: gives_intros gated_dispatch_ok split: prod.splits)
  show ?thesis
    unfolding recover_group_def Let_def
    by (intro gives_bind_any [OF emits_calls(1)] gives_sum gives_bind [OF lab tail]) (auto intro: gives_return)
qed

lemma after_group_ok:
  "answers_agree (rc_Client r) \<Longrightarrow> emits patch_ok (after_group r rjob)"
  unfolding after_group_def by (intro gives_intros recover_group_ok) auto

lemma await_primary_quiet: "emits (\<lambda>_. False) (await_primary r rjob w grp)"
  unfolding await_primary_def by (intro gives_intros) auto

lemma pendingPeers_quiet: "emits (\<lambda>_. False) (pendingPeers r rjob)"
  unfolding pendingPeers_def by (intro gives_intros) auto

lemma window_hold_quiet: "emits (\<lambda>_. False) (window_hold r rjob w)"
  unfolding window_hold_def by (intro gives_intros) auto

lemma quiet: "emits (\<lambda>_. False) m \<Longrightarrow> emits A m"
  by (erule gives_mono) auto

lemma correlate_ok:
  assumes "answers_agree (rc_Client r)" "rj_Phase rjob = PhasePending"
  shows "emits patch_ok (correlate r rules rjob)"
  unfolding correlate_def
  by (intro gives_intros quiet [OF window_hold_quiet] quiet [OF pendingPeers_quiet] quiet [OF await_primary_quiet]
      after_group_ok dispatch_primary_ok assms) auto

text \<open>The failure path: the counter goes up by one, and the limit decides the phase.\<close>

lemma mark_failed_gives:
  assumes "rj_Phase old \<noteq> PhaseFailed"
  shows "gives A (\<lambda>j. max_retries j = max_retries old \<and> st_CompletedAt (rj_Status j) = st_CompletedAt (rj_Status old)
     \<and> life j = (if max_retries old \<le> wrap32 (st_RetryCount (rj_Status old) + 1) then PhasePermanentlyFailed else PhaseFailed,
                 wrap32 (st_RetryCount (rj_Status old) + 1)))
    (mark_failed K old (set_phase PhaseFailed old))"
  unfolding mark_failed_def Let_def
  by (intro gives_bind_any [OF emits_calls(1)] gives_return)
    (use assms in \<open>auto simp: life_def add_condition_def max_retries_def set_phase_def\<close>)

lemma mark_failed_ok:
  assumes "live (rj_Phase old)"
  shows "gives patch_ok (\<lambda>j. lifecycle (max_retries old) (life old) (life j)) (mark_failed K old (set_phase PhaseFailed old))"
proof (rule gives_mono [OF mark_failed_gives])
  show "rj_Phase old \<noteq> PhaseFailed" using assms by (auto simp: live_def)
qed (use assms in \<open>auto simp: life_def intro: lifecycle.exhaust lifecycle.fail\<close>)

lemma mark_terminal_ok:
  assumes "live (rj_Phase old)" "p = PhaseSucceeded \<or> p = PhaseFailed"
  shows "gives patch_ok (\<lambda>j. lifecycle (max_retries old) (life old) (life j)) (mark_terminal K old p (set_phase p old))"
proof -
  let ?P = "\<lambda>j. lifecycle (max_retries old) (life old) (life j)"
  have first: "gives patch_ok ?P (if p = PhaseFailed then mark_failed K old (set_phase p old)
      else do { now \<leftarrow> ask (k_now K); ret (add_condition K (mk_condition ConditionJobComplete (phase_string p) [] now) (set_phase p old)) })"
  proof (rule gives_if)
    assume "p \<noteq> PhaseFailed"
    with assms have "?P (add_condition K c (set_phase p old))" for c
      by (simp add: life_def [of old] lifecycle.advance)
    then show "gives patch_ok ?P (do { now \<leftarrow> ask (k_now K);
        ret (add_condition K (mk_condition ConditionJobComplete (phase_string p) [] now) (set_phase p old)) })"
      by (intro gives_bind_any [OF emits_calls(1)] gives_return)
  qed (simp add: mark_failed_ok assms(1))
  have second: "gives patch_ok ?P (case st_CompletedAt (rj_Status j) of
        None \<Rightarrow> do { now \<leftarrow> ask (k_now K); ret (j\<lparr>rj_Status := (rj_Status j)\<lparr>st_CompletedAt := Some now\<rparr>\<rparr>) }
      | Some _ \<Rightarrow> ret j)" if "?P j" for j
    using that by (auto simp: life_def intro!: gives_bind_any [OF emits_calls(1)] gives_return split: option.split)
  have third: "gives patch_ok ?P (do { (case (st_CompletedAt (rj_Status old), st_DispatchedAt (rj_Status j), st_CompletedAt (rj_Status j)) of
        (None, Some d, Some c) \<Rightarrow> emit (Metric (ObserveJobDuration (fp12 j) (job_outcome p j) d c)) | _ \<Rightarrow> ret ()); ret j })"
    if "?P j" for j
    using that by (intro gives_bind_any gives_return) (auto intro!: gives_intros split: option.splits)
  show ?thesis
    unfolding mark_terminal_def by (rule gives_bind [OF first]) (rule gives_bind [OF second third])
qed

lemma fetchDryRunReport_quiet:
  "emits (\<lambda>e. \<exists>ns n. e = DeleteConfigMap ns n) (fetchDryRunReport r rjob)"
  unfolding fetchDryRunReport_def by (intro gives_intros) auto

lemma sync_event_quiet: "emits (\<lambda>e. \<exists>t a b m. e = Event t a b m) (sync_event r job p j)"
  unfolding sync_event_def by (cases p) (auto intro!: gives_intros)

lemma sync_owned_ok:
  assumes "live (rj_Phase old)"
  shows "emits patch_ok (sync_owned r old job)"
proof -
  let ?P = "\<lambda>j. lifecycle (max_retries old) (life old) (life j)" and ?p = "syncPhaseFromJob job"
  have phase: "gives patch_ok ?P (if ?p = PhaseSucceeded \<or> ?p = PhaseFailed
      then mark_terminal (rc_Client r) old ?p (set_phase ?p old) else ret (set_phase ?p old))"
  proof (rule gives_if)
    assume "\<not> (?p = PhaseSucceeded \<or> ?p = PhaseFailed)"
    then show "gives patch_ok ?P (ret (set_phase ?p old))"
      using assms by (intro gives_return) (simp add: life_def [of old] sync_advance)
  qed (rule mark_terminal_ok [OF assms])
  have report: "gives patch_ok ?P (if b then do { m \<leftarrow> fetchDryRunReport r j;
        ret (j\<lparr>rj_Status := (rj_Status j)\<lparr>st_Message := m\<rparr>\<rparr>) } else ret j)" if "?P j" for j b
    using that by (intro gives_if gives_bind_any gives_return gives_mono [OF fetchDryRunReport_quiet]) (auto simp: life_def)
  have jobref: "?P (if b then j\<lparr>rj_Status := (rj_Status j)\<lparr>st_JobRef := n\<rparr>\<rparr> else j)" if "?P j" for j b n
    using that by (simp add: life_def)
  have last: "emits patch_ok (do { (j, e) \<leftarrow> patch_status (rc_Client r) old j;
      (case e of Some err \<Rightarrow> ret (Done, Some (Api err)) | None \<Rightarrow> do { sync_event r job ?p j; ret (Done, None) }) })"
    if "?P j" for j
    using that by (intro gives_intros gives_mono [OF sync_event_quiet]) auto
  show ?thesis
    unfolding sync_owned_def Let_def
    by (rule gives_bind [OF phase], rule gives_bind [OF report [OF jobref]], assumption, rule last)
qed

lemma drive_ok:
  assumes "answers_agree (rc_Client r)" "live (rj_Phase rjob)"
  shows "emits patch_ok (drive r rjob)"
proof -
  have pend: "rj_Phase rjob = PhasePending" if "\<not> (rj_Phase rjob = PhaseDispatched \<or> rj_Phase rjob = PhaseRunning)"
    using that assms(2) by (auto simp: live_def)
  show ?thesis
    unfolding drive_def
    by (intro gives_intros sync_owned_ok correlate_ok gated_dispatch_ok assms pend TrueI)
qed

lemma succeeded_step_ok: "emits patch_ok (succeeded_step r rjob)"
  unfolding succeeded_step_def after_delete_def
  by (intro gives_intros) (auto simp: life_def lifecycle.stay)

lemma record_pr_ok:
  "answers_agree (rc_Client r) \<Longrightarrow> gives patch_ok (\<lambda>j. life j = life rjob) (record_pr r rjob)"
  unfolding record_pr_def Let_def
  by (intro gives_if gives_bind_any gives_bind [OF patch_status_keeps])
    (auto simp: keeps_def life_def [of rjob] lifecycle.stay intro!: gives_intros)

lemma by_phase_ok:
  assumes "answers_agree (rc_Client r)" "rj_Phase rjob \<noteq> PhaseNone"
  shows "emits patch_ok (by_phase r rjob)"
  using assms unfolding by_phase_def
  by (cases "rj_Phase rjob") (auto intro: drive_ok succeeded_step_ok gives_return simp: live_def)

lemma Reconcile_ok:
  assumes "answers_agree (rc_Client r)"
  shows "emits patch_ok (Reconcile r ns name)"
  unfolding Reconcile_def init_phase_def
  by (intro gives_bind_any gives_sum gives_bind [OF record_pr_ok [OF assms]] gives_if by_phase_ok assms)
    (auto simp: life_def intro!: gives_intros lifecycle.init)

section \<open>Consequences for sequences of reconciles\<close>

text \<open>
  \<open>life_patched r x y\<close>: some reconcile, in some state of the world, writes a status patch that
  takes a job from the abstract state \<open>x\<close> to \<open>y\<close>.
\<close>

inductive life_patched :: "'w reconciler \<Rightarrow> life \<Rightarrow> life \<Rightarrow> bool" for r :: "'w reconciler" where
  "run_state (Reconcile r ns name) s = (a, s') \<Longrightarrow> trace s' = trace s @ es \<Longrightarrow> PatchStatus b n \<in> set es \<Longrightarrow>
     life_patched r (life b) (life n)"

lemma Reconcile_patches:
  assumes "answers_agree (rc_Client r)" "run_state (Reconcile r ns name) s = (a, s')" "trace s' = trace s @ es"
    and "PatchStatus b n \<in> set es"
  shows "lifecycle (max_retries b) (life b) (life n)"
  using givesD(2) [OF Reconcile_ok [OF assms(1)] assms(2)] assms(3,4)
  by (fastforce simp: list_all_iff)

lemma life_patched_lifecycle:
  "life_patched r x y \<Longrightarrow> answers_agree (rc_Client r) \<Longrightarrow> \<exists>m. lifecycle m x y"
  by (erule life_patched.cases) (blast dest: Reconcile_patches)

lemma lifecycle_terminal: "lifecycle m (p, c) y \<Longrightarrow> terminal p \<Longrightarrow> y = (p, c)"
  by (erule lifecycle.cases) (auto simp: terminal_def live_def)

lemma lifecycle_retry:
  assumes "lifecycle m (p, c) (q, d)" "c = 0 \<or> c = 1 \<and> p \<in> {PhaseFailed, PhasePermanentlyFailed}"
  shows "d = 0 \<or> d = 1 \<and> q \<in> {PhaseFailed, PhasePermanentlyFailed}"
proof -
  have "wrap32 1 = 1" by (simp add: wrap32_def)
  with assms show ?thesis by (auto elim!: lifecycle_elim simp: live_def)
qed

section \<open>Agent jobs\<close>

definition creates_job :: "effect \<Rightarrow> bool" where
  "creates_job e = (case e of CreateJob _ \<Rightarrow> True | _ \<Rightarrow> False)"

lemma creates_job_simps [simp]:
  "creates_job (CreateJob j)" "\<not> creates_job (PatchStatus b n)" "\<not> creates_job (PatchRJob b n)"
  "\<not> creates_job (Event t a b' c)" "\<not> creates_job (Metric x)" "\<not> creates_job (DeleteRJob j')"
  "\<not> creates_job (DeleteConfigMap ns n')" "\<not> creates_job (CloseSink j'' u)" "\<not> creates_job (CreateRJob q)"
  by (simp_all add: creates_job_def)

abbreviation no_job :: "effect \<Rightarrow> bool" where
  "no_job \<equiv> \<lambda>e. \<not> creates_job e"

lemma no_job_blocks:
  "emits no_job (transitionSuppressed r j g u)"
  "emits no_job (suppressCorrelatedPeers r peers grp)"
  "emits no_job (concurrencyGate r)"
  "emits no_job (adopt_existing r j job)"
  "emits no_job (publish_group K g j)"
  "emits no_job (label_primary K g j)"
  "emits no_job (record_pr r j)"
  "emits no_job (succeeded_step r j)"
  "emits no_job (init_phase r j)"
proof -
  show t: "emits no_job (transitionSuppressed r j g u)" for r :: "'a reconciler" and j g u
    unfolding transitionSuppressed_def by (intro gives_intros) auto
  show "emits no_job (suppressCorrelatedPeers r peers grp)"
    unfolding suppressCorrelatedPeers_def by (induction peers) (auto intro!: gives_intros t)
qed (unfold adopt_existing_def publish_group_def label_primary_def record_pr_def succeeded_step_def
    after_delete_def init_phase_def, (intro gives_intros concurrencyGate_emits; simp)+)

lemma no_job_sync: "emits no_job (sync_owned r old job)"
proof -
  have "emits no_job (mark_terminal K old p j)" for K :: "'a kube" and p j
    unfolding mark_terminal_def mark_failed_def by (intro gives_intros) auto
  then show ?thesis
    unfolding sync_owned_def Let_def
    by (intro gives_intros gives_mono [OF fetchDryRunReport_quiet] gives_mono [OF sync_event_quiet]) auto
qed

lemma dispatch_spends: "spends creates_job (\<lambda>_. 1) (dispatch r rjob fs)"
  unfolding dispatch_def
  by (intro spends_case(1,3), (intro spends_none gives_intros; simp), (intro spends_none gives_intros; simp),
      intro spends_last [OF spends_act] gives_intros emits_event) (auto intro: no_job_blocks)

lemma gated_dispatch_spends: "spends creates_job (\<lambda>_. 1) (gated_dispatch r rjob fs)"
  unfolding gated_dispatch_def
  by (rule spends_skip [OF no_job_blocks(3)], intro spends_case spends_last [OF dispatch_spends] spends_none gives_intros) auto

lemma dispatch_primary_spends: "spends creates_job (\<lambda>_. 1) (dispatch_primary r rjob peers grp)"
  unfolding dispatch_primary_def Let_def
  by (rule spends_skip [OF no_job_blocks(2)], rule spends_case(2), rule spends_skip [OF no_job_blocks(5)],
      intro spends_case spends_last [OF dispatch_spends] spends_none gives_intros)
    (auto intro!: spends_none gives_intros)

lemma recover_group_spends: "spends creates_job (\<lambda>_. 1) (recover_group r rjob)"
proof -
  have l: "emits no_job (if b then label_primary K gid rjob else ret (rjob, None))" for b and K :: "'a kube" and gid
    by (simp add: no_job_blocks gives_return)
  show ?thesis
    unfolding recover_group_def Let_def
    by (rule spends_skip [OF emits_calls(1)], rule spends_case(3), (rule spends_none, intro gives_intros, simp),
        rule spends_skip [OF l], intro spends_case gated_dispatch_spends spends_none gives_intros) auto
qed

lemma after_group_spends: "spends creates_job (case_option 0 (\<lambda>_. 1)) (after_group r rjob)"
  unfolding after_group_def
  by (intro spends_case spends_last [OF recover_group_spends] spends_none gives_intros) auto

lemma spends_return: "spends A b (State_Monad.return a)"
  by (intro spends_none gives_intros) simp

lemma correlate_spends: "spends creates_job (case_option 0 (\<lambda>_. 1)) (correlate r rules rjob)"
proof -
  have grp: "spends creates_job (case_option 0 (\<lambda>_. 1)) (if cg_PrimaryUID grp \<noteq> rj_UID rjob
       then do { w \<leftarrow> await_primary r rjob window grp;
                 case w of Some x \<Rightarrow> ret (Some x) | None \<Rightarrow> after_group r rjob }
       else do { x \<leftarrow> dispatch_primary r rjob peers grp; ret (Some x) })" for grp window peers
    by (intro spends_case(1,2) spends_skip [OF quiet [OF await_primary_quiet]] after_group_spends spends_return
        spends_last [OF dispatch_primary_spends] gives_return) simp
  show ?thesis
    unfolding correlate_def Let_def
    by (intro spends_case(2,3) spends_return spends_skip [OF quiet [OF window_hold_quiet]]
        spends_skip [OF quiet [OF pendingPeers_quiet]] spends_skip [OF emits_calls(1)] after_group_spends grp)
qed

lemma drive_spends: "spends creates_job (\<lambda>_. 1) (drive r rjob)"
proof -
  have c: "spends creates_job (case_option 0 (\<lambda>_. 1))
      (case rc_Correlator r of None \<Rightarrow> ret None | Some rules \<Rightarrow> correlate r rules rjob)"
    by (intro spends_case(2) spends_return correlate_spends)
  have e: "emits no_job (ret x)" for x :: reconcile_result by (simp add: gives_return)
  show ?thesis
    unfolding drive_def
    by (intro spends_skip [OF emits_calls(1)] spends_case(1,3,5) spends_return spends_none [OF no_job_sync]
        spends_either [OF c e gated_dispatch_spends])
qed

lemma no_job_unless_pending:
  assumes "rj_Phase rjob \<noteq> PhasePending" "rj_Phase rjob \<noteq> PhaseNone"
  shows "emits no_job (by_phase r rjob)"
proof -
  have "emits no_job (drive r rjob)" if "rj_Phase rjob = PhaseDispatched \<or> rj_Phase rjob = PhaseRunning"
    unfolding drive_def using that by (intro gives_intros no_job_sync) auto
  with assms show ?thesis
    unfolding by_phase_def by (cases "rj_Phase rjob") (auto intro: gives_return no_job_blocks)
qed

lemma by_phase_spends: "spends creates_job (\<lambda>_. 1) (by_phase r rjob)"
  unfolding by_phase_def
  by (cases "rj_Phase rjob") (auto intro: drive_spends spends_return spends_none no_job_blocks simp del: One_nat_def)

section \<open>Properties: phases and jobs\<close>

text \<open>A reconciler over a cluster that holds one job and accepts every write, for evaluation.\<close>

definition sample_config :: Config where
  "sample_config = default_config ''org/repo'' ''k8s'' ''img'' ''mechanic'' ''agent''"

definition sample_reconciler :: "RemediationJob \<Rightarrow> unit reconciler" where
  "sample_reconciler j = \<lparr>
     rc_Client = (empty_cluster 100)\<lparr>k_get_rjob := \<lambda>ns n. ret (Inr j)\<rparr>,
     rc_Build = (\<lambda>j fs. Inl (Err ''no builder'')),
     rc_Cfg = sample_config, rc_Recorder = True, rc_APIReader = None, rc_Correlator = None\<rparr>"

lemma sample_answers_agree: "answers_agree (rc_Client (sample_reconciler j))"
  by (simp add: answers_agree_def sample_reconciler_def empty_cluster_def)

text \<open>
  C2. The controller refines the life cycle: every status patch that a reconcile writes, on every
  path and for every answer of the API server, is a step of \<open>lifecycle\<close>, provided the answer to a
  patch reports the phase that was sent (\<open>answers_agree\<close>). In particular no patch changes the phase or the
  counter of a job that was read in a terminal phase, only a pending job is suppressed, and the retry counter
  changes only by going up by one together with the phase \<open>Failed\<close> or \<open>PermanentlyFailed\<close> (the steps \<open>fail\<close> and
  \<open>exhaust\<close>). The converse does not hold: a pending job that finds its agent job already failed becomes
  \<open>Failed\<close> without counting the failure (the step \<open>adopt\<close>).
\<close>

theorem reconcile_refines_lifecycle:
  assumes "answers_agree (rc_Client r)"
  shows "wp (Reconcile r ns name) (\<lambda>_ s'. \<exists>es. trace s' = trace s @ es
    \<and> (\<forall>b n. PatchStatus b n \<in> set es \<longrightarrow> lifecycle (max_retries b) (life b) (life n))) s"
proof (rule wpI)
  fix a s' assume r: "run_state (Reconcile r ns name) s = (a, s')"
  obtain es where "trace s' = trace s @ es" using givesD(2) [OF Reconcile_ok [OF assms] r] by blast
  with Reconcile_patches [OF assms r] show "\<exists>es. trace s' = trace s @ es
    \<and> (\<forall>b n. PatchStatus b n \<in> set es \<longrightarrow> lifecycle (max_retries b) (life b) (life n))" by blast
qed

theorem reconcile_refines_lifecycle_witness:
  "wp (Reconcile (sample_reconciler (sample_rjob ''a'' ''Pod'' ''web'' 1 PhaseNone)) ''ns'' ''a'')
     (\<lambda>_ s'. \<exists>es. trace s' = es \<and> (\<forall>b n. PatchStatus b n \<in> set es \<longrightarrow> lifecycle (max_retries b) (life b) (life n)))
     \<lparr>world = (), trace = []\<rparr>"
  using reconcile_refines_lifecycle [OF sample_answers_agree, where s = "\<lparr>world = (), trace = []\<rparr>"] by simp

text \<open>
  C30. The retry counter of a job never exceeds one, whatever its \<open>MaxRetries\<close>: since a failed job is
  terminal for the controller, no sequence of its status patches starting from a fresh job counts a
  second failure, so a limit of two or more attempts is never reached this way. As for the life cycle, the
  answers to patches are assumed to report what was sent (\<open>answers_agree\<close>).
\<close>

theorem retry_count_at_most_one:
  assumes "answers_agree (rc_Client r)" "(life_patched r)\<^sup>*\<^sup>* (PhaseNone, 0) (p, c)"
  shows "c = 0 \<or> c = 1 \<and> p \<in> {PhaseFailed, PhasePermanentlyFailed}"
proof -
  have "\<forall>p c. y = (p, c) \<longrightarrow> c = 0 \<or> c = 1 \<and> p \<in> {PhaseFailed, PhasePermanentlyFailed}"
    if "(life_patched r)\<^sup>*\<^sup>* (PhaseNone, 0) y" for y
    using that
  proof (induction rule: rtranclp_induct)
    case (step y z)
    obtain p c q d where yz: "y = (p, c)" "z = (q, d)" by (cases y; cases z)
    obtain m where "lifecycle m (p, c) (q, d)"
      using life_patched_lifecycle [OF step.hyps(2) assms(1)] yz by blast
    from lifecycle_retry [OF this] step.IH yz show ?case by blast
  qed simp
  with assms(2) show ?thesis by blast
qed

theorem retry_count_at_most_one_witness:
  "{c. \<exists>p. (life_patched (sample_reconciler (sample_rjob ''a'' ''Pod'' ''web'' 1 PhaseNone)))\<^sup>*\<^sup>* (PhaseNone, 0) (p, c)} \<subseteq> {0, 1}"
  using retry_count_at_most_one [OF sample_answers_agree] by blast

text \<open>
  C5. A reconcile creates at most one agent job, on every path and for every answer of the API server.
\<close>

theorem reconcile_one_job:
  "wp (Reconcile r ns name) (\<lambda>_ s'. \<exists>es. trace s' = trace s @ es \<and> length (filter creates_job es) \<le> 1) s"
proof -
  have "spends creates_job (\<lambda>_. 1) (Reconcile r ns name)"
    unfolding Reconcile_def
    by (intro spends_skip [OF emits_calls(1)] spends_case(1,3) spends_return spends_skip [OF no_job_blocks(7)]
        spends_none [OF no_job_blocks(9)] by_phase_spends)
  then show ?thesis by (simp add: spends_def)
qed

text \<open>
  C6. No second agent job for a job already under way or finished: once the phase is anything but
  \<open>Pending\<close>, a reconcile creates no agent job, even if the owned job has been garbage-collected.
\<close>

theorem no_job_outside_pending:
  assumes "rj_Phase rjob \<noteq> PhasePending" "rj_Phase rjob \<noteq> PhaseNone"
  shows "wp (by_phase r rjob) (\<lambda>_ s'. \<exists>es. trace s' = trace s @ es \<and> (\<forall>j. CreateJob j \<notin> set es)) s"
  by (rule wpI, drule givesD(2) [OF no_job_unless_pending [OF assms]])
    (fastforce simp: list_all_iff)

theorem no_job_outside_pending_witness:
  "wp (by_phase (sample_reconciler (sample_rjob ''a'' ''Pod'' ''web'' 1 PhaseRunning)) (sample_rjob ''a'' ''Pod'' ''web'' 1 PhaseRunning))
     (\<lambda>_ s'. \<exists>es. trace s' = [] @ es \<and> (\<forall>j. CreateJob j \<notin> set es)) \<lparr>world = (), trace = []\<rparr>"
  using no_job_outside_pending [of "sample_rjob ''a'' ''Pod'' ''web'' 1 PhaseRunning"
      "sample_reconciler (sample_rjob ''a'' ''Pod'' ''web'' 1 PhaseRunning)" "\<lparr>world = (), trace = []\<rparr>"]
  by (simp add: sample_defs)

end
