(* ===== verification/Progress.thy ===== *)
theory Progress
  imports Source_Safety Job_Builder
begin

text \<open>
  What the two reconcilers achieve when nothing stands in the way: a finding that persists becomes a
  \<open>RemediationJob\<close> once its window has passed, and a pending job gets its agent job. The answers of the
  environment are hypotheses, each of the form that a call answers a given value.
\<close>

section \<open>Answers\<close>

text \<open>
  \<open>responds I c a N\<close>: in every world that satisfies \<open>I\<close>, the call \<open>c\<close> answers \<open>a\<close> and leaves a world that
  satisfies \<open>N\<close>. A call that keeps \<open>I\<close> merely answers.
\<close>

definition responds :: "('w \<Rightarrow> bool) \<Rightarrow> ('w, 'a) state \<Rightarrow> 'a \<Rightarrow> ('w \<Rightarrow> bool) \<Rightarrow> bool" where
  "responds I c a N = (\<forall>w. I w \<longrightarrow> fst (run_state c w) = a \<and> N (snd (run_state c w)))"

abbreviation answers_in :: "('w \<Rightarrow> bool) \<Rightarrow> ('w, 'a) state \<Rightarrow> 'a \<Rightarrow> bool" where
  "answers_in I c a \<equiv> responds I c a I"

abbreviation answers :: "('w, 'a) state \<Rightarrow> 'a \<Rightarrow> bool" where
  "answers c a \<equiv> responds (\<lambda>_. True) c a (\<lambda>_. True)"

lemma respondsD: "responds I c a N \<Longrightarrow> run_state c w = (x, w') \<Longrightarrow> I w \<Longrightarrow> x = a \<and> N w'"
  by (metis responds_def fst_conv snd_conv)

lemma answersD: "answers c a \<Longrightarrow> run_state c w = (x, w') \<Longrightarrow> x = a"
  by (simp add: respondsD)

lemma responds_ret [simp]: "answers_in I (ret a) a" "answers (ret a) b \<longleftrightarrow> a = b"
  by (simp_all add: responds_def)

lemma responds_bind: "responds I c x M \<Longrightarrow> responds M (k x) y N \<Longrightarrow> responds I (Monad_Syntax.bind c k) y N"
  by (simp add: responds_def split_def)

lemma wp_responds: "responds I c a N \<Longrightarrow> I (world s) \<Longrightarrow> (\<And>w. N w \<Longrightarrow> Q a (s\<lparr>world := w\<rparr>)) \<Longrightarrow> wp (ask c) Q s"
  by (auto simp: wp_ask dest: respondsD)

text \<open>A call that keeps \<open>I\<close>, whatever it answers.\<close>

definition keeps :: "('w \<Rightarrow> bool) \<Rightarrow> ('w, 'a) state \<Rightarrow> bool" where
  "keeps I c = (\<forall>w. I w \<longrightarrow> I (snd (run_state c w)))"

lemma keepsD: "keeps I c \<Longrightarrow> run_state c w = (x, w') \<Longrightarrow> I w \<Longrightarrow> I w'"
  by (metis keeps_def snd_conv)

lemma answers_keeps: "answers_in I c a \<Longrightarrow> keeps I c"
  by (simp add: responds_def keeps_def)

section \<open>From a finding to a job\<close>

text \<open>
  Nothing stands in the way of the finding \<open>f\<close> of the object \<open>obj\<close>, in the worlds \<open>I\<close> in which the clock
  shows \<open>t\<close>: the configuration admits it, its namespace is not skipped, no job covers or supersedes
  it and the checks pass.
\<close>

definition unobstructed :: "('w \<Rightarrow> bool) \<Rightarrow> time \<Rightarrow> ('w, 'o) source_reconciler \<Rightarrow> string \<Rightarrow> string \<Rightarrow> 'o \<Rightarrow> Finding \<Rightarrow> string \<Rightarrow> bool" where
  "unobstructed I t r name ns obj f fp =
     (let K = pr_Client r; cfg = pr_Cfg r in
      answers_in I (k_now K) t
      \<and> answers_in I (pr_Get r name ns) (Inr obj) \<and> answers_in I (pr_ExtractFinding r obj) (Inr (Some f))
      \<and> FindingFingerprint f = Inr fp \<and> admissible cfg f
      \<and> (f_ChainDepth f \<le> 0 \<or> pr_CircuitBreaker r = None)
      \<and> mget (pr_Annotations r obj) AnnotationPriority \<noteq> ''critical''
      \<and> (f_Namespace f = [] \<or> (\<exists>as. answers_in I (k_get_namespace K (f_Namespace f)) (Inr as) \<and> \<not> ShouldSkip as t))
      \<and> (\<exists>js. answers_in I (k_list_rjobs K (cfg_AgentNamespace cfg) [(fingerprint_label, take 12 fp)]) (Inr js)
            \<and> list_all (\<lambda>j. sp_Fingerprint (rj_Spec j) \<noteq> fp) js)
      \<and> (f_ParentObject f = [] \<or>
           (\<exists>ps. answers_in I (k_list_rjobs K (cfg_AgentNamespace cfg) watcher_labels) (Inr ps) \<and> \<not> list_ex (supersedes f) ps))
      \<and> (\<forall>check. pr_ReadinessChecker r = Some check \<longrightarrow> answers_in I check None))"

lemma no_annotations [simp]: "\<not> ShouldSkip Map.empty t"
  by (simp add: ShouldSkip_def mget_def)

text \<open>Passing a gate that lets the finding through.\<close>

lemma wp_unless_done_pass:
  "wp g (\<lambda>x s'. x = None \<and> P s') s \<Longrightarrow> (\<And>s'. P s' \<Longrightarrow> wp k Q s') \<Longrightarrow> wp (unless_done g k) Q s"
  unfolding unless_done_def wp_bind by (erule wp_mono) (simp add: wp_simps)

text \<open>A state reached without touching the first sightings or the trace, in a world \<open>I\<close>.\<close>

definition unmarked :: "('w \<Rightarrow> bool) \<Rightarrow> 'w psys \<Rightarrow> 'w psys \<Rightarrow> bool" where
  "unmarked I s s' = (firstSeen s' = firstSeen s \<and> initOnce s' = initOnce s \<and> trace s' = trace s \<and> I (world s'))"

lemma unmarked_trans: "unmarked I s s' \<Longrightarrow> unmarked I s' s'' \<Longrightarrow> unmarked I s s''"
  by (simp add: unmarked_def)

lemma wp_answer: "answers_in I c a \<Longrightarrow> I (world s) \<Longrightarrow> wp (ask c) (\<lambda>x s'. x = a \<and> unmarked I s s') s"
  by (erule wp_responds) (simp_all add: unmarked_def)

lemma wp_clock: "unobstructed I t r name ns obj f fp \<Longrightarrow> I (world s) \<Longrightarrow> wp (now r) (\<lambda>x s'. x = t \<and> unmarked I s s') s"
  unfolding now_def by (rule wp_answer) (simp_all add: unobstructed_def Let_def)

text \<open>Every gate before the window lets the finding through.\<close>

lemma first_gates_pass:
  assumes "unobstructed I t r name ns obj f fp" "I (world s)"
  shows "wp (text_gate r (f_Errors f)) (\<lambda>x s'. x = None \<and> unmarked I s s') s"
    "wp (text_gate r (f_Details f)) (\<lambda>x s'. x = None \<and> unmarked I s s') s"
    "wp (namespace_gate r f) (\<lambda>x s'. x = None \<and> unmarked I s s') s"
    "wp (severity_gate r f) (\<lambda>x s'. x = None \<and> unmarked I s s') s"
    "wp (depth_gate r f) (\<lambda>x s'. x = None \<and> unmarked I s s') s"
proof -
  have a: "admissible (pr_Cfg r) f" "f_ChainDepth f \<le> 0 \<or> pr_CircuitBreaker r = None"
    using assms(1) by (simp_all add: unobstructed_def Let_def)
  have low: "MeetsSeverityThreshold sev SeverityLow" for sev
    by (simp add: MeetsSeverityThreshold_def SeverityLevel_def severityOrder_def severity_defs)
  show "wp (text_gate r (f_Errors f)) (\<lambda>x s'. x = None \<and> unmarked I s s') s"
    "wp (text_gate r (f_Details f)) (\<lambda>x s'. x = None \<and> unmarked I s s') s"
    using a(1) assms(2) by (auto simp: text_gate_def admissible_def wp_simps unmarked_def)
  show "wp (severity_gate r f) (\<lambda>x s'. x = None \<and> unmarked I s s') s"
    using a(1) assms(2) by (auto simp: severity_gate_def admissible_def wp_simps unmarked_def low)
  show "wp (depth_gate r f) (\<lambda>x s'. x = None \<and> unmarked I s s') s"
    using a assms(2) by (auto simp: depth_gate_def admissible_def wp_simps unmarked_def)
  show "wp (namespace_gate r f) (\<lambda>x s'. x = None \<and> unmarked I s s') s"
  proof (cases "f_Namespace f = []")
    case False
    then obtain as where as: "answers_in I (k_get_namespace (pr_Client r) (f_Namespace f)) (Inr as)" "\<not> ShouldSkip as t"
      using assms(1) by (auto simp: unobstructed_def Let_def)
    have clk: "answers_in I (k_now (pr_Client r)) t" using assms(1) by (simp add: unobstructed_def Let_def)
    show ?thesis
      using a(1) assms(2) as(2)
      by (auto simp: namespace_gate_def admissible_def now_def wp_simps unmarked_def dest!: respondsD [OF as(1)] respondsD [OF clk])
  qed (use assms(2) in \<open>simp add: namespace_gate_def wp_simps unmarked_def\<close>)
qed

lemma wp_dedup_other:
  "list_all (\<lambda>j. sp_Fingerprint (rj_Spec j) \<noteq> fp) js \<Longrightarrow> wp (dedup_loop r fp js) (\<lambda>x s'. x = None \<and> s' = s) s"
  by (induction js) (simp_all add: wp_simps)

lemma last_gates_pass:
  assumes "unobstructed I t r name ns obj f fp" "I (world s)"
  shows "wp (dedup_gate r fp) (\<lambda>x s'. x = None \<and> unmarked I s s') s"
    "wp (parent_gate r f) (\<lambda>x s'. x = None \<and> unmarked I s s') s"
    "wp (readiness_gate r) (\<lambda>x s'. x = None \<and> unmarked I s s') s"
proof -
  from assms(1) obtain js where js: "answers_in I (k_list_rjobs (pr_Client r) (cfg_AgentNamespace (pr_Cfg r)) [(fingerprint_label, take 12 fp)]) (Inr js)"
      "list_all (\<lambda>j. sp_Fingerprint (rj_Spec j) \<noteq> fp) js"
    and check: "\<And>check. pr_ReadinessChecker r = Some check \<Longrightarrow> answers_in I check None"
    by (auto simp: unobstructed_def Let_def)
  show "wp (dedup_gate r fp) (\<lambda>x s'. x = None \<and> unmarked I s s') s"
    using assms(2) unfolding dedup_gate_def
    by (auto simp: wp_simps unmarked_def dest!: respondsD [OF js(1)] intro!: wp_mono [OF wp_dedup_other [OF js(2)]])
  show "wp (parent_gate r f) (\<lambda>x s'. x = None \<and> unmarked I s s') s"
  proof (cases "f_ParentObject f = []")
    case False
    then obtain ps where ps: "answers_in I (k_list_rjobs (pr_Client r) (cfg_AgentNamespace (pr_Cfg r)) watcher_labels) (Inr ps)"
        "\<not> list_ex (supersedes f) ps"
      using assms(1) by (auto simp: unobstructed_def Let_def)
    then show ?thesis
      using assms(2) False by (auto simp: parent_gate_def wp_simps unmarked_def dest!: respondsD [OF ps(1)])
  qed (use assms(2) in \<open>simp add: parent_gate_def wp_simps unmarked_def\<close>)
  show "wp (readiness_gate r) (\<lambda>x s'. x = None \<and> unmarked I s s') s"
    using assms(2) by (cases "pr_ReadinessChecker r") (auto simp: readiness_gate_def wp_simps unmarked_def dest!: respondsD [OF check])
qed

text \<open>The reconcile reaches the window with the map and the trace as they were.\<close>

lemma wp_reconcile_to_admit:
  assumes "unobstructed I t r name ns obj f fp" "I (world s)"
    and "\<And>s'. unmarked I s s' \<Longrightarrow> wp (admit r name ns obj f fp) Q s'"
  shows "wp (reconcile_object r name ns) Q s"
proof -
  have a: "answers_in I (pr_Get r name ns) (Inr obj)" "answers_in I (pr_ExtractFinding r obj) (Inr (Some f))" "FindingFingerprint f = Inr fp"
    using assms(1) by (simp_all add: unobstructed_def Let_def)
  have fp: "\<not> length fp < 12" using a(3) by (auto simp: FindingFingerprint_def split: option.splits)
  have w: "I (world s')" if "unmarked I s s'" for s' using that by (simp add: unmarked_def)
  have step: "wp (unless_done g k) Q s1" if "unmarked I s s1" "wp g (\<lambda>x s'. x = None \<and> unmarked I s1 s') s1"
      "\<And>s'. unmarked I s s' \<Longrightarrow> wp k Q s'" for g k s1
    by (rule wp_unless_done_pass [OF that(2)]) (rule that(3), erule unmarked_trans [OF that(1)])
  have h: "wp (handle_finding r name ns obj f) Q s1" if "unmarked I s s1" for s1
    unfolding handle_finding_def a(3) sum.case if_not_P [OF fp]
    by (rule step [OF that first_gates_pass(1)], rule assms(1), rule w, rule that,
        (rule step, assumption, rule first_gates_pass, rule assms(1), erule w)+, rule assms(3))
  show ?thesis
    unfolding reconcile_object_def wp_bind
    by (rule wp_mono [OF wp_answer [OF a(1) assms(2)]])
      (auto simp: wp_simps unmarked_def dest!: respondsD [OF a(2)] intro!: h)
qed

text \<open>The window: the first visit records the sighting, a visit between one and two windows later passes.\<close>

definition sighted :: "Config \<Rightarrow> string \<Rightarrow> time \<Rightarrow> 'w psys \<Rightarrow> bool" where
  "sighted cfg fp t s = (initOnce s \<and> bm_ttl (firstSeen s) = 2 * cfg_StabilisationWindow cfg
     \<and> map_of (bm_data (firstSeen s)) fp = Some t)"

definition unsighted :: "Config \<Rightarrow> string \<Rightarrow> 'w psys \<Rightarrow> bool" where
  "unsighted cfg fp s = (initOnce s \<longrightarrow> bm_ok (firstSeen s) \<and> bm_ttl (firstSeen s) = 2 * cfg_StabilisationWindow cfg
     \<and> map_of (bm_data (firstSeen s)) fp = None)"

definition windowed :: "Config \<Rightarrow> bool" where
  "windowed cfg = (0 < cfg_StabilisationWindow cfg \<and> 2 * cfg_StabilisationWindow cfg < maxDuration)"

lemma wp_SetNow:
  assumes "unobstructed I t r name ns obj f fp" "I (world s)" "range_ok it" "bm_ok m"
  shows "wp (SetNow (now r) it fp m) (\<lambda>(_, m') s'. unmarked I s s' \<and> bm_ttl m' = bm_ttl m \<and> map_of (bm_data m') fp = Some t) s"
proof -
  have clk: "answers_in I (k_now (pr_Client r)) t" using assms(1) by (simp add: unobstructed_def Let_def)
  have ins: "bm_ttl (snd (insert_entry it fp t m')) = bm_ttl m'" for m'
    by (simp add: insert_entry_def split: option.split prod.split)
  have set: "wp (SetWithTime (now r) it fp t m)
      (\<lambda>(_, m') s'. unmarked I s1 s' \<and> bm_ttl m' = bm_ttl m \<and> map_of (bm_data m') fp = Some t) s1" if "I (world s1)" for s1
  proof -
    have "wp (cleanupIfNeeded (now r) m) (\<lambda>m' s'. unmarked I s1 s') s1"
      using that by (auto simp: cleanupIfNeeded_def needsCleanup_def now_def wp_simps unmarked_def dest!: respondsD [OF clk])
    from wp_conjI [OF this cleanup_spec [of "now r" m s1]]
    have "wp (cleanupIfNeeded (now r) m) (\<lambda>m' s'. unmarked I s1 s' \<and> bm_ok m' \<and> bm_ttl m' = bm_ttl m) s1"
      by (rule wp_mono) (use bm_ok_filter [OF assms(4)] in blast)
    then show ?thesis
      unfolding SetWithTime_def wp_bind
      by (rule wp_mono) (auto simp: wp_simps case_prod_beta ins insert_entry_lookup(1) [OF assms(3)])
  qed
  show ?thesis
    unfolding SetNow_def wp_bind
    by (rule wp_mono [OF wp_clock [OF assms(1,2)]])
      (auto simp: unmarked_def intro!: wp_mono [OF set])
qed

lemma window_first:
  assumes "unobstructed I t r name ns obj f fp" "I (world s)" "range_ok (pr_range r)"
    and "bm_ok (firstSeen s)" "map_of (bm_data (firstSeen s)) fp = None" "cfg_StabilisationWindow (pr_Cfg r) \<noteq> 0"
  shows "wp (stabilisation_gate r obj fp) (\<lambda>x s'. x = Some (RequeueAfter (cfg_StabilisationWindow (pr_Cfg r)), None) \<and> I (world s')
     \<and> initOnce s' = initOnce s \<and> bm_ttl (firstSeen s') = bm_ttl (firstSeen s) \<and> map_of (bm_data (firstSeen s')) fp = Some t) s"
proof -
  have clk: "answers_in I (k_now (pr_Client r)) t" using assms(1) by (simp add: unobstructed_def Let_def)
  have crit: "mget (pr_Annotations r obj) AnnotationPriority \<noteq> ''critical''" using assms(1) by (simp add: unobstructed_def Let_def)
  have get: "wp (Get (now r) fp (firstSeen s)) (\<lambda>x s'. x = None \<and> unmarked I s s') s"
    using assms(2,5) by (auto simp: Get_def needsCleanup_def now_def wp_simps unmarked_def dest!: respondsD [OF clk])
  have set: "wp (SetNow (now r) (pr_range r) fp (firstSeen s)) (\<lambda>(_, m') s''. unmarked I s' s'' \<and> bm_ttl m' = bm_ttl (firstSeen s)
      \<and> map_of (bm_data m') fp = Some t) s'" if "unmarked I s s'" for s'
    by (rule wp_SetNow [OF assms(1) _ assms(3,4)]) (use that in \<open>simp add: unmarked_def\<close>)
  show ?thesis
    unfolding stabilisation_gate_def Let_def
    using crit assms(6)
    by (auto simp: wp_simps suppressed_def intro!: wp_mono [OF get] wp_mono [OF set]) (simp_all add: unmarked_def)
qed

lemma window_passed:
  assumes "unobstructed I t r name ns obj f fp" "I (world s)"
    and "map_of (bm_data (firstSeen s)) fp = Some t0" "bm_ttl (firstSeen s) = 2 * cfg_StabilisationWindow (pr_Cfg r)"
    and "windowed (pr_Cfg r)" "t0 + cfg_StabilisationWindow (pr_Cfg r) \<le> t" "t \<le> t0 + 2 * cfg_StabilisationWindow (pr_Cfg r)"
  shows "wp (stabilisation_gate r obj fp) (\<lambda>x s'. x = None \<and> unmarked I s s') s"
proof -
  have clk: "answers_in I (k_now (pr_Client r)) t" using assms(1) by (simp add: unobstructed_def Let_def)
  have sub: "time_sub t t0 = t - t0" using assms(5-7) by (intro time_sub_id) (simp_all add: windowed_def minDuration_def)
  have get: "wp (Get (now r) fp (firstSeen s)) (\<lambda>x s'. x = Some t0 \<and> unmarked I s s') s"
    using assms(2-4,7) by (auto simp: Get_def needsCleanup_def now_def wp_simps sub unmarked_def dest!: respondsD [OF clk])
  show ?thesis
    unfolding stabilisation_gate_def Let_def
    using assms(2,6,7) sub
    by (auto simp: wp_simps now_def intro!: wp_mono [OF get [unfolded now_def]]) (auto simp: unmarked_def dest!: respondsD [OF clk])
qed

lemma wp_start:
  assumes "unobstructed I t r name ns obj f fp" "I (world s)" "unsighted (pr_Cfg r) fp s" "windowed (pr_Cfg r)"
  shows "wp (initFirstSeen r) (\<lambda>_ s'. initOnce s' \<and> I (world s') \<and> unsighted (pr_Cfg r) fp s') s"
proof -
  have clk: "answers_in I (k_now (pr_Client r)) t" using assms(1) by (simp add: unobstructed_def Let_def)
  have "wrap64 (cfg_StabilisationWindow (pr_Cfg r) * 2) = 2 * cfg_StabilisationWindow (pr_Cfg r)"
    using assms(4) by (simp add: wrap64_id windowed_def minDuration_def mult.commute)
  then show ?thesis
    using assms(2-4) by (auto simp: initFirstSeen_def NewBoundedMap_def now_def wp_simps Let_def unsighted_def bm_ok_def windowed_def
        dest!: respondsD [OF clk])
qed

lemma first_visit:
  assumes "unobstructed I t r name ns obj f fp" "I (world s)" "range_ok (pr_range r)" "unsighted (pr_Cfg r) fp s" "windowed (pr_Cfg r)"
  shows "wp (Reconcile_source r name ns)
    (\<lambda>res s'. res = (RequeueAfter (cfg_StabilisationWindow (pr_Cfg r)), None) \<and> I (world s') \<and> sighted (pr_Cfg r) fp t s') s"
  unfolding Reconcile_source_def wp_bind
proof (rule wp_mono [OF wp_start [OF assms(1,2,4,5)]], rule wp_reconcile_to_admit [OF assms(1)])
  fix u s1 s2 assume s: "initOnce s1 \<and> I (world s1) \<and> unsighted (pr_Cfg r) fp s1" "unmarked I s1 s2"
  have "wp (stabilisation_gate r obj fp) (\<lambda>x s'. x = Some (RequeueAfter (cfg_StabilisationWindow (pr_Cfg r)), None) \<and> I (world s')
     \<and> initOnce s' = initOnce s2 \<and> bm_ttl (firstSeen s') = bm_ttl (firstSeen s2) \<and> map_of (bm_data (firstSeen s')) fp = Some t) s2"
    by (rule window_first [OF assms(1) _ assms(3)]) (use s assms(5) in \<open>auto simp: unsighted_def unmarked_def windowed_def\<close>)
  then show "wp (admit r name ns obj f fp)
      (\<lambda>res s'. res = (RequeueAfter (cfg_StabilisationWindow (pr_Cfg r)), None) \<and> I (world s') \<and> sighted (pr_Cfg r) fp t s') s2"
    unfolding admit_def unless_done_def [of "stabilisation_gate _ _ _"] wp_bind
    by (rule wp_mono) (use s in \<open>auto simp: wp_simps sighted_def unsighted_def unmarked_def\<close>)
qed simp

lemma second_visit:
  assumes "unobstructed I t r name ns obj f fp" "I (world s)" "sighted (pr_Cfg r) fp t0 s" "windowed (pr_Cfg r)"
    and "t0 + cfg_StabilisationWindow (pr_Cfg r) \<le> t" "t \<le> t0 + 2 * cfg_StabilisationWindow (pr_Cfg r)"
    and "responds I (k_create_rjob (pr_Client r) (new_rjob r name ns f fp)) None N"
  shows "wp (Reconcile_source r name ns) (\<lambda>res s'. res = (Done, None) \<and> N (world s')
    \<and> (\<exists>es. trace s' = trace s @ es \<and> CreateRJob (new_rjob r name ns f fp) \<in> set es)) s"
proof -
  let ?Q = "\<lambda>res s'. res = (Done, None) \<and> N (world s')
    \<and> (\<exists>es. trace s' = trace s @ es \<and> CreateRJob (new_rjob r name ns f fp) \<in> set es)"
  have create: "wp (create_rjob r name ns f fp) ?Q s'" if "unmarked I s s'" for s'
    using that by (auto simp: create_rjob_def src_event_def wp_simps Let_def unmarked_def dest!: respondsD [OF assms(7)])
  have step: "wp (unless_done g k) ?Q s1" if "unmarked I s s1" "wp g (\<lambda>x s'. x = None \<and> unmarked I s1 s') s1"
      "\<And>s'. unmarked I s s' \<Longrightarrow> wp k ?Q s'" for g k s1
    by (rule wp_unless_done_pass [OF that(2)]) (rule that(3), erule unmarked_trans [OF that(1)])
  have w: "I (world s')" if "unmarked I s s'" for s' using that by (simp add: unmarked_def)
  have adm: "wp (admit r name ns obj f fp) ?Q s1" if "unmarked I s s1" for s1
  proof -
    have "wp (stabilisation_gate r obj fp) (\<lambda>x s''. x = None \<and> unmarked I s1 s'') s1"
      by (rule window_passed [OF assms(1) w [OF that] _ _ assms(4-6)]) (use assms(3) that in \<open>simp_all add: sighted_def unmarked_def\<close>)
    then show ?thesis
      unfolding admit_def
      by (rule step [OF that])
        ((rule step, assumption, rule last_gates_pass, rule assms(1), erule w)+, rule create)
  qed
  have "wp (initFirstSeen r) (\<lambda>_ s'. s' = s) s"
    using assms(3) by (simp add: initFirstSeen_def sighted_def wp_simps)
  then show ?thesis
    unfolding Reconcile_source_def wp_bind
    by (rule wp_mono) (use adm assms(2) in \<open>auto intro!: wp_reconcile_to_admit [OF assms(1)]\<close>)
qed

text \<open>
  C10. A persistent finding becomes a job: when nothing obstructs it, the first reconcile of the finding
  asks to be called again after exactly the stabilisation window, and a reconcile at any time between
  one and two windows later, in whatever world the finding is still unobstructed then, creates the
  finding's \<open>RemediationJob\<close> without an error.
\<close>

theorem finding_becomes_job:
  fixes r :: "('w, 'o) source_reconciler" and s :: "'w psys"
  assumes "unobstructed I t r name ns obj f fp" "I (world s)" "range_ok (pr_range r)" "unsighted (pr_Cfg r) fp s"
    and "windowed (pr_Cfg r)" "unobstructed J u r name ns obj f fp"
    and "t + cfg_StabilisationWindow (pr_Cfg r) \<le> u" "u \<le> t + 2 * cfg_StabilisationWindow (pr_Cfg r)"
    and "responds J (k_create_rjob (pr_Client r) (new_rjob r name ns f fp)) None N"
  shows "wp (Reconcile_source r name ns) (\<lambda>res s'. res = (RequeueAfter (cfg_StabilisationWindow (pr_Cfg r)), None)
    \<and> I (world s') \<and> (\<forall>w. J w \<longrightarrow> wp (Reconcile_source r name ns) (\<lambda>res s''. res = (Done, None) \<and> N (world s'')
         \<and> (\<exists>es. trace s'' = trace s' @ es \<and> CreateRJob (new_rjob r name ns f fp) \<in> set es)) (s'\<lparr>world := w\<rparr>))) s"
proof (rule wp_mono [OF first_visit [OF assms(1-5)]], elim conjE, intro conjI allI impI)
  fix s' :: "'w psys" and w assume "sighted (pr_Cfg r) fp t s'" "J w"
  then show "wp (Reconcile_source r name ns) (\<lambda>res s''. res = (Done, None) \<and> N (world s'')
       \<and> (\<exists>es. trace s'' = trace s' @ es \<and> CreateRJob (new_rjob r name ns f fp) \<in> set es)) (s'\<lparr>world := w\<rparr>)"
    using second_visit [OF assms(6), of "s'\<lparr>world := w\<rparr>"] assms(5,7-9) by (simp add: sighted_def)
qed

text \<open>A cluster whose world is the time.\<close>

definition clocked :: "time kube" where
  "clocked = (empty_cluster 0)\<lparr>k_now := State (\<lambda>w. (w, w))\<rparr>"

definition clocked_source :: "Finding \<Rightarrow> (time, unit) source_reconciler" where
  "clocked_source f = \<lparr>pr_Client = clocked, pr_Cfg = pr_Cfg (sample_source (empty_cluster 0) f),
     pr_ProviderName = ''native'', pr_Get = (\<lambda>name ns. ret (Inr ())), pr_Annotations = (\<lambda>_. Map.empty),
     pr_ExtractFinding = (\<lambda>_. ret (Inr (Some f))), pr_Recorder = True, pr_ReadinessChecker = None,
     pr_CircuitBreaker = None, pr_SinkCloser = None, pr_PRMergeChecker = None, pr_range = (\<lambda>xs. xs)\<rparr>"

definition start_at :: "time \<Rightarrow> time psys" where
  "start_at t = \<lparr>world = t, trace = [], firstSeen = firstSeen fresh_state, initOnce = False\<rparr>"

theorem finding_becomes_job_witness:
  "\<exists>fp. FindingFingerprint (sample_finding ''web-1'' []) = Inr fp \<and>
     wp (Reconcile_source (clocked_source (sample_finding ''web-1'' [])) ''web-1'' ''default'') (\<lambda>res s'.
        wp (Reconcile_source (clocked_source (sample_finding ''web-1'' [])) ''web-1'' ''default'') (\<lambda>res s''. res = (Done, None)
          \<and> CreateRJob (new_rjob (clocked_source (sample_finding ''web-1'' [])) ''web-1'' ''default'' (sample_finding ''web-1'' []) fp)
             \<in> set (trace s'')) (s'\<lparr>world := 31 * Second\<rparr>)) (start_at 0)"
proof -
  let ?f = "sample_finding ''web-1'' []"
  let ?r = "clocked_source ?f"
  obtain fp where fp: "FindingFingerprint ?f = Inr fp" by (simp add: FindingFingerprint_def error_texts_def sample_finding_def)
  have "unobstructed (\<lambda>w. w = t) t ?r ''web-1'' ''default'' () ?f fp" for t
    using fp by (simp add: unobstructed_def Let_def clocked_source_def sample_source_def clocked_def empty_cluster_def admissible_def zero_config_def
        sample_finding_def mget_def responds_def)
  moreover have "unsighted (pr_Cfg ?r) fp (start_at 0)" "range_ok (pr_range ?r)" "windowed (pr_Cfg ?r)"
      "0 + cfg_StabilisationWindow (pr_Cfg ?r) \<le> 31 * Second" "31 * Second \<le> 0 + 2 * cfg_StabilisationWindow (pr_Cfg ?r)"
      "responds (\<lambda>w. w = 31 * Second) (k_create_rjob (pr_Client ?r) (new_rjob ?r ''web-1'' ''default'' ?f fp)) None (\<lambda>_. True)"
    by (simp_all add: unsighted_def windowed_def start_at_def range_ok_def clocked_source_def sample_source_def Second_def maxDuration_def
        clocked_def empty_cluster_def responds_def)
  ultimately show ?thesis
    using finding_becomes_job [where I = "\<lambda>w. w = 0" and J = "\<lambda>w. w = 31 * Second" and t = 0 and u = "31 * Second"
        and r = ?r and s = "start_at 0" and N = "\<lambda>_. True" and f = ?f and fp = fp and obj = "()" and name = "''web-1''" and ns = "''default''"]
    by (intro exI [of _ fp] conjI fp) (auto simp: start_at_def elim!: wp_mono)
qed

section \<open>From a job to an agent\<close>

lemma count_active_le:
  assumes "keeps I (k_now K)"
  shows "I w \<Longrightarrow> wp (count_active K js) (\<lambda>n w'. n \<le> int (length js) \<and> I w') w"
proof (induction js arbitrary: w)
  case (Cons j js)
  have "wp (isJobActive K j) (\<lambda>_ w'. I w') w"
    using Cons.prems by (auto simp: isJobActive_def wp_simps) (auto intro!: wpI dest: keepsD [OF assms])
  then show ?case
    unfolding count_active.simps wp_bind
    by (rule wp_mono) (auto simp: wp_simps intro!: wp_mono [OF Cons.IH])
qed (simp add: wp_simps)

text \<open>
  Correlation does not apply to the job at the time \<open>t\<close>: it is off, or the window is over and no
  rule matches the pending peers.
\<close>

definition uncorrelated :: "('w \<Rightarrow> bool) \<Rightarrow> time \<Rightarrow> 'w reconciler \<Rightarrow> RemediationJob \<Rightarrow> bool" where
  "uncorrelated I t r rjob =
     (case rc_Correlator r of
        None \<Rightarrow> True
      | Some rules \<Rightarrow> st_CorrelationGroupID (rj_Status rjob) = []
          \<and> \<not> (0 < seconds (cfg_CorrelationWindowSeconds (rc_Cfg r))
               \<and> time_sub t (rj_Created rjob) < seconds (cfg_CorrelationWindowSeconds (rc_Cfg r)))
          \<and> (\<exists>items. answers_in I (k_list_rjobs (rc_Client r) (cfg_AgentNamespace (rc_Cfg r)) managed_by) (Inr items)
               \<and> answers_in I (Evaluate rules rjob (filter (\<lambda>p. rj_UID p \<noteq> rj_UID rjob \<and> rj_Phase p = PhasePending) items)) (Inr None)))"

text \<open>
  The job can be dispatched in the worlds \<open>I\<close>; the creation of the agent job leads to the worlds \<open>M\<close>, in
  which a status \<open>n\<close> of the job is accepted.
\<close>

definition accepts_status :: "('w \<Rightarrow> bool) \<Rightarrow> (RemediationJob \<Rightarrow> 'w \<Rightarrow> bool) \<Rightarrow> 'w kube \<Rightarrow> RemediationJob \<Rightarrow> bool" where
  "accepts_status M N K rjob =
     (\<forall>n. rj_Meta n = rj_Meta rjob \<and> rj_Spec n = rj_Spec rjob \<longrightarrow> responds M (k_patch_status K rjob n) (Inr n) (N n))"

definition dispatchable :: "('w \<Rightarrow> bool) \<Rightarrow> ('w \<Rightarrow> bool) \<Rightarrow> (RemediationJob \<Rightarrow> 'w \<Rightarrow> bool) \<Rightarrow> time \<Rightarrow> 'w reconciler \<Rightarrow> RemediationJob \<Rightarrow> Job \<Rightarrow> bool" where
  "dispatchable I M N t r rjob job =
     (let K = rc_Client r; ns = cfg_AgentNamespace (rc_Cfg r) in
      rj_Phase rjob = PhasePending \<and> rj_SinkURL rjob = [] \<and> \<not> injection_suppress r rjob
      \<and> answers_in I (k_now K) t \<and> uncorrelated I t r rjob
      \<and> answers_in I (k_list_jobs K ns [(''remediation.mechanic.io/remediation-job'', rj_Name rjob)]) (Inr [])
      \<and> (\<exists>jobs. answers_in I (k_list_jobs K ns managed_by) (Inr jobs) \<and> int (length jobs) < cfg_MaxConcurrentJobs (rc_Cfg r))
      \<and> keeps I (k_list_rjobs K ns managed_by)
      \<and> rc_Build r rjob [] = Inr job \<and> responds I (k_create_job K job) None M
      \<and> keeps M (k_now K) \<and> accepts_status M N K rjob)"

lemma correlate_passes:
  assumes "uncorrelated I t r rjob" "answers_in I (k_now (rc_Client r)) t" "rc_Correlator r = Some rules" "I (world s)"
  shows "wp (correlate r rules rjob) (\<lambda>x s'. x = None \<and> trace s' = trace s \<and> I (world s')) s"
proof -
  from assms(1,3) obtain items where i: "answers_in I (k_list_rjobs (rc_Client r) (cfg_AgentNamespace (rc_Cfg r)) managed_by) (Inr items)"
      "answers_in I (Evaluate rules rjob (filter (\<lambda>p. rj_UID p \<noteq> rj_UID rjob \<and> rj_Phase p = PhasePending) items)) (Inr None)"
      "st_CorrelationGroupID (rj_Status rjob) = []"
      "0 < seconds (cfg_CorrelationWindowSeconds (rc_Cfg r)) \<Longrightarrow>
         \<not> time_sub t (rj_Created rjob) < seconds (cfg_CorrelationWindowSeconds (rc_Cfg r))"
    unfolding uncorrelated_def by auto
  then show ?thesis
    using assms(4)
    by (auto simp: correlate_def window_hold_def pendingPeers_def after_group_def wp_simps Let_def
        dest!: respondsD [OF i(1)] respondsD [OF i(2)] respondsD [OF assms(2)])
qed

lemma gate_open:
  assumes "answers_in I (k_list_jobs (rc_Client r) (cfg_AgentNamespace (rc_Cfg r)) managed_by) (Inr jobs)"
    and "int (length jobs) < cfg_MaxConcurrentJobs (rc_Cfg r)" "keeps I (k_now (rc_Client r))"
    and "keeps I (k_list_rjobs (rc_Client r) (cfg_AgentNamespace (rc_Cfg r)) managed_by)" "I (world s)"
  shows "wp (concurrencyGate r) (\<lambda>x s'. x = Inr None \<and> (\<exists>es. trace s' = trace s @ es) \<and> I (world s')) s"
proof -
  have n: "n < cfg_MaxConcurrentJobs (rc_Cfg r) \<and> I w'" if "run_state (count_active (rc_Client r) jobs) w = (n, w')" "I w" for n w w'
    using wp_run [OF count_active_le [OF assms(3) that(2)] that(1)] assms(2) by simp
  show ?thesis
    unfolding concurrencyGate_def
    using assms(5)
    by (auto simp: wp_simps dest!: respondsD [OF assms(1)] keepsD [OF assms(4)] n split: sum.split)
qed

text \<open>The creation of the job, directly followed by the patch that records it.\<close>

definition dispatch_recorded :: "RemediationJob \<Rightarrow> Job \<Rightarrow> RemediationJob \<Rightarrow> effect list \<Rightarrow> bool" where
  "dispatch_recorded rjob job n es =
     ((\<exists>pre post. es = pre @ [CreateJob job, PatchStatus rjob n] @ post)
      \<and> rj_Meta n = rj_Meta rjob \<and> rj_Spec n = rj_Spec rjob
      \<and> rj_Phase n = PhaseDispatched \<and> st_JobRef (rj_Status n) = om_Name (jb_Meta job)
      \<and> st_DispatchedAt (rj_Status n) \<noteq> None)"

lemma dispatch_recorded_append: "dispatch_recorded rjob job n es \<Longrightarrow> dispatch_recorded rjob job n (ds @ es)"
  unfolding dispatch_recorded_def by (metis append.assoc)

lemma dispatch_records:
  assumes "\<not> injection_suppress r rjob" "rc_Build r rjob fs = Inr job" "responds I (k_create_job (rc_Client r) job) None M"
    and "keeps M (k_now (rc_Client r))" "accepts_status M N (rc_Client r) rjob" "I (world s)"
  shows "wp (dispatch r rjob fs) (\<lambda>x s'. x = None
    \<and> (\<exists>es. trace s' = trace s @ es \<and> (\<exists>n. dispatch_recorded rjob job n es \<and> N n (world s')))) s"
proof -
  let ?n = "\<lambda>now. add_condition (rc_Client r) (mk_condition ConditionJobDispatched ''JobCreated'' [] now)
    (rjob\<lparr>rj_Status := (rj_Status rjob)\<lparr>st_Phase := PhaseDispatched, st_JobRef := om_Name (jb_Meta job), st_DispatchedAt := Some now\<rparr>\<rparr>)"
  have patch: "responds M (k_patch_status (rc_Client r) rjob (?n now)) (Inr (?n now)) (N (?n now))" for now
    using assms(5) by (simp add: accepts_status_def add_condition_def)
  have rec: "dispatch_recorded rjob job (?n now) (CreateJob job # PatchStatus rjob (?n now) # post)" for now post
    by (auto simp: dispatch_recorded_def add_condition_def intro: exI [of _ "[]"])
  show ?thesis
    unfolding dispatch_def if_not_P [OF assms(1)] assms(2) sum.case
    using assms(6)
    by (auto simp: event_def wp_simps Let_def dest!: respondsD [OF assms(3)] keepsD [OF assms(4)] respondsD [OF patch])
      (blast intro: rec)+
qed

text \<open>One reconcile of a pending job.\<close>

lemma pending_reconcile:
  assumes "answers_in I (k_get_rjob (rc_Client r) ns name) (Inr rjob)" "dispatchable I M N t r rjob job" "I (world s)"
  shows "wp (Reconcile r ns name) (\<lambda>res s'. res = (Done, None)
     \<and> (\<exists>es. trace s' = trace s @ es \<and> (\<exists>n. dispatch_recorded rjob job n es \<and> N n (world s')))) s"
proof -
  let ?P = "\<lambda>res s'. res = (Done, None) \<and> (\<exists>es. trace s' = trace s @ es \<and> (\<exists>n. dispatch_recorded rjob job n es \<and> N n (world s')))"
  from assms(2) obtain jobs where d: "rj_Phase rjob = PhasePending" "rj_SinkURL rjob = []" "\<not> injection_suppress r rjob"
      "uncorrelated I t r rjob" "rc_Build r rjob [] = Inr job" "responds I (k_create_job (rc_Client r) job) None M"
      "keeps M (k_now (rc_Client r))" "accepts_status M N (rc_Client r) rjob"
      "answers_in I (k_list_jobs (rc_Client r) (cfg_AgentNamespace (rc_Cfg r)) managed_by) (Inr jobs)"
      "int (length jobs) < cfg_MaxConcurrentJobs (rc_Cfg r)"
      "keeps I (k_list_rjobs (rc_Client r) (cfg_AgentNamespace (rc_Cfg r)) managed_by)"
    and clk: "answers_in I (k_now (rc_Client r)) t"
    and owned: "answers_in I (k_list_jobs (rc_Client r) (cfg_AgentNamespace (rc_Cfg r))
        [(''remediation.mechanic.io/remediation-job'', rj_Name rjob)]) (Inr [])"
    unfolding dispatchable_def Let_def by blast
  have disp: "wp (dispatch r rjob []) (\<lambda>x s''. x = None \<and> ?P (Done, None) s'') s'"
    if "trace s' = trace s @ es" "I (world s')" for s' es
    by (rule wp_mono [OF dispatch_records [OF d(3,5-8) that(2)]]) (use that(1) in \<open>fastforce intro: dispatch_recorded_append\<close>)
  have gd: "wp (gated_dispatch r rjob []) ?P s'" if "trace s' = trace s" "I (world s')" for s'
    unfolding gated_dispatch_def wp_bind
    by (rule wp_mono [OF gate_open [OF d(9,10) answers_keeps [OF clk] d(11) that(2)]])
      (use that(1) in \<open>auto simp: wp_simps intro!: wp_mono [OF disp]\<close>)
  have drv: "wp (drive r rjob) ?P s'" if "trace s' = trace s" "I (world s')" for s'
    using d(1) that
    by (auto simp: drive_def wp_simps split: option.split dest!: respondsD [OF owned]
        intro!: gd wp_mono [OF correlate_passes [OF d(4) clk]])
  show ?thesis
    using d(1,2) assms(3)
    by (auto simp: Reconcile_def record_pr_def by_phase_def wp_simps dest!: respondsD [OF assms(1)] intro!: drv)
qed

text \<open>
  C11. A pending job gets its agent: when correlation does not apply, fewer jobs than the limit exist, the
  builder builds and the server accepts the writes, one reconcile creates exactly the built job and then
  records it: the status patch that follows the creation sets the phase \<open>Dispatched\<close>, the name of the
  job and the time of the dispatch.
\<close>

theorem pending_job_dispatched:
  assumes "answers_in I (k_get_rjob (rc_Client r) ns name) (Inr rjob)" "dispatchable I M N t r rjob job" "I (world s)"
  shows "wp (Reconcile r ns name) (\<lambda>res s'. res = (Done, None)
     \<and> (\<exists>es. trace s' = trace s @ es \<and> (\<exists>n. dispatch_recorded rjob job n es \<and> N n (world s')))) s"
  by (rule pending_reconcile [OF assms])

definition pending_rjob :: RemediationJob where
  "pending_rjob = (sample_rjob ''a'' ''Pod'' ''web'' 1 PhasePending)\<lparr>rj_Spec := zero_spec\<lparr>sp_Fingerprint := replicate 64 CHR ''a''\<rparr>\<rparr>"

definition dispatching :: "unit reconciler" where
  "dispatching = (sample_reconciler pending_rjob)\<lparr>
     rc_Build := \<lambda>j fs. Build (\<lambda>_. True) sample_builder (Some j) fs,
     rc_Cfg := zero_config\<lparr>cfg_AgentNamespace := ''mechanic'', cfg_MaxConcurrentJobs := 3\<rparr>\<rparr>"

theorem pending_job_dispatched_witness:
  "\<exists>job. Build (\<lambda>_. True) sample_builder (Some pending_rjob) [] = Inr job
     \<and> wp (Reconcile dispatching [] ''a'') (\<lambda>res s'. res = (Done, None) \<and> (\<exists>n. dispatch_recorded pending_rjob job n (trace s')))
         \<lparr>world = (), trace = []\<rparr>"
proof -
  obtain job where b: "Build (\<lambda>_. True) sample_builder (Some pending_rjob) [] = Inr job"
    by (simp add: Build_def pending_rjob_def quantities_ok_def sample_builder_def)
  let ?T = "\<lambda>_. True" and ?t = "fst (run_state (k_now (rc_Client dispatching)) ())"
  from b have "dispatchable ?T ?T (\<lambda>_. ?T) ?t dispatching pending_rjob job"
    by (simp add: dispatchable_def Let_def dispatching_def sample_reconciler_def pending_rjob_def sample_defs uncorrelated_def
        empty_cluster_def injection_suppress_def zero_config_def keeps_def accepts_status_def)
  moreover have "answers (k_get_rjob (rc_Client dispatching) [] ''a'') (Inr pending_rjob)"
    by (simp add: dispatching_def sample_reconciler_def)
  ultimately have "wp (Reconcile dispatching [] ''a'') (\<lambda>res s'. res = (Done, None)
      \<and> (\<exists>n. dispatch_recorded pending_rjob job n (trace s'))) \<lparr>world = (), trace = []\<rparr>"
    by (intro wp_mono [OF pending_job_dispatched [where I = ?T and M = ?T and N = "\<lambda>_. ?T" and job = job]]) auto
  with b show ?thesis by blast
qed

end
