(* ===== verification/Circuit_Breaker.thy ===== *)
theory Circuit_Breaker
  imports Domain
begin

text \<open>
  \<open>src/internal/circuitbreaker/circuitbreaker.go\<close>: the breaker that enforces a cooldown between
  self-remediations. \<open>ShouldAllow\<close> reads the clock twice (\<open>time.Since\<close>, then \<open>time.Now\<close>); the two
  readings are its arguments, and \<open>ShouldAllowM\<close> obtains them from a clock and keeps the breaker in
  the second component of the world, which is the shape in which the provider calls a \<open>Gater\<close>.
  The mutex makes each call atomic, so a concurrent use is a sequence of calls.

  The locale \<open>gater\<close> states the contract of the interface; what a client may conclude about a
  sequence of calls is proved there once, and the breaker is an interpretation.
\<close>

record CircuitBreaker =
  cb_cooldown :: duration
  cb_lastAllowed :: time

definition NewCircuitBreaker :: "duration \<Rightarrow> CircuitBreaker" where
  "NewCircuitBreaker cooldown = \<lparr>cb_cooldown = cooldown, cb_lastAllowed = zeroTime\<rparr>"

definition ShouldAllow :: "time \<Rightarrow> time \<Rightarrow> CircuitBreaker \<Rightarrow> (bool \<times> duration) \<times> CircuitBreaker" where
  "ShouldAllow n1 n2 cb =
     (if cb_lastAllowed cb \<noteq> zeroTime then
        (let elapsed = time_sub n1 (cb_lastAllowed cb) in
         if elapsed < cb_cooldown cb then ((False, wrap64 (cb_cooldown cb - elapsed)), cb)
         else ((True, 0), cb\<lparr>cb_lastAllowed := n2\<rparr>))
      else ((True, 0), cb\<lparr>cb_lastAllowed := n2\<rparr>))"

text \<open>
  The same call against a clock: the first reading happens only when there is a last time to
  compare with, the second only when the call is allowed.
\<close>

definition ShouldAllowM :: "('v, time) state \<Rightarrow> ('v \<times> CircuitBreaker, bool \<times> duration) state" where
  "ShouldAllowM clk = State (\<lambda>(v, cb).
     if cb_lastAllowed cb \<noteq> zeroTime then
       (case run_state clk v of (n1, v1) \<Rightarrow>
          if time_sub n1 (cb_lastAllowed cb) < cb_cooldown cb
          then ((False, wrap64 (cb_cooldown cb - time_sub n1 (cb_lastAllowed cb))), (v1, cb))
          else (case run_state clk v1 of (n2, v2) \<Rightarrow> ((True, 0), (v2, cb\<lparr>cb_lastAllowed := n2\<rparr>))))
     else (case run_state clk v of (n2, v2) \<Rightarrow> ((True, 0), (v2, cb\<lparr>cb_lastAllowed := n2\<rparr>))))"

section \<open>Runs of a gate\<close>

text \<open>A sequence of calls, each with its two clock readings, and the answers.\<close>

fun gate_run :: "(time \<Rightarrow> time \<Rightarrow> 's \<Rightarrow> (bool \<times> duration) \<times> 's) \<Rightarrow> 's \<Rightarrow> (time \<times> time) list \<Rightarrow> (bool \<times> duration) list" where
  "gate_run f s [] = []"
| "gate_run f s ((n1, n2) # cs) = (case f n1 n2 s of (a, s') \<Rightarrow> a # gate_run f s' cs)"

text \<open>Readings of a clock that never goes back and has left the zero time.\<close>

fun clock_ok :: "time \<Rightarrow> (time \<times> time) list \<Rightarrow> bool" where
  "clock_ok t [] = True"
| "clock_ok t ((n1, n2) # cs) = (t \<le> n1 \<and> n1 \<le> n2 \<and> clock_ok n2 cs)"

lemma clock_ok_mono: "t \<le> u \<Longrightarrow> clock_ok u cs \<Longrightarrow> clock_ok t cs"
  by (cases cs) auto

text \<open>
  The contract of a gate: \<open>last s\<close> is the time of the last allowed call, if any. A call is refused
  exactly when the cooldown since then has not passed, with the time left as the answer; a
  refused call changes nothing, an allowed one records its time.
\<close>

locale gater =
  fixes allow :: "time \<Rightarrow> time \<Rightarrow> 's \<Rightarrow> (bool \<times> duration) \<times> 's"
    and last_allowed :: "'s \<Rightarrow> time option"
    and cooldown :: "'s \<Rightarrow> duration"
    and ok :: "'s \<Rightarrow> bool"
  assumes refuse: "ok s \<Longrightarrow> last_allowed s = Some t \<Longrightarrow> n1 - t < cooldown s \<Longrightarrow> t \<le> n1 \<Longrightarrow>
      allow n1 n2 s = ((False, cooldown s - (n1 - t)), s)"
    and admit: "ok s \<Longrightarrow> (\<And>t. last_allowed s = Some t \<Longrightarrow> \<not> n1 - t < cooldown s) \<Longrightarrow> zeroTime < n2 \<Longrightarrow>
      \<exists>s'. allow n1 n2 s = ((True, 0), s') \<and> last_allowed s' = Some n2 \<and> cooldown s' = cooldown s \<and> ok s'"
begin

text \<open>In a run, a call that is allowed comes at least the cooldown after the last allowed one.\<close>

lemma run_after_allowed:
  assumes "ok s" "last_allowed s = Some t" "clock_ok t cs" "zeroTime < t"
    and "j < length cs" "fst (gate_run allow s cs ! j)"
  shows "cooldown s \<le> fst (cs ! j) - t"
  using assms
proof (induction cs arbitrary: s t j)
  case (Cons c cs)
  obtain n1 n2 where c: "c = (n1, n2)" by fastforce
  with Cons.prems have n: "t \<le> n1" "n1 \<le> n2" "clock_ok n2 cs" by simp_all
  show ?case
  proof (cases "n1 - t < cooldown s")
    case True
    then have a: "allow n1 n2 s = ((False, cooldown s - (n1 - t)), s)"
      using Cons.prems n refuse by blast
    with Cons.prems c obtain k where j: "j = Suc k" "k < length cs" by (cases j) simp_all
    have "clock_ok t cs" using clock_ok_mono n by simp
    with Cons.IH [of s t k] Cons.prems a c j show ?thesis by simp
  next
    case False
    then have "\<And>u. last_allowed s = Some u \<Longrightarrow> \<not> n1 - u < cooldown s"
      using Cons.prems by simp
    then obtain s' where s': "allow n1 n2 s = ((True, 0), s')" "last_allowed s' = Some n2"
        "cooldown s' = cooldown s" "ok s'"
      using admit [of s n1 n2] Cons.prems n by auto
    show ?thesis
    proof (cases j)
      case 0
      with False c show ?thesis by simp
    next
      case (Suc k)
      with Cons.prems c s' have "cooldown s \<le> fst (cs ! k) - n2"
        using Cons.IH [of s' n2 k] n by simp
      with Suc n show ?thesis by simp
    qed
  qed
qed simp

lemma run_spacing:
  assumes "ok s" "case last_allowed s of None \<Rightarrow> True | Some t \<Rightarrow> zeroTime < t \<and> clock_ok t cs"
    and "clock_ok t0 cs" "zeroTime < t0"
    and "i < j" "j < length cs" "fst (gate_run allow s cs ! i)" "fst (gate_run allow s cs ! j)"
  shows "cooldown s \<le> fst (cs ! j) - snd (cs ! i)"
  using assms
proof (induction cs arbitrary: s i j t0)
  case (Cons c cs)
  obtain n1 n2 where c: "c = (n1, n2)" by fastforce
  from Cons.prems obtain k where j: "j = Suc k" "k < length cs" by (cases j) simp_all
  from Cons.prems c have n: "t0 \<le> n1" "n1 \<le> n2" "clock_ok n2 cs" by simp_all
  show ?case
  proof (cases "\<exists>t. last_allowed s = Some t \<and> n1 - t < cooldown s")
    case True
    then obtain t where t: "last_allowed s = Some t" "n1 - t < cooldown s" by blast
    with Cons.prems c have a: "allow n1 n2 s = ((False, cooldown s - (n1 - t)), s)"
      by (intro refuse) auto
    with Cons.prems c obtain l where i: "i = Suc l" by (cases i) simp_all
    have "clock_ok t cs" using clock_ok_mono [of t n2] Cons.prems t c n by simp
    with Cons.IH [of s n2 l k] Cons.prems a c i j n t show ?thesis by simp
  next
    case False
    then obtain s' where s': "allow n1 n2 s = ((True, 0), s')" "last_allowed s' = Some n2"
        "cooldown s' = cooldown s" "ok s'"
      using admit [of s n1 n2] Cons.prems n by auto
    show ?thesis
    proof (cases i)
      case 0
      with Cons.prems c s' j n show ?thesis
        using run_after_allowed [of s' n2 cs k] by simp
    next
      case (Suc l)
      with Cons.IH [of s' n2 l k] Cons.prems c s' j n show ?thesis by simp
    qed
  qed
qed simp

text \<open>A refusal names the right moment: once the time left has passed, the gate opens.\<close>

lemma refused_then_open:
  assumes "ok s" "last_allowed s = Some t" "t \<le> n1" "n1 - t < cooldown s"
    and "n1 + snd (fst (allow n1 n2 s)) \<le> m1" "zeroTime < m2"
  shows "fst (fst (allow m1 m2 (snd (allow n1 n2 s))))"
proof -
  have a: "allow n1 n2 s = ((False, cooldown s - (n1 - t)), s)"
    using assms refuse by blast
  with assms have "\<not> m1 - t < cooldown s" by simp
  then have "\<exists>s'. allow m1 m2 s = ((True, 0), s') \<and> last_allowed s' = Some m2 \<and> cooldown s' = cooldown s \<and> ok s'"
    using assms admit [of s m1 m2] by auto
  with a show ?thesis by auto
qed

end

definition cb_last :: "CircuitBreaker \<Rightarrow> time option" where
  "cb_last cb = (if cb_lastAllowed cb = zeroTime then None else Some (cb_lastAllowed cb))"

definition cb_ok :: "CircuitBreaker \<Rightarrow> bool" where
  "cb_ok cb = (0 < cb_cooldown cb \<and> cb_cooldown cb \<le> maxDuration)"

lemma ShouldAllow_refuse:
  assumes "cb_ok cb" "cb_last cb = Some t" "n1 - t < cb_cooldown cb" "t \<le> n1"
  shows "ShouldAllow n1 n2 cb = ((False, cb_cooldown cb - (n1 - t)), cb)"
proof -
  have "time_sub n1 t = n1 - t"
    using assms by (intro time_sub_id) (auto simp: cb_ok_def minDuration_def maxDuration_def)
  moreover have "wrap64 (cb_cooldown cb - (n1 - t)) = cb_cooldown cb - (n1 - t)"
    using assms by (intro wrap64_id) (auto simp: cb_ok_def minDuration_def maxDuration_def)
  ultimately show ?thesis
    using assms by (auto simp: ShouldAllow_def cb_last_def Let_def split: if_splits)
qed

lemma ShouldAllow_admit:
  assumes "cb_ok cb" "\<And>t. cb_last cb = Some t \<Longrightarrow> \<not> n1 - t < cb_cooldown cb" "zeroTime < n2"
  shows "\<exists>cb'. ShouldAllow n1 n2 cb = ((True, 0), cb') \<and> cb_last cb' = Some n2
    \<and> cb_cooldown cb' = cb_cooldown cb \<and> cb_ok cb'"
proof -
  have "cb_lastAllowed cb \<noteq> zeroTime \<Longrightarrow> \<not> time_sub n1 (cb_lastAllowed cb) < cb_cooldown cb"
    using assms time_sub_less [of "cb_cooldown cb" n1]
    by (auto simp: cb_ok_def cb_last_def minDuration_def)
  then show ?thesis
    using assms by (auto simp: ShouldAllow_def cb_last_def cb_ok_def Let_def)
qed

interpretation breaker: gater ShouldAllow cb_last cb_cooldown cb_ok
  by unfold_locales (auto intro: ShouldAllow_refuse dest: ShouldAllow_admit)

text \<open>The breaker against a clock answers as the pure call at the readings it takes.\<close>

lemma ShouldAllowM_frozen:
  assumes "\<And>v. run_state clk v = (t, v)"
  shows "run_state (ShouldAllowM clk) (v, cb) =
    (case ShouldAllow t t cb of (a, cb') \<Rightarrow> (a, (v, cb')))"
  using assms by (simp add: ShouldAllowM_def ShouldAllow_def Let_def)

text \<open>
  Between any two self-remediations that a fresh circuit breaker allows, at least the cooldown
  passes: for every sequence of calls under a clock that never goes back, the first clock reading
  of a later allowed call is at least the cooldown after the time recorded by an earlier one.
\<close>

theorem breaker_spacing:
  assumes "0 < c" "c \<le> maxDuration" "clock_ok t0 cs" "zeroTime < t0"
    and "i < j" "j < length cs"
    and "fst (gate_run ShouldAllow (NewCircuitBreaker c) cs ! i)"
    and "fst (gate_run ShouldAllow (NewCircuitBreaker c) cs ! j)"
  shows "c \<le> fst (cs ! j) - snd (cs ! i)"
  using breaker.run_spacing [of "NewCircuitBreaker c" cs t0 i j] assms
  by (simp add: NewCircuitBreaker_def cb_ok_def cb_last_def)

theorem breaker_spacing_witness:
  "let cs = [(1000, 1001), (1100, 1101), (1301, 1302)] in
     gate_run ShouldAllow (NewCircuitBreaker 300) cs = [(True, 0), (False, 201), (True, 0)]
     \<and> 300 \<le> fst (cs ! 2) - snd (cs ! 0)"
proof -
  let ?cs = "[(1000, 1001), (1100, 1101), (1301, 1302)] :: (time \<times> time) list"
  have r: "gate_run ShouldAllow (NewCircuitBreaker 300) ?cs = [(True, 0), (False, 201), (True, 0)]"
    by (simp add: NewCircuitBreaker_def ShouldAllow_def zeroTime_def time_sub_def minDuration_def
        maxDuration_def wrap64_def)
  have "300 \<le> fst (?cs ! 2) - snd (?cs ! 0)"
    by (rule breaker_spacing [where ?t0.0 = 1000])
      (simp_all only: r, simp_all add: maxDuration_def zeroTime_def)
  with r show ?thesis by (simp only: Let_def)
qed

text \<open>
  The time left that a refusal reports is exact: it is positive and at most the cooldown, the
  refusal leaves the breaker as it was, and a call at least that much later is allowed.
\<close>

theorem breaker_requeue_exact:
  assumes "0 < cb_cooldown cb" "cb_cooldown cb \<le> maxDuration"
    and "cb_lastAllowed cb \<noteq> zeroTime" "cb_lastAllowed cb \<le> n1" "n1 - cb_lastAllowed cb < cb_cooldown cb"
    and "zeroTime < m2"
  shows "\<exists>r. ShouldAllow n1 n2 cb = ((False, r), cb) \<and> 0 < r \<and> r \<le> cb_cooldown cb
    \<and> fst (fst (ShouldAllow (n1 + r) m2 cb)) \<and> (\<forall>d. 0 \<le> d \<and> d < r \<longrightarrow> \<not> fst (fst (ShouldAllow (n1 + d) m2 cb)))"
proof -
  let ?t = "cb_lastAllowed cb"
  have ok: "cb_ok cb" "cb_last cb = Some ?t" using assms by (simp_all add: cb_ok_def cb_last_def)
  have a: "ShouldAllow n1 n2 cb = ((False, cb_cooldown cb - (n1 - ?t)), cb)"
    using ok assms by (intro ShouldAllow_refuse) auto
  have "fst (fst (ShouldAllow (n1 + (cb_cooldown cb - (n1 - ?t))) m2 (snd (ShouldAllow n1 n2 cb))))"
    using ok assms a by (intro breaker.refused_then_open [where t = ?t]) auto
  moreover have "\<not> fst (fst (ShouldAllow (n1 + d) m2 cb))"
    if "0 \<le> d" "d < cb_cooldown cb - (n1 - ?t)" for d
    using ShouldAllow_refuse [OF ok, where ?n1.0 = "n1 + d" and ?n2.0 = m2] that assms by simp
  ultimately show ?thesis using a assms by (intro exI [of _ "cb_cooldown cb - (n1 - ?t)"]) auto
qed

theorem breaker_requeue_exact_witness:
  "\<exists>r. ShouldAllow 1100 1100 \<lparr>cb_cooldown = 300, cb_lastAllowed = 1000\<rparr>
       = ((False, r), \<lparr>cb_cooldown = 300, cb_lastAllowed = 1000\<rparr>) \<and> 0 < r \<and> r \<le> 300
     \<and> fst (fst (ShouldAllow (1100 + r) 2000 \<lparr>cb_cooldown = 300, cb_lastAllowed = 1000\<rparr>))"
  using breaker_requeue_exact [of "\<lparr>cb_cooldown = 300, cb_lastAllowed = 1000\<rparr>" 1100 2000 1100]
  by (auto simp: maxDuration_def zeroTime_def)

end
