(* ===== verification/Starvation.thy ===== *)
theory Starvation
  imports Progress Circuit_Breaker
begin

text \<open>
  The circuit breaker and the stabilisation window together. The source reconciler asks the breaker
  before it looks at the window, and an answer that allows restarts the breaker's cooldown, so the
  visit that would find the window over is refused, and when the breaker allows again the first
  sighting has expired. The reconciler is run with the breaker of theory \<open>Circuit_Breaker\<close> in the
  second component of the world.
\<close>

text \<open>The reconciler with a clock that shows \<open>t\<close>, and with the breaker.\<close>

definition at_time :: "('w, 'o) source_reconciler \<Rightarrow> time \<Rightarrow> ('w, 'o) source_reconciler" where
  "at_time r t = r\<lparr>pr_Client := (pr_Client r)\<lparr>k_now := ret t\<rparr>\<rparr>"

lemma at_time_simps [simp]:
  "pr_Cfg (at_time r t) = pr_Cfg r" "pr_Annotations (at_time r t) = pr_Annotations r"
  "pr_Get (at_time r t) = pr_Get r" "pr_ExtractFinding (at_time r t) = pr_ExtractFinding r"
  "pr_range (at_time r t) = pr_range r" "k_now (pr_Client (at_time r t)) = ret t"
  "k_get_namespace (pr_Client (at_time r t)) = k_get_namespace (pr_Client r)"
  by (simp_all add: at_time_def)

lemma wp_now [simp]: "wp (now (at_time r t)) Q s = Q t s"
  by (simp add: now_def wp_simps)

definition breaker_at :: "('v \<times> CircuitBreaker, 'o) source_reconciler \<Rightarrow> time \<Rightarrow> ('v \<times> CircuitBreaker, 'o) source_reconciler" where
  "breaker_at r t = (at_time r t)\<lparr>pr_CircuitBreaker := Some (ShouldAllowM (ret t))\<rparr>"

text \<open>Reconciles of one object at the given times.\<close>

fun visits :: "('v \<times> CircuitBreaker, 'o) source_reconciler \<Rightarrow> string \<Rightarrow> string \<Rightarrow> time list \<Rightarrow> ('v \<times> CircuitBreaker, unit) prog" where
  "visits r name ns [] = ret ()"
| "visits r name ns (t # ts) = do { _ \<leftarrow> Reconcile_source (breaker_at r t) name ns; visits r name ns ts }"

text \<open>Calls of the client that answer \<open>a\<close> and leave the breaker alone.\<close>

definition harmless :: "('v \<times> CircuitBreaker, 'a) state \<Rightarrow> bool" where
  "harmless c = (\<forall>w a w'. run_state c w = (a, w') \<longrightarrow> snd w' = snd w)"

definition isolated :: "('v \<times> CircuitBreaker, 'o) source_reconciler \<Rightarrow> string \<Rightarrow> string \<Rightarrow> 'o \<Rightarrow> Finding \<Rightarrow> bool" where
  "isolated r name ns obj f =
     (answers (pr_Get r name ns) (Inr obj) \<and> harmless (pr_Get r name ns)
      \<and> answers (pr_ExtractFinding r obj) (Inr (Some f)) \<and> harmless (pr_ExtractFinding r obj)
      \<and> harmless (k_get_namespace (pr_Client r) (f_Namespace f))
      \<and> 0 < f_ChainDepth f \<and> mget (pr_Annotations r obj) AnnotationPriority \<noteq> ''critical'')"

section \<open>The invariant\<close>

text \<open>A recorded sighting is as old as the breaker's last permission, and no clean-up came after it.\<close>

definition map_starved :: "duration \<Rightarrow> string \<Rightarrow> time \<Rightarrow> time \<Rightarrow> BoundedMap \<Rightarrow> bool" where
  "map_starved W fp u L m = (bm_ok m \<and> bm_ttl m = 2 * W \<and> bm_cleanupInterval m = W \<and> bm_lastCleanup m \<le> u
     \<and> (\<forall>T. map_of (bm_data m) fp = Some T \<longrightarrow> L = T \<and> bm_lastCleanup m \<le> T \<and> T \<noteq> zeroTime))"

definition starved :: "duration \<Rightarrow> duration \<Rightarrow> string \<Rightarrow> time \<Rightarrow> effect list \<Rightarrow> ('v \<times> CircuitBreaker) psys \<Rightarrow> bool" where
  "starved W C fp u es0 s = (cb_cooldown (snd (world s)) = C
     \<and> (initOnce s \<longrightarrow> map_starved W fp u (cb_lastAllowed (snd (world s))) (firstSeen s))
     \<and> (\<exists>es. trace s = es0 @ es \<and> list_all (\<lambda>e. \<not> is_create e) es))"

text \<open>Just after the breaker has allowed at \<open>t\<close>: a recorded sighting is at least a cooldown old.\<close>

definition just_allowed :: "duration \<Rightarrow> duration \<Rightarrow> string \<Rightarrow> time \<Rightarrow> effect list \<Rightarrow> ('v \<times> CircuitBreaker) psys \<Rightarrow> bool" where
  "just_allowed W C fp t es0 s = (initOnce s \<and> cb_cooldown (snd (world s)) = C \<and> cb_lastAllowed (snd (world s)) = t
     \<and> (\<exists>L. map_starved W fp t L (firstSeen s) \<and> (\<forall>T. map_of (bm_data (firstSeen s)) fp = Some T \<longrightarrow> T + C \<le> t))
     \<and> (\<exists>es. trace s = es0 @ es \<and> list_all (\<lambda>e. \<not> is_create e) es))"

lemma starved_later: "starved W C fp u es0 s \<Longrightarrow> u \<le> t \<Longrightarrow> starved W C fp t es0 s"
  by (auto simp: starved_def map_starved_def)

lemma starved_call:
  assumes "harmless c" "starved W C fp u es0 s" "run_state c (world s) = (a, w)"
  shows "starved W C fp u es0 (s\<lparr>world := w\<rparr>)"
proof -
  have "snd w = snd (world s)" using assms(1,3) unfolding harmless_def by blast
  with assms(2) show ?thesis by (simp add: starved_def)
qed

lemma starved_metric: "starved W C fp u es0 s \<Longrightarrow> starved W C fp u es0 (s\<lparr>trace := trace s @ [Metric m]\<rparr>)"
  by (auto simp: starved_def)

lemma wp_gate_keeps:
  "wp g (\<lambda>_ s'. P s') s \<Longrightarrow> (\<And>s' res. P s' \<Longrightarrow> Q res s') \<Longrightarrow> (\<And>s'. P s' \<Longrightarrow> wp k Q s') \<Longrightarrow> wp (unless_done g k) Q s"
  unfolding unless_done_def wp_bind by (erule wp_mono) (auto simp: wp_simps split: option.split)

lemma breaker_at_simps [simp]:
  "pr_Cfg (breaker_at r t) = pr_Cfg r" "pr_Annotations (breaker_at r t) = pr_Annotations r"
  "pr_Get (breaker_at r t) = pr_Get r" "pr_ExtractFinding (breaker_at r t) = pr_ExtractFinding r"
  "pr_CircuitBreaker (breaker_at r t) = Some (ShouldAllowM (ret t))" "pr_range (breaker_at r t) = pr_range r"
  "k_get_namespace (pr_Client (breaker_at r t)) = k_get_namespace (pr_Client r)"
  "now (breaker_at r t) = now (at_time r t)"
  by (simp_all add: breaker_at_def now_def)

text \<open>The map exists.\<close>

definition settled :: "duration \<Rightarrow> duration \<Rightarrow> string \<Rightarrow> time \<Rightarrow> effect list \<Rightarrow> ('v \<times> CircuitBreaker) psys \<Rightarrow> bool" where
  "settled W C fp u es0 s = (initOnce s \<and> starved W C fp u es0 s)"

lemma settled_call:
  assumes "harmless c" "answers c y" "settled W C fp u es0 s"
  shows "wp (ask c) (\<lambda>x s'. x = y \<and> settled W C fp u es0 s') s"
  unfolding wp_simps
proof (intro allI impI)
  fix a w assume r: "run_state c (world s) = (a, w)"
  from assms(3) starved_call [OF assms(1) _ r] answersD [OF assms(2) r] show "a = y \<and> settled W C fp u es0 (s\<lparr>world := w\<rparr>)"
    by (simp add: settled_def)
qed

lemma first_gates_settled:
  assumes "isolated r name ns obj f" "settled W C fp u es0 s"
  shows "wp (text_gate (breaker_at r t) txt) (\<lambda>_ s'. settled W C fp u es0 s') s"
    "wp (severity_gate (breaker_at r t) f) (\<lambda>_ s'. settled W C fp u es0 s') s"
    "wp (namespace_gate (breaker_at r t) f) (\<lambda>_ s'. settled W C fp u es0 s') s"
proof -
  from assms(2) have s: "initOnce s" "starved W C fp u es0 s" by (simp_all add: settled_def)
  show "wp (text_gate (breaker_at r t) txt) (\<lambda>_ s'. settled W C fp u es0 s') s"
    "wp (severity_gate (breaker_at r t) f) (\<lambda>_ s'. settled W C fp u es0 s') s"
    using s starved_metric [OF s(2)] by (auto simp: settled_def text_gate_def severity_gate_def suppressed_def wp_simps Let_def)
  have h: "harmless (k_get_namespace (pr_Client r) (f_Namespace f))" using assms(1) by (simp add: isolated_def)
  show "wp (namespace_gate (breaker_at r t) f) (\<lambda>_ s'. settled W C fp u es0 s') s"
    using s by (auto simp: settled_def namespace_gate_def wp_simps intro: starved_call [OF h s(2)] split: sum.split)
qed

section \<open>One visit\<close>

lemma breaker_answer:
  assumes "starved W C fp u es0 s" "u \<le> t" "initOnce s" "C \<le> maxDuration" "minDuration < C"
  shows "wp (ask (ShouldAllowM (ret t))) (\<lambda>(allowed, _) s'.
    if allowed then just_allowed W C fp t es0 s' else starved W C fp t es0 s') s"
proof -
  obtain v cb where w: "world s = (v, cb)" by fastforce
  have m: "map_starved W fp t (cb_lastAllowed cb) (firstSeen s)" "cb_cooldown cb = C"
      "\<exists>es. trace s = es0 @ es \<and> list_all (\<lambda>e. \<not> is_create e) es"
    using starved_later [OF assms(1,2)] assms(3) w by (auto simp: starved_def)
  have sub: "time_sub t (cb_lastAllowed cb) < C \<longleftrightarrow> t - cb_lastAllowed cb < C" using time_sub_less assms(4,5) by blast
  show ?thesis
  proof (cases "cb_lastAllowed cb \<noteq> zeroTime \<and> t - cb_lastAllowed cb < C")
    case True
    then show ?thesis using m assms(3) w by (auto simp: wp_simps ShouldAllowM_def sub starved_def)
  next
    case False
    then have "map_of (bm_data (firstSeen s)) fp = Some T \<Longrightarrow> T + C \<le> t" for T using m(1) by (auto simp: map_starved_def)
    with False m assms(3) w show ?thesis by (auto simp: wp_simps ShouldAllowM_def sub just_allowed_def)
  qed
qed

lemma depth_gate_starved:
  assumes "isolated r name ns obj f" "starved W C fp u es0 s" "u \<le> t" "initOnce s" "C \<le> maxDuration" "minDuration < C"
  shows "wp (depth_gate (breaker_at r t) f) (\<lambda>x s'. if x = None then just_allowed W C fp t es0 s' else starved W C fp t es0 s') s"
proof -
  have d: "0 < f_ChainDepth f" using assms(1) by (simp add: isolated_def)
  have two: "starved W C fp t es0 s' \<Longrightarrow> starved W C fp t es0 (s'\<lparr>trace := trace s' @ [Metric m, Metric m']\<rparr>)" for s' m m'
    by (auto simp: starved_def)
  show ?thesis
    unfolding depth_gate_def if_P [OF d] Let_def wp_if
    using starved_metric [OF starved_later [OF assms(2,3)]] two [of "s\<lparr>world := w\<rparr>" for w] breaker_answer [OF assms(2-6)]
    by (auto simp: suppressed_def wp_simps)
qed

lemma SetNow_starved:
  assumes "range_ok it" "map_starved W fp t L m"
  shows "wp (SetNow (now (at_time r t)) it fp m) (\<lambda>(_, m') s'. s' = s \<and> (t \<noteq> zeroTime \<longrightarrow> map_starved W fp t t m')) s"
proof -
  have m: "bm_ok m" "bm_lastCleanup m \<le> t" "bm_ttl m = 2 * W" "bm_cleanupInterval m = W" using assms(2) by (simp_all add: map_starved_def)
  have "wp (cleanupIfNeeded (now (at_time r t)) m) (\<lambda>m' s'. s' = s \<and> bm_lastCleanup m' \<le> t) s"
    using m(2) by (simp add: cleanupIfNeeded_def needsCleanup_def wp_simps)
  from wp_conjI [OF this cleanup_spec [of "now (at_time r t)" m s]]
  have "wp (cleanupIfNeeded (now (at_time r t)) m) (\<lambda>m' s'. s' = s \<and> bm_ok m' \<and> bm_ttl m' = 2 * W
      \<and> bm_cleanupInterval m' = W \<and> bm_lastCleanup m' \<le> t) s"
    by (rule wp_mono) (use m bm_ok_filter [OF m(1)] in auto)
  moreover have "t \<noteq> zeroTime \<longrightarrow> map_starved W fp t t (snd (insert_entry it fp t m'))"
    if "bm_ok m'" "bm_ttl m' = 2 * W" "bm_cleanupInterval m' = W" "bm_lastCleanup m' \<le> t" for m'
    using that insert_entry_ok [OF assms(1) that(1), of fp t] insert_entry_lookup(1) [OF assms(1) that(1), of fp t]
    by (auto simp: map_starved_def insert_entry_def split: option.splits prod.splits if_splits)
  ultimately show ?thesis
    unfolding SetNow_def SetWithTime_def wp_bind wp_now
    by (auto elim!: wp_mono simp: wp_simps case_prod_beta)
qed

lemma window_starved:
  assumes "isolated r name ns obj f" "just_allowed W C fp t es0 s" "cfg_StabilisationWindow (pr_Cfg r) = W"
    and "0 < W" "2 * W < C" "C \<le> maxDuration" "range_ok (pr_range r)" "t \<noteq> zeroTime"
  shows "wp (stabilisation_gate (breaker_at r t) obj fp) (\<lambda>x s'. x \<noteq> None \<and> starved W C fp t es0 s') s"
proof -
  from assms(2) obtain L where m: "map_starved W fp t L (firstSeen s)"
      "\<And>T. map_of (bm_data (firstSeen s)) fp = Some T \<Longrightarrow> T + C \<le> t"
    and b: "initOnce s" "cb_cooldown (snd (world s)) = C" "cb_lastAllowed (snd (world s)) = t"
      "\<exists>es. trace s = es0 @ es \<and> list_all (\<lambda>e. \<not> is_create e) es"
    unfolding just_allowed_def by blast
  have get: "wp (Get (now (at_time r t)) fp (firstSeen s)) (\<lambda>x s'. x = None \<and> s' = s) s"
  proof (cases "map_of (bm_data (firstSeen s)) fp")
    case None
    then show ?thesis by (simp add: Get_def needsCleanup_def wp_simps)
  next
    case (Some T)
    then have T: "bm_lastCleanup (firstSeen s) \<le> T" "T + C \<le> t" using m by (auto simp: map_starved_def)
    have "W < time_sub t (bm_lastCleanup (firstSeen s))" "2 * W < time_sub t T"
      using T assms(4-6) by (subst time_sub_greater; simp add: minDuration_def)+
    with Some m(1) assms(4) show ?thesis by (simp add: Get_def needsCleanup_def wp_simps map_starved_def)
  qed
  have c: "mget (pr_Annotations r obj) AnnotationPriority \<noteq> ''critical''" using assms(1) by (simp add: isolated_def)
  show ?thesis
    unfolding stabilisation_gate_def Let_def
    using assms(3,4) c
    by (auto simp: wp_simps suppressed_def intro!: wp_mono [OF get] wp_mono [OF SetNow_starved [OF assms(7) m(1)]])
      (use b assms(8) in \<open>auto simp: starved_def\<close>)
qed

lemma init_starved:
  assumes "starved W C fp u es0 s" "u \<le> t" "cfg_StabilisationWindow (pr_Cfg r) = W" "0 < W" "2 * W < maxDuration"
  shows "wp (initFirstSeen (breaker_at r t)) (\<lambda>_ s'. initOnce s' \<and> starved W C fp t es0 s') s"
proof -
  have "wrap64 (W * 2) = 2 * W" "quot (2 * W) 2 = W" using assms(4,5) by (simp_all add: wrap64_id minDuration_def mult.commute quot_def)
  then show ?thesis
    using starved_later [OF assms(1,2)] assms(3,4)
    by (auto simp: initFirstSeen_def NewBoundedMap_def wp_simps Let_def starved_def map_starved_def bm_ok_def)
qed

lemma visit_starved:
  assumes "isolated r name ns obj f" "FindingFingerprint f = Inr fp" "starved W C fp u es0 s" "u \<le> t"
    and "cfg_StabilisationWindow (pr_Cfg r) = W" "0 < W" "2 * W < C" "C \<le> maxDuration" "range_ok (pr_range r)" "t \<noteq> zeroTime"
  shows "wp (Reconcile_source (breaker_at r t) name ns) (\<lambda>_ s'. starved W C fp t es0 s') s"
proof -
  let ?r = "breaker_at r t"
  let ?J = "settled W C fp t es0" and ?Q = "\<lambda>_ s'. starved W C fp t es0 s'"
  have JQ: "?J s' \<Longrightarrow> ?Q x s'" for x s' by (simp add: settled_def)
  have adm: "wp (admit ?r name ns obj f fp) ?Q s'" if "just_allowed W C fp t es0 s'" for s'
    unfolding admit_def unless_done_def [of "stabilisation_gate _ _ _"] wp_bind
    by (rule wp_mono [OF window_starved [OF assms(1) that assms(5-10)]]) (auto simp: wp_simps)
  have depth: "wp (unless_done (depth_gate ?r f) (admit ?r name ns obj f fp)) ?Q s'" if "?J s'" for s'
    unfolding unless_done_def wp_bind
    by (rule wp_mono [OF depth_gate_starved [OF assms(1), of W C fp t es0]])
      (use that assms(6-8) adm in \<open>auto simp: settled_def wp_simps minDuration_def split: option.splits\<close>)
  have fp: "\<not> length fp < 12" using assms(2) by (auto simp: FindingFingerprint_def split: option.splits)
  have h: "wp (handle_finding ?r name ns obj f) ?Q s'" if "?J s'" for s'
    unfolding handle_finding_def assms(2) sum.case if_not_P [OF fp]
    by (rule wp_gate_keeps [OF first_gates_settled(1) [OF assms(1) that] JQ], assumption,
        rule wp_gate_keeps [OF first_gates_settled(1) [OF assms(1)] JQ], assumption+,
        rule wp_gate_keeps [OF first_gates_settled(3) [OF assms(1)] JQ], assumption+,
        rule wp_gate_keeps [OF first_gates_settled(2) [OF assms(1)] JQ], assumption+, rule depth)
  have a: "answers (pr_Get r name ns) (Inr obj)" "answers (pr_ExtractFinding r obj) (Inr (Some f))"
      "harmless (pr_Get r name ns)" "harmless (pr_ExtractFinding r obj)"
    using assms(1) by (simp_all add: isolated_def)
  have found: "wp (do { x \<leftarrow> ask (pr_ExtractFinding ?r obj); case x of Inl e \<Rightarrow> ret (Done, Some e)
      | Inr None \<Rightarrow> finding_cleared ?r name ns | Inr (Some finding) \<Rightarrow> handle_finding ?r name ns obj finding }) ?Q s'" if "?J s'" for s'
    unfolding wp_bind breaker_at_simps
    by (rule wp_mono [OF settled_call [OF a(4,2) that]]) (use h in auto)
  have "wp (reconcile_object ?r name ns) ?Q s'" if "?J s'" for s'
    unfolding reconcile_object_def wp_bind [of "ask (pr_Get ?r name ns)"]
    by (rule wp_mono [OF settled_call [OF a(3,1) [folded breaker_at_simps(3) [of r t]] that]]) (use found in auto)
  then show ?thesis
    unfolding Reconcile_source_def wp_bind
    by (intro wp_mono [OF init_starved [OF assms(3-6)]]) (use assms(7,8) in \<open>simp_all add: settled_def\<close>)
qed

text \<open>Any sequence of visits.\<close>

lemma visits_starved:
  assumes "isolated r name ns obj f" "FindingFingerprint f = Inr fp" "starved W C fp u es0 s" "sorted (u # ts)"
    and "cfg_StabilisationWindow (pr_Cfg r) = W" "0 < W" "2 * W < C" "C \<le> maxDuration" "range_ok (pr_range r)" "zeroTime \<notin> set ts"
  shows "wp (visits r name ns ts) (\<lambda>_ s'. \<exists>t. starved W C fp t es0 s') s"
  using assms(3,4,10)
proof (induction ts arbitrary: u s)
  case (Cons t ts)
  have "wp (Reconcile_source (breaker_at r t) name ns) (\<lambda>_ s'. starved W C fp t es0 s') s"
    by (rule visit_starved [OF assms(1,2) Cons.prems(1) _ assms(5-9)]) (use Cons.prems in auto)
  then show ?case
    unfolding visits.simps wp_bind by (rule wp_mono) (use Cons in auto)
qed (auto simp: wp_simps)

lemma starved_no_create: "starved W C fp t es0 s \<Longrightarrow> \<exists>es. trace s = es0 @ es \<and> (\<forall>j. CreateRJob j \<notin> set es)"
  unfolding starved_def list_all_iff using is_create_def by fastforce

section \<open>Properties\<close>

text \<open>
  C29. Self-remediation starves when the breaker's cooldown is more than twice the stabilisation window,
  as it is by default (300 and 120 seconds): however often and at whatever times a failing agent job
  is reconciled from the start of the watcher on, if it is the only finding of its provider no
  \<open>RemediationJob\<close> is ever created for it.
\<close>

theorem self_remediation_starves:
  assumes "isolated r name ns obj f" "FindingFingerprint f = Inr fp" "range_ok (pr_range r)"
    and "0 < cfg_StabilisationWindow (pr_Cfg r)" "2 * cfg_StabilisationWindow (pr_Cfg r) < C" "C \<le> maxDuration"
    and "snd (world s) = NewCircuitBreaker C" "\<not> initOnce s" "sorted ts" "zeroTime \<notin> set ts"
  shows "wp (visits r name ns ts) (\<lambda>_ s'. \<exists>es. trace s' = trace s @ es \<and> (\<forall>j. CreateRJob j \<notin> set es)) s"
proof -
  let ?u = "case ts of [] \<Rightarrow> 0 | t # _ \<Rightarrow> t"
  have "starved (cfg_StabilisationWindow (pr_Cfg r)) C fp ?u (trace s) s"
    using assms(7,8) by (simp add: starved_def NewCircuitBreaker_def)
  moreover have "sorted (?u # ts)" using assms(9) by (cases ts) auto
  ultimately show ?thesis
    by (rule wp_mono [OF visits_starved [OF assms(1,2) _ _ refl assms(4-6,3,10)]])
      (blast dest: starved_no_create)
qed

definition agent_source :: "(unit \<times> CircuitBreaker, unit) source_reconciler" where
  "agent_source = \<lparr>pr_Client = empty_cluster 0,
     pr_Cfg = default_config ''org/repo'' ''k8s'' ''img'' ''mechanic'' ''agent'',
     pr_ProviderName = ''native'', pr_Get = (\<lambda>name ns. ret (Inr ())), pr_Annotations = (\<lambda>_. Map.empty),
     pr_ExtractFinding = (\<lambda>_. ret (Inr (Some ((sample_finding ''mechanic-agent-0'' [])\<lparr>f_ChainDepth := 1\<rparr>)))),
     pr_Recorder = True, pr_ReadinessChecker = None, pr_CircuitBreaker = None, pr_SinkCloser = None,
     pr_PRMergeChecker = None, pr_range = (\<lambda>xs. xs)\<rparr>"

definition agent_start :: "(unit \<times> CircuitBreaker) psys" where
  "agent_start = \<lparr>world = ((), NewCircuitBreaker (300 * Second)), trace = [], firstSeen = \<lparr>bm_data = [], bm_maxSize = 0, bm_ttl = 0,
     bm_lastCleanup = 0, bm_cleanupInterval = 0\<rparr>, initOnce = False\<rparr>"

theorem self_remediation_starves_witness:
  "wp (visits agent_source ''mechanic-agent-0'' ''mechanic'' [0, 120 * Second, 300 * Second, 420 * Second, 600 * Second])
     (\<lambda>_ s'. \<forall>j. CreateRJob j \<notin> set (trace s')) agent_start"
proof -
  let ?f = "(sample_finding ''mechanic-agent-0'' [])\<lparr>f_ChainDepth := 1\<rparr>"
  obtain fp where fp: "FindingFingerprint ?f = Inr fp" by (simp add: FindingFingerprint_def error_texts_def sample_finding_def)
  have i: "isolated agent_source ''mechanic-agent-0'' ''mechanic'' () ?f"
    by (simp add: isolated_def agent_source_def harmless_def empty_cluster_def mget_def)
  show ?thesis
    by (rule wp_mono [OF self_remediation_starves [OF i fp, where C = "300 * Second"]])
      (auto simp: agent_source_def agent_start_def range_ok_def default_config_def Second_def maxDuration_def zeroTime_def)
qed

end
