(* ===== verification/Readiness.thy ===== *)
theory Readiness
  imports Source_Provider
begin

text \<open>
  \<open>src/internal/readiness\<close>: the checks that must pass before a job is created. A \<open>Checker\<close> is a
  program over the world that returns an error or nothing. The read of a Secret and the state of the
  context are arguments. \<open>CachedChecker\<close> releases its mutex while the wrapped check runs, so its
  check is the two critical sections \<open>cache_lookup\<close> and \<open>cache_store\<close> with the wrapped check between.
\<close>

type_synonym 'w check = "('w, go_error option) state"

definition JoinErrors :: "go_error list \<Rightarrow> go_error option" where
  "JoinErrors errs = (if errs = [] then None else Some (Joined errs))"

text \<open>The interface \<open>Checker\<close>.\<close>

record 'w Checker =
  ck_Name :: string
  ck_Check :: "'w check"

text \<open>The loop of \<open>allChecker.Check\<close>; \<open>ctxErr\<close> is \<open>ctx.Err()\<close>.\<close>

fun all_loop :: "'w check \<Rightarrow> 'w check list \<Rightarrow> ('w, go_error list) state" where
  "all_loop ctxErr [] = ret []"
| "all_loop ctxErr (c # cs) = do {
     x \<leftarrow> ctxErr;
     case x of
       Some e \<Rightarrow> ret [e]
     | None \<Rightarrow> do {
         r \<leftarrow> c;
         es \<leftarrow> all_loop ctxErr cs;
         ret (case r of Some e \<Rightarrow> e # es | None \<Rightarrow> es)
       }
   }"

definition All_Check :: "'w check \<Rightarrow> 'w check list \<Rightarrow> 'w check" where
  "All_Check ctxErr checkers = do { errs \<leftarrow> all_loop ctxErr checkers; ret (JoinErrors errs) }"

definition All_Checker :: "'w check \<Rightarrow> 'w Checker list \<Rightarrow> 'w Checker" where
  "All_Checker ctxErr checkers = \<lparr>ck_Name = ''all'', ck_Check = All_Check ctxErr (map ck_Check checkers)\<rparr>"

definition NopChecker_Check :: "'w check" where
  "NopChecker_Check = ret None"

definition NewNopChecker :: "string \<Rightarrow> 'w Checker" where
  "NewNopChecker name = \<lparr>ck_Name = name, ck_Check = NopChecker_Check\<rparr>"

section \<open>The cache\<close>

record CachedChecker =
  cc_ttl :: duration
  cc_lastCheck :: time
  cc_lastErr :: "go_error option"

definition NewCachedChecker :: "duration \<Rightarrow> CachedChecker" where
  "NewCachedChecker ttl = \<lparr>cc_ttl = ttl, cc_lastCheck = zeroTime, cc_lastErr = None\<rparr>"

text \<open>The fast path: \<open>Some\<close> the cached result, if it may be used.\<close>

definition cache_lookup :: "('w, time) state \<Rightarrow> CachedChecker \<Rightarrow> ('w, go_error option option) state" where
  "cache_lookup clk c =
     (if 0 < cc_ttl c \<and> cc_lastCheck c \<noteq> zeroTime
      then do {
        t \<leftarrow> clk;
        ret (if time_sub t (cc_lastCheck c) < cc_ttl c then Some (cc_lastErr c) else None)
      }
      else ret None)"

definition cache_store :: "('w, time) state \<Rightarrow> go_error option \<Rightarrow> CachedChecker \<Rightarrow> ('w, CachedChecker) state" where
  "cache_store clk err c = do { t \<leftarrow> clk; ret (c\<lparr>cc_lastErr := err, cc_lastCheck := t\<rparr>) }"

definition Cached_Check :: "('w, time) state \<Rightarrow> 'w check \<Rightarrow> CachedChecker \<Rightarrow> ('w, go_error option \<times> CachedChecker) state" where
  "Cached_Check clk inner c = do {
     l \<leftarrow> cache_lookup clk c;
     case l of
       Some err \<Rightarrow> ret (err, c)
     | None \<Rightarrow> do {
         err \<leftarrow> inner;
         c' \<leftarrow> cache_store clk err c;
         ret (err, c')
       }
   }"

section \<open>The credentials\<close>

type_synonym 'w get_secret = "string \<Rightarrow> string \<Rightarrow> ('w, api_error + (string \<rightharpoonup> string)) state"

definition githubAppSecretName :: string where "githubAppSecretName = ''github-app''"

definition requiredGitHubAppKeys :: "string list" where
  "requiredGitHubAppKeys = [''app-id'', ''installation-id'', ''private-key'']"

definition requiredLLMKeys :: "string list" where
  "requiredLLMKeys = [''provider-config'']"

text \<open>The loop over the required keys: the first one that is missing or empty.\<close>

definition missing_key :: "string list \<Rightarrow> (string \<rightharpoonup> string) \<Rightarrow> string option" where
  "missing_key keys data = List.find (\<lambda>k. data k = None \<or> data k = Some []) keys"

definition GitHubApp_Check :: "'w get_secret \<Rightarrow> string \<Rightarrow> 'w check" where
  "GitHubApp_Check get_secret namespace = do {
     s \<leftarrow> get_secret namespace githubAppSecretName;
     ret (case s of
            Inl e \<Rightarrow> Some (Wrap (''sink/github-app: secret '' @ githubAppSecretName @ '' not found in namespace '' @ namespace) (Api e))
          | Inr data \<Rightarrow> map_option (\<lambda>k. Err (''sink/github-app: secret '' @ githubAppSecretName @ '' is missing required key '' @ k))
                         (missing_key requiredGitHubAppKeys data))
   }"

definition NewGitHubAppChecker :: "'w get_secret \<Rightarrow> string \<Rightarrow> 'w Checker" where
  "NewGitHubAppChecker get_secret namespace = \<lparr>ck_Name = ''sink/github-app'', ck_Check = GitHubApp_Check get_secret namespace\<rparr>"

definition llmSecretName :: "string \<Rightarrow> string" where
  "llmSecretName agentType = ''llm-credentials-'' @ agentType"

definition OpenAI_Check :: "'w get_secret \<Rightarrow> string \<Rightarrow> string \<Rightarrow> 'w check" where
  "OpenAI_Check get_secret namespace agentType = do {
     s \<leftarrow> get_secret namespace (llmSecretName agentType);
     ret (case s of
            Inl e \<Rightarrow> Some (Wrap (''llm/openai: secret '' @ llmSecretName agentType @ '' not found in namespace '' @ namespace) (Api e))
          | Inr data \<Rightarrow> map_option (\<lambda>k. Err (''llm/openai: secret '' @ llmSecretName agentType @ '' is missing required key '' @ k))
                         (missing_key requiredLLMKeys data))
   }"

definition NewOpenAIChecker :: "'w get_secret \<Rightarrow> string \<Rightarrow> string \<Rightarrow> 'w Checker" where
  "NewOpenAIChecker get_secret namespace agentType =
     \<lparr>ck_Name = ''llm/openai'', ck_Check = OpenAI_Check get_secret namespace agentType\<rparr>"

definition Bedrock_Check :: "'w check" where
  "Bedrock_Check = ret (Some (Err ''llm/bedrock: checker not yet implemented''))"

definition NewBedrockChecker :: "string \<Rightarrow> 'w Checker" where
  "NewBedrockChecker namespace = \<lparr>ck_Name = ''llm/bedrock'', ck_Check = Bedrock_Check\<rparr>"

definition Vertex_Check :: "'w check" where
  "Vertex_Check = ret (Some (Err ''llm/vertex: checker not yet implemented''))"

definition NewVertexChecker :: "string \<Rightarrow> 'w Checker" where
  "NewVertexChecker namespace = \<lparr>ck_Name = ''llm/vertex'', ck_Check = Vertex_Check\<rparr>"

section \<open>Lemmas\<close>

lemma missing_key_None: "missing_key keys data = None \<longleftrightarrow> (\<forall>k \<in> set keys. \<exists>v. data k = Some v \<and> v \<noteq> [])"
  by (auto simp: missing_key_def find_None_iff)

text \<open>A check that never changes its verdict, for instance one that reads objects nobody writes.\<close>

definition constant_check :: "'w check \<Rightarrow> go_error option \<Rightarrow> bool" where
  "constant_check c e = (\<forall>w. fst (run_state c w) = e)"

lemma constant_checkD: "constant_check c e \<Longrightarrow> run_state c w = (x, w') \<Longrightarrow> x = e"
  by (metis constant_check_def fst_conv)

lemma constant_wp: "constant_check c e \<Longrightarrow> (\<And>w'. Q e w') \<Longrightarrow> wp c Q w"
  by (rule wpI) (auto dest: constant_checkD)

lemma wp_all_loop:
  assumes "constant_check ctxErr None" "list_all2 constant_check cs vs"
  shows "wp (all_loop ctxErr cs) (\<lambda>es _. es = [e. Some e \<leftarrow> vs]) w"
  using assms(2)
proof (induction cs arbitrary: vs w)
  case Nil
  then show ?case by (simp add: wp_simps)
next
  case (Cons c cs)
  then obtain v vs' where v: "vs = v # vs'" "constant_check c v" "list_all2 constant_check cs vs'" by (auto simp: list_all2_Cons1)
  show ?case
    unfolding all_loop.simps wp_bind
    by (rule constant_wp [OF assms(1)])
      (auto simp: v(1) wp_simps intro!: constant_wp [OF v(2)] wp_mono [OF Cons.IH [OF v(3)]] split: option.split)
qed

section \<open>Properties\<close>

text \<open>
  The combined check passes exactly when every check passes: as long as the context is alive, it
  returns the errors of all failing checks, in order, and nothing if there are none.
\<close>

theorem all_check_conjunction:
  assumes "constant_check ctxErr None" "list_all2 constant_check cs vs"
  shows "wp (All_Check ctxErr cs) (\<lambda>res _. res = JoinErrors [e. Some e \<leftarrow> vs] \<and> (res = None \<longleftrightarrow> set vs \<subseteq> {None})) w"
proof -
  have "JoinErrors [e. Some e \<leftarrow> vs] = None \<longleftrightarrow> set vs \<subseteq> {None}"
    by (induction vs) (auto simp: JoinErrors_def split: option.splits if_splits)
  then show ?thesis
    unfolding All_Check_def wp_bind
    by (auto simp: wp_simps intro!: wp_mono [OF wp_all_loop [OF assms]])
qed

theorem all_check_conjunction_witness:
  "wp (All_Check NopChecker_Check [NopChecker_Check, Bedrock_Check, Vertex_Check])
     (\<lambda>res _. res = Some (Joined [Err ''llm/bedrock: checker not yet implemented'', Err ''llm/vertex: checker not yet implemented''])) ()"
  by (rule wp_mono [OF all_check_conjunction [where vs = "[None, Some (Err ''llm/bedrock: checker not yet implemented''),
        Some (Err ''llm/vertex: checker not yet implemented'')]"]])
    (auto simp: constant_check_def NopChecker_Check_def Bedrock_Check_def Vertex_Check_def JoinErrors_def)

text \<open>
  The cache never holds a stale verdict back: a check is answered from the cache only within the
  cache's lifetime after the last run, and otherwise runs afresh and stores its answer. With the
  lifetime that the watcher uses, a reconcile that comes back after the requeue interval of a failed
  readiness gate, counted from the clock reading that stored the failure, always runs the check again.
\<close>

theorem cached_check_fresh:
  assumes "cc_ttl c = ReadinessCacheTTL"
  shows "wp (Cached_Check clk inner c) (\<lambda>(e, c') _.
      (\<exists>u u'. run_state inner u = (e, u')) \<and> cc_lastErr c' = e \<and> cc_ttl c' = cc_ttl c
         \<and> (\<exists>u u'. run_state clk u = (cc_lastCheck c', u'))
      \<or> c' = c \<and> e = cc_lastErr c \<and> (\<exists>t u u'. run_state clk u = (t, u') \<and> t < cc_lastCheck c + ReadinessCacheTTL)) w"
proof -
  have ttl: "time_sub t (cc_lastCheck c) < ReadinessCacheTTL \<longleftrightarrow> t < cc_lastCheck c + ReadinessCacheTTL" for t
    using time_sub_less [of ReadinessCacheTTL t "cc_lastCheck c"]
    by (auto simp: ReadinessCacheTTL_def Second_def minDuration_def maxDuration_def)
  show ?thesis
    by (auto simp: Cached_Check_def cache_lookup_def cache_store_def wp_simps assms ttl wp_all [of clk] wp_all [of inner]
        split: option.split) blast+
qed

theorem cached_check_fresh_witness:
  "wp (Cached_Check (ret (100 * Second)) Bedrock_Check \<lparr>cc_ttl = ReadinessCacheTTL, cc_lastCheck = 40 * Second, cc_lastErr = None\<rparr>)
     (\<lambda>(e, c') _. e = Some (Err ''llm/bedrock: checker not yet implemented'')) ()"
  by (rule wp_mono [OF cached_check_fresh]) (auto simp: Bedrock_Check_def Second_def ReadinessCacheTTL_def)

end
