(* ===== verification/GitHub.thy ===== *)
theory GitHub
  imports Metrics Go_Json
begin

text \<open>
  The GitHub side: \<open>src/internal/github/token.go\<close> (installation tokens with their cache),
  \<open>src/internal/sink/github/closer.go\<close> (closing a pull request or issue) and \<open>merge_checker.go\<close>.
  The HTTP client, the construction of a request from a URL, the signing of a JWT and the clock are
  outside: they are the record \<open>'h github_api\<close>. The programs run on \<open>'h net\<close>, which has the token
  cache and the requests sent so far.
\<close>

record request =
  hr_Method :: string
  hr_URL :: string
  hr_Authorization :: string
  hr_Body :: "string option"

record response =
  hp_StatusCode :: int
  hp_Body :: string

record 'h github_api =
  gh_now :: "('h, time) state"
  gh_NewRequest :: "string \<Rightarrow> string \<Rightarrow> go_error option"  \<comment> \<open>method and URL\<close>
  gh_Do :: "request \<Rightarrow> ('h, go_error + response) state"
  gh_SignedString :: "time \<Rightarrow> time \<Rightarrow> string \<Rightarrow> go_error + string"  \<comment> \<open>issued, expires, issuer\<close>

record 'h net =
  net_world :: 'h
  net_sent :: "request list"
  net_metrics :: "metric list"
  net_cachedToken :: string
  net_expiresAt :: time

type_synonym ('h, 'a) net_prog = "('h net, 'a) state"

definition net_ask :: "('h, 'a) state \<Rightarrow> ('h, 'a) net_prog" where
  "net_ask c = State (\<lambda>s. case run_state c (net_world s) of (a, w) \<Rightarrow> (a, s\<lparr>net_world := w\<rparr>))"

definition net_do :: "'h github_api \<Rightarrow> request \<Rightarrow> ('h, go_error + response) net_prog" where
  "net_do A req = State (\<lambda>s. case run_state (gh_Do A req) (net_world s) of
     (a, w) \<Rightarrow> (a, s\<lparr>net_world := w, net_sent := net_sent s @ [req]\<rparr>))"

definition net_metric :: "metric \<Rightarrow> ('h, unit) net_prog" where
  "net_metric m = State (\<lambda>s. ((), s\<lparr>net_metrics := net_metrics s @ [m]\<rparr>))"

definition net_cache :: "string \<Rightarrow> time \<Rightarrow> ('h, unit) net_prog" where
  "net_cache tok t = State (\<lambda>s. ((), s\<lparr>net_cachedToken := tok, net_expiresAt := t\<rparr>))"

definition bearer :: "string \<Rightarrow> string" where
  "bearer token = ''Bearer '' @ token"

text \<open>Building and sending a request; the two error texts are those of the caller.\<close>

definition call :: "'h github_api \<Rightarrow> string \<Rightarrow> string \<Rightarrow> string \<Rightarrow> string \<Rightarrow> string \<Rightarrow> string option \<Rightarrow>
    ('h, go_error + response) net_prog" where
  "call A building executing meth url auth body =
     (case gh_NewRequest A meth url of
        Some e \<Rightarrow> ret (Inl (Wrap building e))
      | None \<Rightarrow> do {
          r \<leftarrow> net_do A \<lparr>hr_Method = meth, hr_URL = url, hr_Authorization = bearer auth, hr_Body = body\<rparr>;
          ret (case r of Inl e \<Rightarrow> Inl (Wrap executing e) | Inr resp \<Rightarrow> Inr resp)
        })"

definition base_url :: "string \<Rightarrow> string" where
  "base_url base = (if base = [] then ''https://api.github.com'' else base)"

section \<open>Installation tokens\<close>

record TokenProvider =
  tp_AppID :: int
  tp_InstallationID :: int
  tp_BaseURL :: string

definition tokenCacheTTL :: duration where
  "tokenCacheTTL = 55 * Minute"

definition exchange :: "'h github_api \<Rightarrow> TokenProvider \<Rightarrow> ('h, go_error + string) net_prog" where
  "exchange A p = do {
     now \<leftarrow> net_ask (gh_now A);
     case gh_SignedString A (now + (- 60 * Second)) (now + 10 * Minute) (itoa (tp_AppID p)) of
       Inl e \<Rightarrow> ret (Inl (Wrap ''signing JWT'' e))
     | Inr signed \<Rightarrow> do {
         r \<leftarrow> call A ''building token request'' ''token exchange request'' ''POST''
           (base_url (tp_BaseURL p) @ ''/app/installations/'' @ itoa (tp_InstallationID p) @ ''/access_tokens'') signed None;
         ret (case r of
                Inl e \<Rightarrow> Inl e
              | Inr resp \<Rightarrow>
                  if hp_StatusCode resp \<noteq> 201
                  then Inl (Err (''token exchange: unexpected status '' @ itoa (hp_StatusCode resp)))
                  else (case Decode_field ''token'' (hp_Body resp) of
                          None \<Rightarrow> Inl (Err ''decoding token response'')
                        | Some tok \<Rightarrow> if tok = [] then Inl (Err ''token exchange: empty token in response'') else Inr tok))
       }
   }"

definition Token :: "'h github_api \<Rightarrow> TokenProvider \<Rightarrow> ('h, go_error + string) net_prog" where
  "Token A p = do {
     s \<leftarrow> State_Monad.get;
     valid \<leftarrow> (if net_cachedToken s \<noteq> []
              then do { now \<leftarrow> net_ask (gh_now A); ret (now < net_expiresAt s) }
              else ret False);
     if valid then ret (Inr (net_cachedToken s))
     else do {
       r \<leftarrow> exchange A p;
       case r of
         Inl e \<Rightarrow> ret (Inl e)
       | Inr tok \<Rightarrow> do {
           now \<leftarrow> net_ask (gh_now A);
           net_cache tok (now + tokenCacheTTL);
           ret (Inr tok)
         }
     }
   }"

definition ForceExpiry :: "'h github_api \<Rightarrow> ('h, unit) net_prog" where
  "ForceExpiry A = do {
     s \<leftarrow> State_Monad.get;
     now \<leftarrow> net_ask (gh_now A);
     net_cache (net_cachedToken s) (now + (- Second))
   }"

section \<open>Closing a sink\<close>

definition issue_url :: "string \<Rightarrow> string \<Rightarrow> int \<Rightarrow> string" where
  "issue_url base repo num = base @ ''/repos/'' @ repo @ ''/issues/'' @ itoa num"

definition pull_url :: "string \<Rightarrow> string \<Rightarrow> int \<Rightarrow> string" where
  "pull_url base repo num = base @ ''/repos/'' @ repo @ ''/pulls/'' @ itoa num"

definition isClosed :: "'h github_api \<Rightarrow> string \<Rightarrow> string \<Rightarrow> string \<Rightarrow> int \<Rightarrow> ('h, go_error + bool) net_prog" where
  "isClosed A base token repo num = do {
     r \<leftarrow> call A ''building state request'' ''fetching issue state'' ''GET'' (issue_url base repo num) token None;
     ret (case r of
            Inl e \<Rightarrow> Inl e
          | Inr resp \<Rightarrow>
              if hp_StatusCode resp \<noteq> 200
              then Inl (Err (''fetching issue state: unexpected status '' @ itoa (hp_StatusCode resp)))
              else (case Decode_field ''state'' (hp_Body resp) of
                      None \<Rightarrow> Inl (Err ''decoding issue state'')
                    | Some st \<Rightarrow> Inr (st = ''closed'')))
   }"

definition postComment :: "'h github_api \<Rightarrow> string \<Rightarrow> string \<Rightarrow> string \<Rightarrow> int \<Rightarrow> string \<Rightarrow> ('h, go_error option) net_prog" where
  "postComment A base token repo num body = do {
     r \<leftarrow> call A ''building comment request'' ''posting comment'' ''POST'' (issue_url base repo num @ ''/comments'') token
       (Some (encode_object True [(''body'', encode_string True body)]));
     ret (case r of
            Inl e \<Rightarrow> Some e
          | Inr resp \<Rightarrow>
              if hp_StatusCode resp = 201 then None
              else Some (Err (''posting comment: unexpected status '' @ itoa (hp_StatusCode resp))))
   }"

definition closeItem :: "'h github_api \<Rightarrow> string \<Rightarrow> string \<Rightarrow> string \<Rightarrow> int \<Rightarrow> string \<Rightarrow> ('h, go_error option) net_prog" where
  "closeItem A base token repo num sinkType = do {
     r \<leftarrow> call A ''building close request'' (''closing '' @ sinkType) ''PATCH''
       (if sinkType = ''pr'' then pull_url base repo num else issue_url base repo num) token
       (Some (encode_object True [(''state'', encode_string True ''closed'')]));
     ret (case r of
            Inl e \<Rightarrow> Some e
          | Inr resp \<Rightarrow>
              if hp_StatusCode resp = 200 \<or> hp_StatusCode resp = 422 then None
              else Some (Err (''closing '' @ sinkType @ '': unexpected status '' @ itoa (hp_StatusCode resp))))
   }"

definition Close :: "'h github_api \<Rightarrow> ('h, go_error + string) net_prog \<Rightarrow> string \<Rightarrow> RemediationJob \<Rightarrow> string \<Rightarrow>
    ('h, go_error option) net_prog" where
  "Close A tokens baseURL rjob reason =
     (let ref = st_SinkRef (rj_Status rjob); base = base_url baseURL in
      if sr_URL ref = [] then ret None
      else if sr_Number ref \<le> 0
      then ret (Some (Err (''SinkRef.Number must be > 0, got '' @ itoa (sr_Number ref) @ '' (sinkRef.url='' @ sr_URL ref @ '')'')))
      else if sr_Repo ref = []
      then ret (Some (Err (''SinkRef.Repo must not be empty (sinkRef.url='' @ sr_URL ref @ '')'')))
      else do {
        t \<leftarrow> tokens;
        case t of
          Inl e \<Rightarrow> ret (Some (Wrap ''getting GitHub token'' e))
        | Inr token \<Rightarrow> do {
            c \<leftarrow> isClosed A base token (sr_Repo ref) (sr_Number ref);
            if (case c of Inl _ \<Rightarrow> False | Inr already \<Rightarrow> already) then ret None
            else do {
              _ \<leftarrow> postComment A base token (sr_Repo ref) (sr_Number ref) reason;
              e \<leftarrow> closeItem A base token (sr_Repo ref) (sr_Number ref) (sr_Type ref);
              case e of
                Some err \<Rightarrow> ret (Some err)
              | None \<Rightarrow> do { net_metric RecordPRClosed; ret None }
            }
          }
      })"

section \<open>Merged or not\<close>

definition IsMerged :: "'h github_api \<Rightarrow> ('h, go_error + string) net_prog \<Rightarrow> string \<Rightarrow> SinkRef \<Rightarrow> ('h, go_error + bool) net_prog" where
  "IsMerged A tokens baseURL ref =
     (if sr_URL ref = [] \<or> sr_Type ref \<noteq> ''pr'' then ret (Inr False)
      else if sr_Number ref \<le> 0
      then ret (Inl (Err (''IsMerged: SinkRef.Number must be > 0, got '' @ itoa (sr_Number ref))))
      else if sr_Repo ref = [] then ret (Inl (Err ''IsMerged: SinkRef.Repo must not be empty''))
      else do {
        t \<leftarrow> tokens;
        case t of
          Inl e \<Rightarrow> ret (Inl (Wrap ''IsMerged: getting GitHub token'' e))
        | Inr token \<Rightarrow>
            (let url = pull_url (base_url baseURL) (sr_Repo ref) (sr_Number ref) @ ''/merge'' in do {
               r \<leftarrow> call A ''IsMerged: building request'' ''IsMerged: executing request'' ''GET'' url token None;
               ret (case r of
                      Inl e \<Rightarrow> Inl e
                    | Inr resp \<Rightarrow>
                        if hp_StatusCode resp = 204 then Inr True
                        else if hp_StatusCode resp = 404 then Inr False
                        else Inl (Err (''IsMerged: unexpected status '' @ itoa (hp_StatusCode resp) @ '' for '' @ url)))
             })
      })"

section \<open>Lemmas\<close>

lemma wp_net [wp_simps]:
  "wp (net_ask c) P = (\<lambda>s. \<forall>a w. run_state c (net_world s) = (a, w) \<longrightarrow> P a (s\<lparr>net_world := w\<rparr>))"
  "wp (net_do A req) Q = (\<lambda>s. \<forall>a w. run_state (gh_Do A req) (net_world s) = (a, w) \<longrightarrow>
     Q a (s\<lparr>net_world := w, net_sent := net_sent s @ [req]\<rparr>))"
  "wp (net_metric m) R = (\<lambda>s. R () (s\<lparr>net_metrics := net_metrics s @ [m]\<rparr>))"
  "wp (net_cache tok t) R = (\<lambda>s. R () (s\<lparr>net_cachedToken := tok, net_expiresAt := t\<rparr>))"
  by (simp_all add: wp_def net_ask_def net_do_def net_metric_def net_cache_def fun_eq_iff split: prod.split)

lemma wp_call [wp_simps]:
  "wp (call A b e meth url auth body) Q = (\<lambda>s. case gh_NewRequest A meth url of
       Some err \<Rightarrow> Q (Inl (Wrap b err)) s
     | None \<Rightarrow> (\<forall>a w. run_state (gh_Do A \<lparr>hr_Method = meth, hr_URL = url, hr_Authorization = bearer auth, hr_Body = body\<rparr>)
          (net_world s) = (a, w) \<longrightarrow>
          Q (case a of Inl err \<Rightarrow> Inl (Wrap e err) | Inr resp \<Rightarrow> Inr resp)
            (s\<lparr>net_world := w, net_sent := net_sent s @ [\<lparr>hr_Method = meth, hr_URL = url, hr_Authorization = bearer auth, hr_Body = body\<rparr>]\<rparr>)))"
  by (simp add: call_def wp_simps fun_eq_iff split: option.split)

text \<open>A source of tokens that has one at hand: it sends nothing.\<close>

definition cached_tokens :: "('h, go_error + string) net_prog \<Rightarrow> string \<Rightarrow> bool" where
  "cached_tokens tokens tok = (\<forall>s. wp tokens (\<lambda>r s'. r = Inr tok \<and> net_sent s' = net_sent s \<and> net_metrics s' = net_metrics s) s)"

lemma wp_tokens:
  "cached_tokens tokens tok \<Longrightarrow> (\<And>s'. net_sent s' = net_sent s \<Longrightarrow> net_metrics s' = net_metrics s \<Longrightarrow> Q (Inr tok) s') \<Longrightarrow>
     wp tokens Q s"
  unfolding cached_tokens_def by (erule allE [of _ s], erule wp_mono) auto

section \<open>Properties\<close>

definition sink_ok :: "SinkRef \<Rightarrow> bool" where
  "sink_ok ref = (sr_URL ref \<noteq> [] \<and> 0 < sr_Number ref \<and> sr_Repo ref \<noteq> [])"

definition get_issue :: "string \<Rightarrow> string \<Rightarrow> SinkRef \<Rightarrow> request" where
  "get_issue base tok ref = \<lparr>hr_Method = ''GET'', hr_URL = issue_url base (sr_Repo ref) (sr_Number ref),
     hr_Authorization = bearer tok, hr_Body = None\<rparr>"

text \<open>
  Closing is idempotent: when GitHub reports the pull request or issue as closed, \<open>Close\<close> succeeds
  after that one read and neither comments, nor closes, nor counts it again; and a job without a
  sink costs no request at all.
\<close>

theorem close_idempotent:
  assumes "cached_tokens tokens tok" "gh_NewRequest A ''GET'' (hr_URL (get_issue (base_url base) tok (st_SinkRef (rj_Status rjob)))) = None"
    and "\<And>w a w'. run_state (gh_Do A (get_issue (base_url base) tok (st_SinkRef (rj_Status rjob)))) w = (a, w') \<Longrightarrow>
      \<exists>resp. a = Inr resp \<and> hp_StatusCode resp = 200 \<and> Decode_field ''state'' (hp_Body resp) = Some ''closed''"
    and "sink_ok (st_SinkRef (rj_Status rjob)) \<or> rj_SinkURL rjob = []"
  shows "wp (Close A tokens base rjob reason) (\<lambda>res s'. res = None \<and> net_metrics s' = net_metrics s
    \<and> net_sent s' = net_sent s @ (if rj_SinkURL rjob = [] then [] else [get_issue (base_url base) tok (st_SinkRef (rj_Status rjob))])) s"
proof (cases "rj_SinkURL rjob = []")
  case True
  then show ?thesis by (simp add: Close_def wp_simps Let_def)
next
  case False
  with assms(4) have ok: "0 < sr_Number (st_SinkRef (rj_Status rjob))" "sr_Repo (st_SinkRef (rj_Status rjob)) \<noteq> []"
    by (auto simp: sink_ok_def)
  have closed: "wp (isClosed A (base_url base) tok (sr_Repo (st_SinkRef (rj_Status rjob))) (sr_Number (st_SinkRef (rj_Status rjob))))
      (\<lambda>r s'. r = Inr True \<and> net_metrics s' = net_metrics s1 \<and> net_sent s' = net_sent s1 @ [get_issue (base_url base) tok (st_SinkRef (rj_Status rjob))]) s1" for s1
    using assms(2) by (auto simp: isClosed_def wp_simps get_issue_def dest!: assms(3) [unfolded get_issue_def])
  show ?thesis
    using False ok unfolding Close_def Let_def
    by (auto simp: wp_simps intro!: wp_tokens [OF assms(1)] wp_mono [OF closed])
qed

definition closed_api :: "unit github_api" where
  "closed_api = \<lparr>gh_now = ret 0, gh_NewRequest = (\<lambda>_ _. None),
     gh_Do = (\<lambda>_. ret (Inr \<lparr>hp_StatusCode = 200, hp_Body = encode_object False [(''state'', encode_string False ''closed'')]\<rparr>)),
     gh_SignedString = (\<lambda>_ _ _. Inr ''jwt'')\<rparr>"

definition sample_pr :: RemediationJob where
  "sample_pr = (sample_rjob ''a'' ''Pod'' ''web'' 1 PhaseSucceeded)\<lparr>rj_Status := zero_status\<lparr>st_SinkRef :=
     \<lparr>sr_Type = ''pr'', sr_URL = ''https://github.com/o/r/pull/7'', sr_Number = 7, sr_Repo = ''o/r''\<rparr>\<rparr>\<rparr>"

lemma closed_body: "Decode_field ''state'' (encode_object False [(''state'', encode_string False ''closed'')]) = Some ''closed''"
proof -
  have "parse_value 10000 (encode_object False [(''state'', encode_string False ''closed'')] @ []) = Some (JObj [(valid_text ''state'', JStr (valid_text ''closed''))], [])"
    using parse_object_reads [of 9999 "(''state'', encode_string False ''closed'')" "[]" _ False "[]"] by (simp add: reads_string)
  then show ?thesis
    by (simp add: Decode_field_def max_depth_def decode_struct_def decode_member_def valid_text_ascii byte_def selects_def)
qed

theorem close_idempotent_witness:
  "wp (Close closed_api (ret (Inr ''tok'')) [] sample_pr ''done'') (\<lambda>res s'. res = None \<and> length (net_sent s') = 1)
     \<lparr>net_world = (), net_sent = [], net_metrics = [], net_cachedToken = [], net_expiresAt = 0\<rparr>"
  by (rule wp_mono [OF close_idempotent [where tok = "''tok''"]])
    (auto simp: cached_tokens_def wp_simps closed_api_def closed_body sample_pr_def sample_rjob_def sink_ok_def)

text \<open>
  C34. The token cache is sound: \<open>Token\<close> hands out the cached token without a request only while the
  clock reads less than its expiry; a token it fetches is not empty, came with status 201 in answer
  to the last request sent, and is cached for 55 minutes from a clock reading; a failed fetch leaves the cache as it was.
\<close>

theorem token_cache_sound:
  "wp (Token A p) (\<lambda>r s'.
     (case r of
        Inl e \<Rightarrow> net_cachedToken s' = net_cachedToken s \<and> net_expiresAt s' = net_expiresAt s
      | Inr tok \<Rightarrow> tok \<noteq> [] \<and> net_cachedToken s' = tok
          \<and> (net_sent s' = net_sent s \<and> tok = net_cachedToken s \<and> net_expiresAt s' = net_expiresAt s
               \<and> (\<exists>t u u'. run_state (gh_now A) u = (t, u') \<and> t < net_expiresAt s)
             \<or> (\<exists>req resp u u' t v v'. net_sent s' = net_sent s @ [req] \<and> run_state (gh_Do A req) u = (Inr resp, u')
                  \<and> hp_StatusCode resp = 201 \<and> Decode_field ''token'' (hp_Body resp) = Some tok
                  \<and> run_state (gh_now A) v = (t, v') \<and> net_expiresAt s' = t + tokenCacheTTL)))) s"
proof -
  have fetch: "wp (exchange A p) (\<lambda>r s'. net_cachedToken s' = net_cachedToken s1 \<and> net_expiresAt s' = net_expiresAt s1
      \<and> (case r of Inl e \<Rightarrow> True | Inr tok \<Rightarrow> tok \<noteq> [] \<and> (\<exists>req resp u u'. net_sent s' = net_sent s1 @ [req]
           \<and> run_state (gh_Do A req) u = (Inr resp, u') \<and> hp_StatusCode resp = 201 \<and> Decode_field ''token'' (hp_Body resp) = Some tok))) s1" for s1
    by (auto simp: exchange_def wp_simps split: option.split sum.split)
  show ?thesis
    unfolding Token_def
    by (auto simp: wp_simps split: option.split sum.split intro!: wp_mono [OF fetch]) blast+
qed

end
