(* ===== verification/Native.thy ===== *)
theory Native
  imports Source_Safety
begin

text \<open>
  \<open>src/internal/provider/native\<close>: the six providers that turn a cluster object into a finding, and the
  walk along owner references. The objects are records with the fields the code reads; a
  \<open>client.Object\<close> is one of them, and a provider rejects an object of another type. Reads of owners
  (as unstructured objects) and of events are arguments, besides the client of theory \<open>Kube\<close>.
\<close>

section \<open>Objects\<close>

record KCondition =
  kc_Type :: string
  kc_Status :: string
  kc_Reason :: string
  kc_Message :: string

record Terminated =
  tm_ExitCode :: int
  tm_Reason :: string
  tm_Message :: string

record ContainerStatus =
  cn_Name :: string
  cn_Waiting :: "(string \<times> string) option"  \<comment> \<open>reason and message\<close>
  cn_Terminated :: "Terminated option"
  cn_LastTerminated :: "Terminated option"
  cn_RestartCount :: int

record Pod =
  po_Meta :: ObjectMeta
  po_Phase :: string
  po_ContainerStatuses :: "ContainerStatus list"
  po_InitContainerStatuses :: "ContainerStatus list"
  po_Conditions :: "KCondition list"
  po_NodeName :: string

record Deployment =
  dp_Meta :: ObjectMeta
  dp_SpecReplicas :: "int option"
  dp_Replicas :: int
  dp_ReadyReplicas :: int
  dp_Conditions :: "KCondition list"

record StatefulSet =
  ss_Meta :: ObjectMeta
  ss_SpecReplicas :: "int option"
  ss_ReadyReplicas :: int
  ss_ObservedGeneration :: int
  ss_Conditions :: "KCondition list"

record Node =
  no_Meta :: ObjectMeta
  no_Conditions :: "KCondition list"

record PVC =
  pv_Meta :: ObjectMeta
  pv_Phase :: string

record KEvent =
  ke_Name :: string
  ke_Kind :: string
  ke_Reason :: string
  ke_Message :: string
  ke_LastTimestamp :: time

datatype kobject = KPod Pod | KDeployment Deployment | KStatefulSet StatefulSet | KNode Node | KJob Job | KPVC PVC

fun object_meta :: "kobject \<Rightarrow> ObjectMeta" where
  "object_meta (KPod x) = po_Meta x"
| "object_meta (KDeployment x) = dp_Meta x"
| "object_meta (KStatefulSet x) = ss_Meta x"
| "object_meta (KNode x) = no_Meta x"
| "object_meta (KJob x) = jb_Meta x"
| "object_meta (KPVC x) = pv_Meta x"

record 'w native =
  nv_Kube :: "'w kube"
  nv_GetOwners :: "string \<Rightarrow> string \<Rightarrow> string \<Rightarrow> ('w, api_error + OwnerReference list) state"  \<comment> \<open>kind, namespace, name\<close>
  nv_ListEvents :: "string \<Rightarrow> ('w, api_error + KEvent list) state"
  nv_Sort :: "KEvent list \<Rightarrow> KEvent list"  \<comment> \<open>\<open>sort.Slice\<close> by descending time; the order of equal times is not specified\<close>
  nv_Redactor :: Redactor

section \<open>Owners\<close>

definition maxTraversalDepth :: nat where "maxTraversalDepth = 10"

text \<open>The keys of \<open>kindToGV\<close>; the group and version only address the read.\<close>

definition kindToGV :: "string list" where
  "kindToGV = [''Pod'', ''ReplicaSet'', ''Deployment'', ''StatefulSet'', ''DaemonSet'', ''Job'', ''CronJob'', ''ConfigMap'', ''Node'']"

definition node_text :: "string \<Rightarrow> string \<Rightarrow> string" where
  "node_text kind name = kind @ ''/'' @ name"

text \<open>The loop; its first argument is the number of iterations left.\<close>

fun walk :: "'w native \<Rightarrow> nat \<Rightarrow> string list \<Rightarrow> string \<Rightarrow> string \<Rightarrow> string \<Rightarrow> OwnerReference list \<Rightarrow> ('w, string) state" where
  "walk c 0 visited kind name ns refs = ret (node_text kind name)"
| "walk c (Suc n) visited kind name ns refs =
     (case refs of
        [] \<Rightarrow> ret (node_text kind name)
      | owner # _ \<Rightarrow>
          if or_UID owner \<in> set visited then ret (node_text kind name)
          else if or_Kind owner \<notin> set kindToGV then ret (node_text kind name)
          else do {
            o' \<leftarrow> nv_GetOwners c (or_Kind owner) ns (or_Name owner);
            case o' of
              Inl _ \<Rightarrow> ret (node_text kind name)
            | Inr refs' \<Rightarrow> walk c n (or_UID owner # visited) (or_Kind owner) (or_Name owner) ns refs'
          })"

definition getParent :: "'w native \<Rightarrow> ObjectMeta \<Rightarrow> string \<Rightarrow> ('w, string) state" where
  "getParent c meta kind =
     (if om_OwnerReferences meta = [] then ret (node_text kind (om_Name meta))
      else walk c maxTraversalDepth [om_UID meta] kind (om_Name meta) (om_Namespace meta) (om_OwnerReferences meta))"

section \<open>What the providers share\<close>

text \<open>\<open>json.Marshal\<close> of the error entries.\<close>

definition errors_json :: "string list \<Rightarrow> string" where
  "errors_json texts = encode_array (map (\<lambda>t. encode_object True [(''text'', encode_string True t)]) texts)"

definition finding_of :: "string \<Rightarrow> ObjectMeta \<Rightarrow> string \<Rightarrow> string list \<Rightarrow> Severity \<Rightarrow> Finding" where
  "finding_of kind meta parent texts sev = \<lparr>f_Kind = kind, f_Name = om_Name meta, f_Namespace = om_Namespace meta,
     f_ParentObject = parent, f_Errors = errors_json texts, f_Details = [], f_Severity = sev, f_ChainDepth = 0, f_NodeName = []\<rparr>"

text \<open>The annotation gate and the type assertion with which every provider starts.\<close>

definition guarded :: "'w native \<Rightarrow> kobject \<Rightarrow> 'a option \<Rightarrow> string \<Rightarrow> ('a \<Rightarrow> ('w, go_error + Finding option) state) \<Rightarrow>
    ('w, go_error + Finding option) state" where
  "guarded c obj cast err k = do {
     now \<leftarrow> k_now (nv_Kube c);
     if ShouldSkip (om_Annotations (object_meta obj)) now then ret (Inr None)
     else (case cast of None \<Rightarrow> ret (Inl (Err err)) | Some x \<Rightarrow> k x)
   }"

section \<open>Pods\<close>

definition waitingReasons :: "string list" where
  "waitingReasons = [''CrashLoopBackOff'', ''ImagePullBackOff'', ''ErrImagePull'', ''CreateContainerConfigError'',
     ''InvalidImageName'', ''RunContainerError'', ''CreateContainerError'']"

definition buildCrashLoopText :: "ContainerStatus \<Rightarrow> string" where
  "buildCrashLoopText cs =
     (let lastReason = (case cn_LastTerminated cs of None \<Rightarrow> [] | Some t \<Rightarrow> tm_Reason t)
      in if lastReason \<noteq> [] then ''container '' @ cn_Name cs @ '': CrashLoopBackOff (last exit: '' @ lastReason @ '')''
         else ''container '' @ cn_Name cs @ '': CrashLoopBackOff'')"

definition buildWaitingText :: "Redactor \<Rightarrow> ContainerStatus \<Rightarrow> string \<times> string \<Rightarrow> string" where
  "buildWaitingText red cs w =
     (case w of (reason, msg) \<Rightarrow>
        if msg \<noteq> [] then ''container '' @ cn_Name cs @ '': '' @ reason @ '': '' @ sanitised red msg maxWaitingMessage
        else ''container '' @ cn_Name cs @ '': '' @ reason)"

definition container_errors :: "Redactor \<Rightarrow> ContainerStatus \<Rightarrow> string list" where
  "container_errors red cs =
     (case cn_Waiting cs of
        Some (reason, msg) \<Rightarrow>
          if reason \<in> set waitingReasons
          then [if reason = ''CrashLoopBackOff'' then buildCrashLoopText cs else buildWaitingText red cs (reason, msg)]
          else []
      | None \<Rightarrow>
          (case cn_Terminated cs of
             None \<Rightarrow> []
           | Some t \<Rightarrow>
               if tm_ExitCode t \<noteq> 0
               then [''container '' @ cn_Name cs @ '': terminated with exit code '' @ itoa (tm_ExitCode t)
                     @ (if tm_Message t \<noteq> [] then '': '' @ sanitised red (tm_Message t) maxTerminatedMessage else [])]
               else []))"

definition unschedulable :: "KCondition \<Rightarrow> bool" where
  "unschedulable cond = (kc_Type cond = ''PodScheduled'' \<and> kc_Status cond = ''False'' \<and> kc_Reason cond = ''Unschedulable'')"

definition all_statuses :: "Pod \<Rightarrow> ContainerStatus list" where
  "all_statuses pod = po_ContainerStatuses pod @ po_InitContainerStatuses pod"

definition pod_errors :: "Redactor \<Rightarrow> Pod \<Rightarrow> string list" where
  "pod_errors red pod =
     concat (map (container_errors red) (all_statuses pod))
     @ (if po_Phase pod = ''Pending''
        then (case List.find unschedulable (po_Conditions pod) of
                None \<Rightarrow> []
              | Some cond \<Rightarrow> [''pod '' @ kc_Reason cond @ '': '' @ sanitised red (kc_Message cond) maxSchedulerMessage])
        else [])"

definition at_least_high :: "Severity \<Rightarrow> Severity" where
  "at_least_high current = (if SeverityLevel current < SeverityLevel SeverityHigh then SeverityHigh else current)"

text \<open>The loop over the statuses: \<open>Inl\<close> the severity returned early, \<open>Inr\<close> the one at its end.\<close>

fun severity_loop :: "Severity \<Rightarrow> ContainerStatus list \<Rightarrow> Severity + Severity" where
  "severity_loop current [] = Inr current"
| "severity_loop current (cs # rest) =
     (case cn_Waiting cs of
        Some (reason, _) \<Rightarrow>
          if reason = ''CrashLoopBackOff'' then
            (if 5 < cn_RestartCount cs then Inl SeverityCritical
             else severity_loop (at_least_high current) rest)
          else if reason = ''ImagePullBackOff'' \<or> reason = ''ErrImagePull'' then severity_loop (at_least_high current) rest
          else severity_loop current rest
      | None \<Rightarrow>
          (case cn_Terminated cs of
             Some t \<Rightarrow> if tm_ExitCode t \<noteq> 0 \<and> tm_Reason t = ''OOMKilled'' then severity_loop (at_least_high current) rest
                       else severity_loop current rest
           | None \<Rightarrow> severity_loop current rest))"

definition computePodSeverity :: "Pod \<Rightarrow> Severity" where
  "computePodSeverity pod =
     (case severity_loop SeverityMedium (all_statuses pod) of
        Inl sev \<Rightarrow> sev
      | Inr current \<Rightarrow>
          if po_Phase pod = ''Pending'' \<and> list_ex unschedulable (po_Conditions pod) then at_least_high current else current)"

definition pod_ExtractFinding :: "'w native \<Rightarrow> kobject \<Rightarrow> ('w, go_error + Finding option) state" where
  "pod_ExtractFinding c obj =
     guarded c obj (case obj of KPod p \<Rightarrow> Some p | _ \<Rightarrow> None) ''podProvider: expected *corev1.Pod'' (\<lambda>pod.
       let texts = pod_errors (nv_Redactor c) pod
       in if texts = [] then ret (Inr None)
          else do {
            parent \<leftarrow> getParent c (po_Meta pod) ''Pod'';
            ret (Inr (Some ((finding_of ''Pod'' (po_Meta pod) parent texts (computePodSeverity pod))\<lparr>f_NodeName := po_NodeName pod\<rparr>)))
          })"

section \<open>Deployments and stateful sets\<close>

text \<open>\<open>specReplicas/2\<close> is a truncated division; it is only reached with a positive number.\<close>

definition computeReplicaSeverity :: "int \<Rightarrow> int \<Rightarrow> bool \<Rightarrow> Severity" where
  "computeReplicaSeverity readyReplicas specReplicas replicaFired =
     (if replicaFired \<and> 0 < specReplicas then
        (if readyReplicas = 0 then SeverityCritical
         else if readyReplicas < specReplicas div 2 then SeverityHigh else SeverityMedium)
      else SeverityMedium)"

definition computeDeploymentSeverity :: "int \<Rightarrow> int \<Rightarrow> bool \<Rightarrow> Severity" where
  "computeDeploymentSeverity = computeReplicaSeverity"

definition computeStatefulSetSeverity :: "int \<Rightarrow> int \<Rightarrow> bool \<Rightarrow> Severity" where
  "computeStatefulSetSeverity = computeReplicaSeverity"

definition unavailable :: "KCondition \<Rightarrow> bool" where
  "unavailable cond = (kc_Type cond = ''Available'' \<and> kc_Status cond = ''False'')"

definition the_replicas :: "int option \<Rightarrow> int" where
  "the_replicas n = (case n of None \<Rightarrow> 0 | Some k \<Rightarrow> k)"

definition replicas_text :: "string \<Rightarrow> string \<Rightarrow> int \<Rightarrow> int \<Rightarrow> string" where
  "replicas_text kind name ready spec = kind @ '' '' @ name @ '': '' @ itoa ready @ ''/'' @ itoa spec @ '' replicas ready''"

definition deployment_fired :: "Deployment \<Rightarrow> bool" where
  "deployment_fired d = (case dp_SpecReplicas d of None \<Rightarrow> False
     | Some spec \<Rightarrow> dp_Replicas d \<le> spec \<and> dp_ReadyReplicas d < spec)"

definition deployment_errors :: "Redactor \<Rightarrow> Deployment \<Rightarrow> string list" where
  "deployment_errors red d =
     (if deployment_fired d
      then [replicas_text ''deployment'' (om_Name (dp_Meta d)) (dp_ReadyReplicas d) (the_replicas (dp_SpecReplicas d))] else [])
     @ (case List.find unavailable (dp_Conditions d) of
          None \<Rightarrow> []
        | Some cond \<Rightarrow> [''deployment '' @ om_Name (dp_Meta d) @ '': Available=False reason='' @ kc_Reason cond
                        @ '' message='' @ sanitised red (kc_Message cond) maxConditionMessage])"

definition deployment_ExtractFinding :: "'w native \<Rightarrow> kobject \<Rightarrow> ('w, go_error + Finding option) state" where
  "deployment_ExtractFinding c obj =
     guarded c obj (case obj of KDeployment d \<Rightarrow> Some d | _ \<Rightarrow> None) ''deploymentProvider: expected *appsv1.Deployment'' (\<lambda>d.
       let texts = deployment_errors (nv_Redactor c) d
       in if texts = [] then ret (Inr None)
          else do {
            parent \<leftarrow> getParent c (dp_Meta d) ''Deployment'';
            ret (Inr (Some (finding_of ''Deployment'' (dp_Meta d) parent texts
              (computeDeploymentSeverity (dp_ReadyReplicas d) (the_replicas (dp_SpecReplicas d)) (deployment_fired d)))))
          })"

definition statefulset_fired :: "StatefulSet \<Rightarrow> bool" where
  "statefulset_fired x = (case ss_SpecReplicas x of None \<Rightarrow> False
     | Some spec \<Rightarrow> om_Generation (ss_Meta x) = ss_ObservedGeneration x \<and> ss_ReadyReplicas x < spec)"

definition statefulset_errors :: "Redactor \<Rightarrow> StatefulSet \<Rightarrow> string list" where
  "statefulset_errors red x =
     (if statefulset_fired x
      then [replicas_text ''statefulset'' (om_Name (ss_Meta x)) (ss_ReadyReplicas x) (the_replicas (ss_SpecReplicas x))] else [])
     @ (case List.find unavailable (ss_Conditions x) of
          None \<Rightarrow> []
        | Some cond \<Rightarrow> [''statefulset '' @ om_Name (ss_Meta x) @ '': condition Available is False: '' @ kc_Reason cond
                        @ '': '' @ sanitised red (kc_Message cond) maxConditionMessage])"

definition statefulset_ExtractFinding :: "'w native \<Rightarrow> kobject \<Rightarrow> ('w, go_error + Finding option) state" where
  "statefulset_ExtractFinding c obj =
     guarded c obj (case obj of KStatefulSet x \<Rightarrow> Some x | _ \<Rightarrow> None) ''statefulSetProvider: expected *appsv1.StatefulSet'' (\<lambda>x.
       let texts = statefulset_errors (nv_Redactor c) x
       in if texts = [] then ret (Inr None)
          else do {
            parent \<leftarrow> getParent c (ss_Meta x) ''StatefulSet'';
            ret (Inr (Some (finding_of ''StatefulSet'' (ss_Meta x) parent texts
              (computeStatefulSetSeverity (ss_ReadyReplicas x) (the_replicas (ss_SpecReplicas x)) (statefulset_fired x)))))
          })"

section \<open>Nodes\<close>

definition ignoredNodeConditions :: "string list" where
  "ignoredNodeConditions = [''EtcdIsVoter'']"

definition not_ready :: "KCondition \<Rightarrow> bool" where
  "not_ready cond = (kc_Type cond = ''Ready'' \<and> (kc_Status cond = ''False'' \<or> kc_Status cond = ''Unknown''))"

text \<open>The pressure conditions and the default case of the switch ask for the same status.\<close>

definition node_condition_fires :: "KCondition \<Rightarrow> bool" where
  "node_condition_fires cond =
     (if kc_Type cond \<in> set ignoredNodeConditions then False
      else if kc_Type cond = ''Ready'' then not_ready cond
      else kc_Status cond = ''True'')"

definition buildNodeConditionText :: "Redactor \<Rightarrow> string \<Rightarrow> KCondition \<Rightarrow> string" where
  "buildNodeConditionText red nodeName cond =
     ''node '' @ nodeName @ '' has condition '' @ kc_Type cond @ '' ('' @ kc_Reason cond @ ''): ''
     @ sanitised red (kc_Message cond) maxConditionMessage"

definition node_errors :: "Redactor \<Rightarrow> Node \<Rightarrow> string list" where
  "node_errors red node = map (buildNodeConditionText red (om_Name (no_Meta node))) (filter node_condition_fires (no_Conditions node))"

definition computeNodeSeverity :: "Node \<Rightarrow> Severity" where
  "computeNodeSeverity node =
     (if list_ex (\<lambda>cond. kc_Type cond \<notin> set ignoredNodeConditions \<and> not_ready cond) (no_Conditions node)
      then SeverityCritical else SeverityHigh)"

definition node_ExtractFinding :: "'w native \<Rightarrow> kobject \<Rightarrow> ('w, go_error + Finding option) state" where
  "node_ExtractFinding c obj =
     guarded c obj (case obj of KNode n \<Rightarrow> Some n | _ \<Rightarrow> None) ''nodeProvider: expected *corev1.Node'' (\<lambda>n.
       let texts = node_errors (nv_Redactor c) n
       in if texts = [] then ret (Inr None)
          else do {
            parent \<leftarrow> getParent c (no_Meta n) ''Node'';
            ret (Inr (Some ((finding_of ''Node'' (no_Meta n) parent texts (computeNodeSeverity n))\<lparr>f_Namespace := []\<rparr>)))
          })"

section \<open>Jobs\<close>

definition isMechanicJob :: "Job \<Rightarrow> bool" where
  "isMechanicJob job = (om_Labels (jb_Meta job) ''app.kubernetes.io/managed-by'' = Some ''mechanic-watcher'')"

definition job_failing :: "Job \<Rightarrow> bool" where
  "job_failing job =
     (\<not> list_ex (\<lambda>ref. or_Kind ref = ''CronJob'') (om_OwnerReferences (jb_Meta job))
      \<and> \<not> list_ex (\<lambda>cond. jc_Type cond = ''Suspended'' \<and> jc_Status cond = ''True'') (jb_Conditions job)
      \<and> \<not> (jb_Failed job = 0 \<or> jb_Active job \<noteq> 0 \<or> jb_CompletionTime job \<noteq> None))"

definition job_errors :: "Redactor \<Rightarrow> Job \<Rightarrow> string list" where
  "job_errors red job =
     (''job '' @ om_Name (jb_Meta job) @ '': failed ('' @ itoa (jb_Failed job) @ '' attempts, 0 active)'') #
     (case List.find (\<lambda>cond. jc_Type cond = ''Failed'' \<and> jc_Status cond = ''True'') (jb_Conditions job) of
        None \<Rightarrow> []
      | Some cond \<Rightarrow>
          if jc_Reason cond \<noteq> [] \<or> jc_Message cond \<noteq> []
          then [''job '' @ om_Name (jb_Meta job) @ '': '' @ jc_Reason cond @ '': '' @ sanitised red (jc_Message cond) maxConditionMessage]
          else [])"

text \<open>\<open>int\<close> has 64 bits and \<open>ChainDepth\<close> 32, so the sum does not wrap around.\<close>

definition getChainDepthFromOwner :: "'w native \<Rightarrow> Job \<Rightarrow> ('w, go_error + int) state" where
  "getChainDepthFromOwner c job =
     (case List.find (\<lambda>ref. or_Kind ref = ''RemediationJob'') (om_OwnerReferences (jb_Meta job)) of
        None \<Rightarrow> ret (Inr 1)
      | Some ref \<Rightarrow> do {
          x \<leftarrow> k_get_rjob (nv_Kube c) (om_Namespace (jb_Meta job)) (or_Name ref);
          ret (case x of
                 Inl e \<Rightarrow> if IsNotFound e then Inr 1
                          else Inl (Wrap (''jobProvider: reading owner RemediationJob '' @ or_Name ref) (Api e))
               | Inr rjob \<Rightarrow> Inr (fs_ChainDepth (rj_Finding rjob) + 1))
        })"

definition job_ExtractFinding :: "'w native \<Rightarrow> kobject \<Rightarrow> ('w, go_error + Finding option) state" where
  "job_ExtractFinding c obj =
     guarded c obj (case obj of KJob j \<Rightarrow> Some j | _ \<Rightarrow> None) ''jobProvider: expected *batchv1.Job'' (\<lambda>job.
       if \<not> job_failing job then ret (Inr None)
       else do {
         depth \<leftarrow> (if isMechanicJob job then getChainDepthFromOwner c job else ret (Inr 0));
         case depth of
           Inl e \<Rightarrow> ret (Inl e)
         | Inr chainDepth \<Rightarrow> do {
             parent \<leftarrow> getParent c (jb_Meta job) ''Job'';
             ret (Inr (Some ((finding_of ''Job'' (jb_Meta job) parent (job_errors (nv_Redactor c) job) SeverityMedium)
               \<lparr>f_ChainDepth := chainDepth\<rparr>)))
           }
       })"

section \<open>Volume claims\<close>

definition provisioning_failed :: "string \<Rightarrow> KEvent \<Rightarrow> bool" where
  "provisioning_failed name ev =
     (ke_Name ev = name \<and> ke_Kind ev = ''PersistentVolumeClaim'' \<and> ke_Reason ev = ''ProvisioningFailed'')"

definition latestProvisioningFailedMessage :: "'w native \<Rightarrow> PVC \<Rightarrow> ('w, go_error + string option) state" where
  "latestProvisioningFailedMessage c pvc = do {
     x \<leftarrow> nv_ListEvents c (om_Namespace (pv_Meta pvc));
     ret (case x of
            Inl e \<Rightarrow> Inl (Wrap ''pvcProvider: listing events'' (Api e))
          | Inr events \<Rightarrow>
              (let failures = filter (provisioning_failed (om_Name (pv_Meta pvc))) events
               in Inr (if failures = [] then None else Some (ke_Message (hd (nv_Sort c failures))))))
   }"

definition pvc_ExtractFinding :: "'w native \<Rightarrow> kobject \<Rightarrow> ('w, go_error + Finding option) state" where
  "pvc_ExtractFinding c obj =
     guarded c obj (case obj of KPVC p \<Rightarrow> Some p | _ \<Rightarrow> None) ''pvcProvider: expected *corev1.PersistentVolumeClaim'' (\<lambda>pvc.
       if pv_Phase pvc \<noteq> ''Pending'' then ret (Inr None)
       else do {
         x \<leftarrow> latestProvisioningFailedMessage c pvc;
         case x of
           Inl e \<Rightarrow> ret (Inl e)
         | Inr None \<Rightarrow> ret (Inr None)
         | Inr (Some eventMsg) \<Rightarrow> do {
             parent \<leftarrow> getParent c (pv_Meta pvc) ''PersistentVolumeClaim'';
             ret (Inr (Some (finding_of ''PersistentVolumeClaim'' (pv_Meta pvc) parent
               [''pvc '' @ om_Name (pv_Meta pvc) @ '': ProvisioningFailed: '' @ sanitised (nv_Redactor c) eventMsg maxCSIEventMessage]
               SeverityHigh)))
           }
       })"

section \<open>The constructors\<close>

text \<open>The interface \<open>domain.SourceProvider\<close>; the type of the watched objects is given by its kind.\<close>

record 'w SourceProvider =
  pv_ProviderName :: string
  pv_ObjectType :: string
  pv_ExtractFinding :: "kobject \<Rightarrow> ('w, go_error + Finding option) state"

text \<open>All constructors have this form: they panic without a client.\<close>

definition new_provider :: "string \<Rightarrow> string \<Rightarrow> ('w native \<Rightarrow> kobject \<Rightarrow> ('w, go_error + Finding option) state) \<Rightarrow>
    'w native option \<Rightarrow> go_error + 'w SourceProvider" where
  "new_provider constructor kind extract_finding client =
     (case client of
        None \<Rightarrow> Inl (GoPanic (constructor @ '': client must not be nil''))
      | Some c \<Rightarrow> Inr \<lparr>pv_ProviderName = ''native'', pv_ObjectType = kind, pv_ExtractFinding = extract_finding c\<rparr>)"

definition NewPodProvider :: "'w native option \<Rightarrow> go_error + 'w SourceProvider" where
  "NewPodProvider = new_provider ''NewPodProvider'' ''Pod'' pod_ExtractFinding"

definition NewDeploymentProvider :: "'w native option \<Rightarrow> go_error + 'w SourceProvider" where
  "NewDeploymentProvider = new_provider ''NewDeploymentProvider'' ''Deployment'' deployment_ExtractFinding"

definition NewPVCProvider :: "'w native option \<Rightarrow> go_error + 'w SourceProvider" where
  "NewPVCProvider = new_provider ''NewPVCProvider'' ''PersistentVolumeClaim'' pvc_ExtractFinding"

definition NewNodeProvider :: "'w native option \<Rightarrow> go_error + 'w SourceProvider" where
  "NewNodeProvider = new_provider ''NewNodeProvider'' ''Node'' node_ExtractFinding"

definition NewStatefulSetProvider :: "'w native option \<Rightarrow> go_error + 'w SourceProvider" where
  "NewStatefulSetProvider = new_provider ''NewStatefulSetProvider'' ''StatefulSet'' statefulset_ExtractFinding"

definition NewJobProvider :: "'w native option \<Rightarrow> go_error + 'w SourceProvider" where
  "NewJobProvider = new_provider ''NewJobProvider'' ''Job'' job_ExtractFinding"

text \<open>The providers that \<open>main\<close> enables, constructed in its order.\<close>

fun construct :: "('c \<Rightarrow> go_error + 'p) list \<Rightarrow> 'c \<Rightarrow> go_error + 'p list" where
  "construct [] c = Inr []"
| "construct (new # news) c = andthen (new c) (\<lambda>p. andthen (construct news c) (\<lambda>ps. Inr (p # ps)))"

definition enabledProviders :: "'w native option \<Rightarrow> go_error + 'w SourceProvider list" where
  "enabledProviders client =
     construct [NewPodProvider, NewDeploymentProvider, NewPVCProvider, NewNodeProvider, NewStatefulSetProvider, NewJobProvider] client"

lemmas provider_defs = new_provider_def NewPodProvider_def NewDeploymentProvider_def NewPVCProvider_def NewNodeProvider_def
  NewStatefulSetProvider_def NewJobProvider_def enabledProviders_def

text \<open>With a client all are constructed; without one the first constructor panics.\<close>

lemma enabledProviders_Some:
  "enabledProviders (Some c) = Inr (map (\<lambda>(kind, extract_finding). \<lparr>pv_ProviderName = ''native'', pv_ObjectType = kind,
       pv_ExtractFinding = extract_finding c\<rparr>)
     [(''Pod'', pod_ExtractFinding), (''Deployment'', deployment_ExtractFinding), (''PersistentVolumeClaim'', pvc_ExtractFinding),
      (''Node'', node_ExtractFinding), (''StatefulSet'', statefulset_ExtractFinding), (''Job'', job_ExtractFinding)])"
  "enabledProviders None = Inl (GoPanic ''NewPodProvider: client must not be nil'')"
  by (simp_all add: provider_defs)

end
