(* ===== verification/Native_Findings.thy ===== *)
theory Native_Findings
  imports Native
begin

text \<open>
  What the native providers promise the source reconciler: the interface locale of a provider, its
  interpretations on the six providers, and the properties of findings, owners and severities.
\<close>

section \<open>The errors of a finding decode\<close>

lemma valid_text_key [simp]: "valid_text ''text'' = ''text''"
  by (simp add: valid_text_ascii byte_def)

lemma decode_text_object: "decode_struct ''text'' (JObj [(''text'', JStr t)]) = (t, False)"
  by (simp add: decode_struct_def decode_member_def selects_def)

lemma parse_errors_json:
  "parse_json (errors_json texts) = Some (JArr (map (\<lambda>t. JObj [(''text'', JStr (valid_text t))]) texts))"
proof -
  have "list_all2 (reads 9999) (map (\<lambda>t. encode_object True [(''text'', encode_string True t)]) texts)
      (map (\<lambda>t. JObj [(''text'', JStr (valid_text t))]) texts)"
    using reads_object [of 9998] by (simp add: list_all2_conv_all_nth reads_string)
  from reads_array [OF this]
  have "parse_value 10000 (errors_json texts @ []) = Some (JArr (map (\<lambda>t. JObj [(''text'', JStr (valid_text t))]) texts), [])"
    unfolding errors_json_def reads_def [of "Suc 9999"] by (simp del: append_Nil2)
  then show ?thesis by (simp add: parse_json_def max_depth_def skip_def)
qed

lemma errors_decode: "f_Errors f = errors_json texts \<Longrightarrow> error_texts f = Some (map valid_text texts)"
  by (simp add: error_texts_def Unmarshal_texts_def parse_errors_json decode_failures_def decode_text_object
      list_ex_iff comp_def) (simp add: errors_json_def encode_array_def)

section \<open>The interface of a provider\<close>

text \<open>A finding of a provider: at least one error, encoded, and one of the three tiers that are used.\<close>

definition provider_tier :: "Severity \<Rightarrow> bool" where
  "provider_tier sev = (sev \<in> {SeverityCritical, SeverityHigh, SeverityMedium})"

definition reported :: "ObjectMeta \<Rightarrow> Finding \<Rightarrow> bool" where
  "reported meta f = (f_Name f = om_Name meta \<and> (f_Namespace f = om_Namespace meta \<or> f_Namespace f = [])
     \<and> (\<exists>texts. texts \<noteq> [] \<and> f_Errors f = errors_json texts)
     \<and> provider_tier (f_Severity f))"

locale source_provider =
  fixes ExtractFinding :: "kobject \<Rightarrow> ('w, go_error + Finding option) state"
    and clock :: "('w, time) state"
  assumes reports: "run_state (ExtractFinding obj) w = (Inr (Some f), w') \<Longrightarrow> reported (object_meta obj) f"
    and skips: "run_state clock w = (t, w1) \<Longrightarrow> ShouldSkip (om_Annotations (object_meta obj)) t \<Longrightarrow>
      run_state (ExtractFinding obj) w = (Inr None, w1)"
begin

lemma fingerprinted:
  assumes "run_state (ExtractFinding obj) w = (Inr (Some f), w')"
  shows "\<exists>texts fp. texts \<noteq> [] \<and> error_texts f = Some texts \<and> FindingFingerprint f = Inr fp \<and> 12 \<le> length fp"
proof -
  from reports [OF assms] obtain texts where t: "texts \<noteq> []" "f_Errors f = errors_json texts" by (auto simp: reported_def)
  then show ?thesis using errors_decode [OF t(2)] by (auto simp: FindingFingerprint_def)
qed

end

lemma run_guarded:
  "run_state (guarded c obj cast err k) w =
     (case run_state (k_now (nv_Kube c)) w of (t, w1) \<Rightarrow>
        if ShouldSkip (om_Annotations (object_meta obj)) t then (Inr None, w1)
        else (case cast of None \<Rightarrow> (Inl (Err err), w1) | Some x \<Rightarrow> run_state (k x) w1))"
  by (simp add: guarded_def run_state_bind split: prod.splits option.splits)

text \<open>One rule for the six: what is left is the part after the guards.\<close>

definition sound_result :: "ObjectMeta \<Rightarrow> go_error + Finding option \<Rightarrow> bool" where
  "sound_result meta x = (\<forall>f. x = Inr (Some f) \<longrightarrow> reported meta f)"

lemma sound_result_simps [simp]:
  "sound_result meta (Inl e)" "sound_result meta (Inr None)" "sound_result meta (Inr (Some f)) = reported meta f"
  by (simp_all add: sound_result_def)

lemma guarded_provider:
  assumes "\<And>obj. extr obj = guarded c obj (cast obj) err k"
    and "\<And>obj x w. cast obj = Some x \<Longrightarrow> wp (k x) (\<lambda>r _. sound_result (object_meta obj) r) w"
  shows "source_provider extr (k_now (nv_Kube c))"
proof
  fix obj w f w' assume r: "run_state (extr obj) w = (Inr (Some f), w')"
  then obtain x w1 where "cast obj = Some x" "run_state (k x) w1 = (Inr (Some f), w')"
    by (auto simp: assms(1) run_guarded split: prod.splits if_splits option.splits)
  with assms(2) [of obj x w1] show "reported (object_meta obj) f" by (auto simp: wp_def)
next
  fix w t w1 obj
  assume "run_state (k_now (nv_Kube c)) w = (t, w1)" "ShouldSkip (om_Annotations (object_meta obj)) t"
  then show "run_state (extr obj) w = (Inr None, w1)" by (simp add: assms(1) run_guarded)
qed

subsection \<open>Severities\<close>

text \<open>A status that makes the pod critical, and one that raises its severity.\<close>

definition crash_critical :: "ContainerStatus \<Rightarrow> bool" where
  "crash_critical cs = (\<exists>msg. cn_Waiting cs = Some (''CrashLoopBackOff'', msg) \<and> 5 < cn_RestartCount cs)"

definition raises_high :: "ContainerStatus \<Rightarrow> bool" where
  "raises_high cs =
     (case cn_Waiting cs of
        Some (reason, _) \<Rightarrow> reason \<in> {''CrashLoopBackOff'', ''ImagePullBackOff'', ''ErrImagePull''}
      | None \<Rightarrow> (case cn_Terminated cs of None \<Rightarrow> False | Some t \<Rightarrow> tm_ExitCode t \<noteq> 0 \<and> tm_Reason t = ''OOMKilled''))"

lemma at_least_high_idem [simp]: "at_least_high (at_least_high sev) = at_least_high sev"
  by (simp add: at_least_high_def)

lemma severity_loop_spec:
  "severity_loop sev css =
     (if list_ex crash_critical css then Inl SeverityCritical
      else Inr (if list_ex raises_high css then at_least_high sev else sev))"
proof (induction css arbitrary: sev)
  case (Cons cs css)
  show ?case
  proof (cases "cn_Waiting cs")
    case None
    then show ?thesis
      by (simp add: Cons.IH crash_critical_def [of cs] raises_high_def [of cs] split: option.splits)
  next
    case (Some w)
    then show ?thesis
      by (cases w) (simp add: Cons.IH crash_critical_def [of cs] raises_high_def [of cs])
  qed
qed simp

lemma medium_raised: "at_least_high SeverityMedium = SeverityHigh"
  by (simp add: at_least_high_def SeverityLevel_def severityOrder_def SeverityMedium_def SeverityHigh_def
      SeverityCritical_def SeverityLow_def)

lemma computePodSeverity_spec:
  "computePodSeverity pod =
     (if list_ex crash_critical (all_statuses pod) then SeverityCritical
      else if list_ex raises_high (all_statuses pod) \<or> po_Phase pod = ''Pending'' \<and> list_ex unschedulable (po_Conditions pod)
      then SeverityHigh else SeverityMedium)"
  by (simp add: computePodSeverity_def severity_loop_spec medium_raised) (metis at_least_high_idem medium_raised)

subsection \<open>The six providers\<close>

lemma provider_tiers [simp]:
  "provider_tier SeverityHigh" "provider_tier SeverityMedium"
  "provider_tier (computePodSeverity pod)" "provider_tier (computeDeploymentSeverity a b f)"
  "provider_tier (computeStatefulSetSeverity a b f)" "provider_tier (computeNodeSeverity node)"
  by (simp_all add: provider_tier_def computePodSeverity_spec computeDeploymentSeverity_def computeStatefulSetSeverity_def
      computeReplicaSeverity_def computeNodeSeverity_def)

lemma reported_finding_of:
  "texts \<noteq> [] \<Longrightarrow> provider_tier sev \<Longrightarrow> reported meta (finding_of kind meta parent texts sev)"
  "texts \<noteq> [] \<Longrightarrow> provider_tier sev \<Longrightarrow> reported meta ((finding_of kind meta parent texts sev)\<lparr>f_NodeName := n\<rparr>)"
  "texts \<noteq> [] \<Longrightarrow> provider_tier sev \<Longrightarrow> reported meta ((finding_of kind meta parent texts sev)\<lparr>f_Namespace := []\<rparr>)"
  "texts \<noteq> [] \<Longrightarrow> provider_tier sev \<Longrightarrow> reported meta ((finding_of kind meta parent texts sev)\<lparr>f_ChainDepth := d\<rparr>)"
  by (auto simp: reported_def finding_of_def)

lemmas provider_rules = wp_simps wp_all reported_finding_of Let_def

interpretation pods: source_provider "pod_ExtractFinding c" "k_now (nv_Kube c)" for c :: "'w native"
  by (rule guarded_provider [OF pod_ExtractFinding_def]) (auto simp: provider_rules split: kobject.splits)

interpretation deployments: source_provider "deployment_ExtractFinding c" "k_now (nv_Kube c)" for c :: "'w native"
  by (rule guarded_provider [OF deployment_ExtractFinding_def]) (auto simp: provider_rules split: kobject.splits)

interpretation statefulsets: source_provider "statefulset_ExtractFinding c" "k_now (nv_Kube c)" for c :: "'w native"
  by (rule guarded_provider [OF statefulset_ExtractFinding_def]) (auto simp: provider_rules split: kobject.splits)

interpretation nodes: source_provider "node_ExtractFinding c" "k_now (nv_Kube c)" for c :: "'w native"
  by (rule guarded_provider [OF node_ExtractFinding_def]) (auto simp: provider_rules split: kobject.splits)

lemma job_errors_some [simp]: "job_errors red job \<noteq> []"
  by (simp add: job_errors_def)

interpretation jobs: source_provider "job_ExtractFinding c" "k_now (nv_Kube c)" for c :: "'w native"
  by (rule guarded_provider [OF job_ExtractFinding_def]) (auto simp: provider_rules split: kobject.splits sum.splits)

interpretation claims: source_provider "pvc_ExtractFinding c" "k_now (nv_Kube c)" for c :: "'w native"
  by (rule guarded_provider [OF pvc_ExtractFinding_def]) (auto simp: provider_rules split: kobject.splits sum.splits option.splits)

text \<open>Every enabled provider keeps the contract.\<close>

lemma enabled_provider: "enabledProviders (Some c) = Inr ps \<Longrightarrow> p \<in> set ps \<Longrightarrow> source_provider (pv_ExtractFinding p) (k_now (nv_Kube c))"
  using pods.source_provider_axioms deployments.source_provider_axioms claims.source_provider_axioms
    nodes.source_provider_axioms statefulsets.source_provider_axioms jobs.source_provider_axioms
  by (auto simp: enabledProviders_Some)

section \<open>Owners\<close>

text \<open>A cluster whose owners can be read without changing it.\<close>

definition stable_owners :: "'w native \<Rightarrow> (string \<Rightarrow> string \<Rightarrow> string \<Rightarrow> api_error + OwnerReference list) \<Rightarrow> bool" where
  "stable_owners c owners = (\<forall>kind ns name w. run_state (nv_GetOwners c kind ns name) w = (owners kind ns name, w))"

definition owns_nothing :: "(string \<Rightarrow> string \<Rightarrow> string \<Rightarrow> api_error + OwnerReference list) \<Rightarrow> string \<Rightarrow> bool" where
  "owns_nothing owners uid = (\<forall>kind ns name refs. owners kind ns name = Inr refs \<longrightarrow> uid \<notin> or_UID ` set refs)"

text \<open>The walk only asks whether the next owner was visited; objects that own nothing do not matter.\<close>

lemma walk_visited:
  assumes "stable_owners c owners" "owns_nothing owners u" "owns_nothing owners u'"
    and "u \<notin> or_UID ` set refs" "u' \<notin> or_UID ` set refs"
  shows "run_state (walk c n (vs @ [u]) kind name ns refs) w = run_state (walk c n (vs @ [u']) kind name ns refs) w"
  using assms
proof (induction n arbitrary: vs kind name refs)
  case (Suc n)
  show ?case
  proof (cases refs)
    case (Cons ref rest)
    have v: "or_UID ref \<in> set (vs @ [u]) \<longleftrightarrow> or_UID ref \<in> set (vs @ [u'])" using Suc.prems(4,5) Cons by auto
    show ?thesis
    proof (cases "owners (or_Kind ref) ns (or_Name ref)")
      case (Inl e)
      then show ?thesis using v Cons Suc.prems(1) by (simp add: stable_owners_def)
    next
      case (Inr refs')
      then have "u \<notin> or_UID ` set refs'" "u' \<notin> or_UID ` set refs'"
        using Suc.prems(2,3) by (auto simp: owns_nothing_def)
      from Suc.IH [OF Suc.prems(1-3) this, of "or_UID ref # vs"]
      show ?thesis using v Cons Inr Suc.prems(1) by (simp add: stable_owners_def)
    qed
  qed simp
qed simp

text \<open>Two objects with the same first owner, which is known and can be read.\<close>

definition siblings :: "(string \<Rightarrow> string \<Rightarrow> string \<Rightarrow> api_error + OwnerReference list) \<Rightarrow> ObjectMeta \<Rightarrow> ObjectMeta \<Rightarrow> bool" where
  "siblings owners m m' = (om_Namespace m = om_Namespace m'
     \<and> (case (om_OwnerReferences m, om_OwnerReferences m') of
          (ref # _, ref' # _) \<Rightarrow> ref = ref' \<and> or_Kind ref \<in> set kindToGV \<and> \<not> isl (owners (or_Kind ref) (om_Namespace m) (or_Name ref))
            \<and> or_UID ref \<notin> {om_UID m, om_UID m'}
        | _ \<Rightarrow> False)
     \<and> owns_nothing owners (om_UID m) \<and> owns_nothing owners (om_UID m'))"

lemma siblings_parent:
  assumes "stable_owners c owners" "siblings owners m m'"
  shows "run_state (getParent c m kind) w = run_state (getParent c m' kind') w"
proof -
  from assms(2) obtain ref rest rest' where r: "om_OwnerReferences m = ref # rest" "om_OwnerReferences m' = ref # rest'"
    by (auto simp: siblings_def split: list.splits)
  with assms(2) obtain refs where refs: "owners (or_Kind ref) (om_Namespace m) (or_Name ref) = Inr refs"
    by (cases "owners (or_Kind ref) (om_Namespace m) (or_Name ref)") (auto simp: siblings_def)
  have u: "owns_nothing owners (om_UID m)" "owns_nothing owners (om_UID m')" using assms(2) by (auto simp: siblings_def)
  then have "om_UID m \<notin> or_UID ` set refs" "om_UID m' \<notin> or_UID ` set refs" using refs by (auto simp: owns_nothing_def)
  from walk_visited [OF assms(1) u this, of 9 "[or_UID ref]"]
  show ?thesis
    using assms r refs by (auto simp: getParent_def maxTraversalDepth_def eval_nat_numeral siblings_def stable_owners_def)
qed

lemma getParent_world:
  assumes "stable_owners c owners"
  shows "fst (run_state (getParent c m kind) w) = fst (run_state (getParent c m kind) v)"
proof -
  have "fst (run_state (walk c n vs k name ns refs) w) = fst (run_state (walk c n vs k name ns refs) v)" for n vs k name ns refs
    using assms by (induction n arbitrary: vs k name refs) (simp_all add: stable_owners_def split: list.split sum.split)
  then show ?thesis by (simp add: getParent_def)
qed

section \<open>Properties\<close>

text \<open>The texts survive the round trip, so a pod's finding has the identity of its errors.\<close>

lemma pod_finding:
  assumes "run_state (pod_ExtractFinding c (KPod pod)) w = (Inr (Some f), w')"
  shows "\<exists>w1. run_state (getParent c (po_Meta pod) ''Pod'') w1 = (f_ParentObject f, w') \<and> f_Kind f = ''Pod''
    \<and> f_Namespace f = om_Namespace (po_Meta pod) \<and> error_texts f = Some (map valid_text (pod_errors (nv_Redactor c) pod))
    \<and> f_Severity f = computePodSeverity pod"
proof -
  from assms obtain w1 parent where "run_state (getParent c (po_Meta pod) ''Pod'') w1 = (parent, w')"
      "f = (finding_of ''Pod'' (po_Meta pod) parent (pod_errors (nv_Redactor c) pod) (computePodSeverity pod))\<lparr>f_NodeName := po_NodeName pod\<rparr>"
    by (auto simp: pod_ExtractFinding_def run_guarded Let_def split: prod.splits if_splits)
  moreover then have "error_texts f = Some (map valid_text (pod_errors (nv_Redactor c) pod))"
    by (intro errors_decode) (simp add: finding_of_def)
  ultimately show ?thesis by (auto simp: finding_of_def)
qed

text \<open>
  C31. Every finding of an enabled provider can be identified: it carries at least one error text,
  its errors decode, its fingerprint is computed and long enough to name a job, and its severity is
  one of the three upper tiers. An object whose annotations ask to be skipped gives no finding.
\<close>

theorem native_findings_identified:
  assumes "enabledProviders (Some c) = Inr ps" "p \<in> set ps" "run_state (pv_ExtractFinding p obj) w = (Inr (Some f), w')"
  shows "(\<exists>texts fp. texts \<noteq> [] \<and> error_texts f = Some texts \<and> FindingFingerprint f = Inr fp \<and> 12 \<le> length fp)
    \<and> provider_tier (f_Severity f) \<and> f_Name f = om_Name (object_meta obj)
    \<and> \<not> ShouldSkip (om_Annotations (object_meta obj)) (fst (run_state (k_now (nv_Kube c)) w))"
proof -
  note P = enabled_provider [OF assms(1,2)]
  from source_provider.reports [OF P assms(3)] source_provider.fingerprinted [OF P assms(3)]
    source_provider.skips [OF P, of w] assms(3)
  show ?thesis by (cases "run_state (k_now (nv_Kube c)) w") (auto simp: reported_def)
qed

text \<open>A replica set with a deployment above it, and its pods.\<close>

definition web_owners :: "string \<Rightarrow> string \<Rightarrow> string \<Rightarrow> api_error + OwnerReference list" where
  "web_owners kind ns name =
     (if kind = ''ReplicaSet'' \<and> name = ''web-6d'' then Inr [\<lparr>or_APIVersion = ''apps/v1'', or_Kind = ''Deployment'', or_Name = ''web'',
        or_UID = ''u-dep'', or_Controller = Some True, or_BlockOwnerDeletion = None\<rparr>]
      else if kind = ''Deployment'' \<and> name = ''web'' then Inr [] else Inl (NotFound name))"

definition web_cluster :: "unit native" where
  "web_cluster = \<lparr>nv_Kube = empty_cluster 0, nv_GetOwners = (\<lambda>kind ns name. ret (web_owners kind ns name)),
     nv_ListEvents = (\<lambda>ns. ret (Inr [])), nv_Sort = (\<lambda>es. es), nv_Redactor = \<lparr>rd_rules = builtinRules\<rparr>\<rparr>"

definition web_pod :: "string \<Rightarrow> Pod" where
  "web_pod n = \<lparr>po_Meta = zero_meta\<lparr>om_Name := ''web-6d-'' @ n, om_Namespace := ''default'', om_UID := ''u-'' @ n,
       om_OwnerReferences := [\<lparr>or_APIVersion = ''apps/v1'', or_Kind = ''ReplicaSet'', or_Name = ''web-6d'',
        or_UID = ''u-rs'', or_Controller = Some True, or_BlockOwnerDeletion = None\<rparr>]\<rparr>,
     po_Phase = ''Running'',
     po_ContainerStatuses = [\<lparr>cn_Name = ''app'', cn_Waiting = Some (''CrashLoopBackOff'', []), cn_Terminated = None,
       cn_LastTerminated = None, cn_RestartCount = 7\<rparr>],
     po_InitContainerStatuses = [], po_Conditions = [], po_NodeName = ''node-1''\<rparr>"

lemma web_errors: "pod_errors red (web_pod n) = [''container app: CrashLoopBackOff'']"
  by (simp add: pod_errors_def all_statuses_def web_pod_def container_errors_def waitingReasons_def buildCrashLoopText_def)

lemma web_stable: "stable_owners web_cluster web_owners"
  by (simp add: stable_owners_def web_cluster_def)

lemma web_finding:
  "\<exists>f. run_state (pod_ExtractFinding web_cluster (KPod (web_pod n))) () = (Inr (Some f), ())"
  by (simp add: pod_ExtractFinding_def run_guarded web_errors split: prod.split)
     (simp add: web_cluster_def empty_cluster_def web_pod_def zero_meta_def ShouldSkip_def mget_def)

theorem native_findings_identified_witness:
  "\<exists>f fp. run_state (pod_ExtractFinding web_cluster (KPod (web_pod ''1''))) () = (Inr (Some f), ()) \<and> FindingFingerprint f = Inr fp
    \<and> f_Name f = ''web-6d-1''"
proof -
  obtain f where f: "run_state (pod_ExtractFinding web_cluster (KPod (web_pod ''1''))) () = (Inr (Some f), ())"
    using web_finding by blast
  let ?p = "\<lparr>pv_ProviderName = ''native'', pv_ObjectType = ''Pod'', pv_ExtractFinding = pod_ExtractFinding web_cluster\<rparr>"
  from native_findings_identified [OF enabledProviders_Some(1), of ?p web_cluster "KPod (web_pod ''1'')" "()" f "()"] show ?thesis
    using f by (auto simp: web_pod_def)
qed

text \<open>
  C16. Replicas share one investigation: two pods of one owner (in the same namespace, with the same
  first owner reference, of a known kind and readable) that show the same errors have the same
  fingerprint, whatever their names and nodes are, because the walk along the owners ends at the
  same root object for both.
\<close>

theorem replicas_share_fingerprint:
  assumes "stable_owners c owners" "siblings owners (po_Meta p) (po_Meta q)"
    and "mset (pod_errors (nv_Redactor c) p) = mset (pod_errors (nv_Redactor c) q)"
    and "run_state (pod_ExtractFinding c (KPod p)) w = (Inr (Some f), w')"
    and "run_state (pod_ExtractFinding c (KPod q)) v = (Inr (Some g), v')"
  shows "f_ParentObject f = f_ParentObject g \<and> FindingFingerprint f = FindingFingerprint g"
proof -
  from pod_finding [OF assms(4)] pod_finding [OF assms(5)] obtain w1 v1
    where P: "run_state (getParent c (po_Meta p) ''Pod'') w1 = (f_ParentObject f, w')" "f_Kind f = ''Pod''" "f_Kind g = ''Pod''"
      "f_Namespace f = om_Namespace (po_Meta p)" "f_Namespace g = om_Namespace (po_Meta q)"
      "run_state (getParent c (po_Meta q) ''Pod'') v1 = (f_ParentObject g, v')"
      "error_texts f = Some (map valid_text (pod_errors (nv_Redactor c) p))"
      "error_texts g = Some (map valid_text (pod_errors (nv_Redactor c) q))" by blast
  have "f_ParentObject f = f_ParentObject g"
    using siblings_parent [OF assms(1,2), of "''Pod''" w1 "''Pod''"] getParent_world [OF assms(1)] P(1,6) by (metis fst_conv)
  moreover have "f_Namespace f = f_Namespace g" using assms(2) P by (simp add: siblings_def)
  ultimately show ?thesis
    using fingerprint_of_identity [of f g] P assms(3) by simp
qed

theorem replicas_share_fingerprint_witness:
  "\<exists>f g. run_state (pod_ExtractFinding web_cluster (KPod (web_pod ''1''))) () = (Inr (Some f), ())
     \<and> run_state (pod_ExtractFinding web_cluster (KPod (web_pod ''2''))) () = (Inr (Some g), ())
     \<and> FindingFingerprint f = FindingFingerprint g"
proof -
  obtain f g where fg: "run_state (pod_ExtractFinding web_cluster (KPod (web_pod ''1''))) () = (Inr (Some f), ())"
      "run_state (pod_ExtractFinding web_cluster (KPod (web_pod ''2''))) () = (Inr (Some g), ())" using web_finding by blast
  have "siblings web_owners (po_Meta (web_pod ''1'')) (po_Meta (web_pod ''2''))"
    by (simp add: siblings_def web_pod_def kindToGV_def owns_nothing_def web_owners_def)
  from replicas_share_fingerprint [OF web_stable this _ fg] show ?thesis using fg by (simp add: web_errors)
qed

text \<open>
  The severity of a pod is the highest its statuses call for: critical exactly when a container
  is in a crash loop with more than five restarts, otherwise high when a container is in a crash
  loop, cannot pull its image or was killed for memory, or when a pending pod is unschedulable, and
  medium in every other case; the order of the containers does not matter.
\<close>

theorem pod_severity_spec:
  "computePodSeverity pod =
     (if list_ex crash_critical (all_statuses pod) then SeverityCritical
      else if list_ex raises_high (all_statuses pod) \<or> po_Phase pod = ''Pending'' \<and> list_ex unschedulable (po_Conditions pod)
      then SeverityHigh else SeverityMedium)"
  by (rule computePodSeverity_spec)

text \<open>
  A failed agent job whose owning \<open>RemediationJob\<close> is read yields a finding one level deeper.
\<close>

definition owned_at_depth :: "'w native \<Rightarrow> Job \<Rightarrow> int \<Rightarrow> bool" where
  "owned_at_depth c job d =
     (case List.find (\<lambda>ref. or_Kind ref = ''RemediationJob'') (om_OwnerReferences (jb_Meta job)) of
        None \<Rightarrow> d = 0
      | Some ref \<Rightarrow> \<forall>w. case fst (run_state (k_get_rjob (nv_Kube c) (om_Namespace (jb_Meta job)) (or_Name ref)) w) of
            Inl e \<Rightarrow> IsNotFound e \<and> d = 0
          | Inr rjob \<Rightarrow> fs_ChainDepth (rj_Finding rjob) = d)"

lemma job_finding_depth:
  assumes "isMechanicJob job" "owned_at_depth c job d"
    and "run_state (job_ExtractFinding c (KJob job)) w = (Inr (Some f), w')"
  shows "f_ChainDepth f = d + 1"
proof -
  from assms(3,1) obtain w0 w1 depth where r: "run_state (getChainDepthFromOwner c job) w0 = (Inr depth, w1)" "f_ChainDepth f = depth"
    by (auto simp: job_ExtractFinding_def run_guarded split: prod.splits if_splits sum.splits)
  show ?thesis
  proof (cases "List.find (\<lambda>ref. or_Kind ref = ''RemediationJob'') (om_OwnerReferences (jb_Meta job))")
    case None
    then show ?thesis using r assms(2) by (simp add: getChainDepthFromOwner_def owned_at_depth_def)
  next
    case (Some ref)
    obtain x v where x: "run_state (k_get_rjob (nv_Kube c) (om_Namespace (jb_Meta job)) (or_Name ref)) w0 = (x, v)" by fastforce
    have "case x of Inl e \<Rightarrow> IsNotFound e \<and> d = 0 | Inr rjob \<Rightarrow> fs_ChainDepth (rj_Finding rjob) = d"
      using assms(2) Some x unfolding owned_at_depth_def by (metis fst_conv option.simps(5))
    then show ?thesis using r Some x by (auto simp: getChainDepthFromOwner_def split: sum.splits)
  qed
qed

text \<open>
  C17. Self-remediation does not cascade: when the watcher's own agent job fails, a
  \<open>RemediationJob\<close> for it is only created one level below the job's owner, and only up to the
  configured maximum depth; with a maximum of zero none is created.
\<close>

theorem self_remediation_bounded:
  assumes "pr_ExtractFinding r = job_ExtractFinding c"
    and "\<And>w w' obj. run_state (pr_Get r name ns) w = (Inr obj, w') \<Longrightarrow> obj = KJob job"
    and "isMechanicJob job" "owned_at_depth c job d" "0 \<le> d" "d < 2 ^ 31 - 1"
  shows "wp (Reconcile_source r name ns) (\<lambda>_ s'. \<exists>es. trace s' = trace s @ es
    \<and> (\<forall>j. CreateRJob j \<in> set es \<longrightarrow> fs_ChainDepth (rj_Finding j) = d + 1 \<and> d + 1 \<le> cfg_SelfRemediationMaxDepth (pr_Cfg r))) s"
proof (rule wp_mono [OF emits_wp [OF Reconcile_source_ok]])
  fix a s' assume "\<exists>es. trace s' = trace s @ es \<and> (\<forall>e \<in> set es. create_ok r name ns e)"
  moreover have "fs_ChainDepth (rj_Finding j) = d + 1 \<and> d + 1 \<le> cfg_SelfRemediationMaxDepth (pr_Cfg r)"
    if "gated_create r name ns j" for j
  proof -
    from that obtain f fp w w' where "run_state (job_ExtractFinding c (KJob job)) w = (Inr (Some f), w')"
        "admissible (pr_Cfg r) f" "j = new_rjob r name ns f fp"
      unfolding gated_create_def assms(1) using assms(2) by blast
    moreover then have "f_ChainDepth f = d + 1" by (intro job_finding_depth [OF assms(3,4)])
    ultimately show ?thesis
      using assms(5,6) by (simp add: admissible_def new_rjob_def Let_def wrap32_id)
  qed
  ultimately show "\<exists>es. trace s' = trace s @ es \<and> (\<forall>j. CreateRJob j \<in> set es \<longrightarrow>
      fs_ChainDepth (rj_Finding j) = d + 1 \<and> d + 1 \<le> cfg_SelfRemediationMaxDepth (pr_Cfg r))"
    by blast
qed

definition failed_agent_job :: Job where
  "failed_agent_job = \<lparr>jb_Meta = zero_meta\<lparr>om_Name := ''mechanic-agent-0'', om_Namespace := ''mechanic'',
       om_Labels := [''app.kubernetes.io/managed-by'' \<mapsto> ''mechanic-watcher'']\<rparr>,
     jb_BackoffLimit = Some 1, jb_ActiveDeadlineSeconds = None, jb_TTLSecondsAfterFinished = None,
     jb_Template = \<lparr>pt_ServiceAccountName = ''mechanic-agent'', pt_RestartPolicy = ''Never'', pt_RunAsNonRoot = None,
       pt_RunAsUser = None, pt_InitContainers = [], pt_Containers = [], pt_Volumes = []\<rparr>,
     jb_Active = 0, jb_Succeeded = 0, jb_Failed = 2, jb_CompletionTime = None, jb_Conditions = []\<rparr>"

definition job_source :: "int \<Rightarrow> (unit, kobject) source_reconciler" where
  "job_source depth = \<lparr>pr_Client = empty_cluster 0,
     pr_Cfg = zero_config\<lparr>cfg_AgentNamespace := ''mechanic'', cfg_SelfRemediationMaxDepth := depth\<rparr>,
     pr_ProviderName = ''native'', pr_Get = (\<lambda>name ns. ret (Inr (KJob failed_agent_job))),
     pr_Annotations = (\<lambda>obj. om_Annotations (object_meta obj)), pr_ExtractFinding = job_ExtractFinding web_cluster,
     pr_Recorder = True, pr_ReadinessChecker = None, pr_CircuitBreaker = None, pr_SinkCloser = None,
     pr_PRMergeChecker = None, pr_range = (\<lambda>xs. xs)\<rparr>"

theorem self_remediation_bounded_witness:
  "wp (Reconcile_source (job_source 0) ''mechanic-agent-0'' ''mechanic'') (\<lambda>_ s'. \<forall>j. CreateRJob j \<notin> set (trace s')) fresh_state"
proof -
  have "isMechanicJob failed_agent_job" "owned_at_depth web_cluster failed_agent_job 0"
    by (simp_all add: isMechanicJob_def failed_agent_job_def owned_at_depth_def zero_meta_def)
  then show ?thesis
    by (intro wp_mono [OF self_remediation_bounded [of "job_source 0" web_cluster _ _ failed_agent_job 0 fresh_state]])
       (auto simp: job_source_def fresh_state_def zero_config_def)
qed

end
