(* ===== verification/Watcher.thy ===== *)
theory Watcher
  imports Starvation Job_Builder Readiness GitHub Native_Findings "HOL-Library.Sublist"
begin

text \<open>
  \<open>src/cmd/watcher/main.go\<close>: how the watcher is put together. The state that the components keep
  between calls (the breaker, the two readiness caches, the token cache) is shared by all providers,
  so it is one record around the cluster, and the programs of the components are lifted to it. The
  reconcilers and the job builder are built from the configuration as \<open>main\<close> does, with every
  fatal error as a value. Of the manager, the retry loop around \<open>NewManager\<close> is here and the options
  that decide which namespaces its client reads; the whole of \<open>main\<close> is in theory Program.
\<close>

section \<open>The shared state\<close>

record ('w, 'h) watcher =
  wt_Cluster :: 'w
  wt_Breaker :: CircuitBreaker
  wt_SinkCache :: CachedChecker
  wt_LLMCache :: CachedChecker
  wt_Net :: "'h net"

definition on_cluster :: "('w, 'a) state \<Rightarrow> (('w, 'h) watcher, 'a) state" where
  "on_cluster c = State (\<lambda>s. case run_state c (wt_Cluster s) of (a, w) \<Rightarrow> (a, s\<lparr>wt_Cluster := w\<rparr>))"

definition on_net :: "('h net, 'a) state \<Rightarrow> (('w, 'h) watcher, 'a) state" where
  "on_net c = State (\<lambda>s. case run_state c (wt_Net s) of (a, n) \<Rightarrow> (a, s\<lparr>wt_Net := n\<rparr>))"

definition on_breaker :: "('w, time) state \<Rightarrow> (('w, 'h) watcher, bool \<times> duration) state" where
  "on_breaker clk = State (\<lambda>s. case run_state (ShouldAllowM clk) (wt_Cluster s, wt_Breaker s) of
     (a, (w, cb)) \<Rightarrow> (a, s\<lparr>wt_Cluster := w, wt_Breaker := cb\<rparr>))"

definition on_sink_cache :: "('w, time) state \<Rightarrow> 'w check \<Rightarrow> ('w, 'h) watcher check" where
  "on_sink_cache clk inner = State (\<lambda>s. case run_state (Cached_Check clk inner (wt_SinkCache s)) (wt_Cluster s) of
     ((e, c), w) \<Rightarrow> (e, s\<lparr>wt_Cluster := w, wt_SinkCache := c\<rparr>))"

definition on_llm_cache :: "('w, time) state \<Rightarrow> 'w check \<Rightarrow> ('w, 'h) watcher check" where
  "on_llm_cache clk inner = State (\<lambda>s. case run_state (Cached_Check clk inner (wt_LLMCache s)) (wt_Cluster s) of
     ((e, c), w) \<Rightarrow> (e, s\<lparr>wt_Cluster := w, wt_LLMCache := c\<rparr>))"

definition lift_kube :: "'w kube \<Rightarrow> ('w, 'h) watcher kube" where
  "lift_kube K = \<lparr>
     k_now = on_cluster (k_now K),
     k_rand_read = (\<lambda>n. on_cluster (k_rand_read K n)),
     k_get_rjob = (\<lambda>ns n. on_cluster (k_get_rjob K ns n)),
     k_list_rjobs = (\<lambda>ns ls. on_cluster (k_list_rjobs K ns ls)),
     k_create_rjob = (\<lambda>j. on_cluster (k_create_rjob K j)),
     k_patch_status = (\<lambda>b n. on_cluster (k_patch_status K b n)),
     k_patch_rjob = (\<lambda>b n. on_cluster (k_patch_rjob K b n)),
     k_delete_rjob = (\<lambda>j. on_cluster (k_delete_rjob K j)),
     k_list_jobs = (\<lambda>ns ls. on_cluster (k_list_jobs K ns ls)),
     k_get_job = (\<lambda>ns n. on_cluster (k_get_job K ns n)),
     k_create_job = (\<lambda>j. on_cluster (k_create_job K j)),
     k_get_configmap = (\<lambda>ns n. on_cluster (k_get_configmap K ns n)),
     k_delete_configmap = (\<lambda>ns n. on_cluster (k_delete_configmap K ns n)),
     k_get_namespace = (\<lambda>n. on_cluster (k_get_namespace K n)),
     k_get_pod_claims = (\<lambda>ns n. on_cluster (k_get_pod_claims K ns n)),
     k_SetStatusCondition = k_SetStatusCondition K,
     k_IsStatusConditionTrue = k_IsStatusConditionTrue K\<rparr>"

definition lift_native :: "'w native \<Rightarrow> ('w, 'h) watcher native" where
  "lift_native c = \<lparr>
     nv_Kube = lift_kube (nv_Kube c),
     nv_GetOwners = (\<lambda>kind ns name. on_cluster (nv_GetOwners c kind ns name)),
     nv_ListEvents = (\<lambda>ns. on_cluster (nv_ListEvents c ns)),
     nv_Sort = nv_Sort c,
     nv_Redactor = nv_Redactor c\<rparr>"

section \<open>Starting the manager\<close>

text \<open>
  \<open>cache.Options\<close>: the namespaces whose secrets the manager's client caches, and those for all other
  objects, where the empty list stands for the unset field, that is for all namespaces.
\<close>

record CacheOptions =
  co_SecretNamespaces :: "string list"
  co_DefaultNamespaces :: "string list"

definition manager_cache :: "Config \<Rightarrow> CacheOptions" where
  "manager_cache cfg =
     (let opts = \<lparr>co_SecretNamespaces = [cfg_AgentNamespace cfg], co_DefaultNamespaces = []\<rparr> in
      if cfg_AgentWatchNamespaces cfg \<noteq> [] then opts\<lparr>co_DefaultNamespaces := cfg_AgentWatchNamespaces cfg\<rparr> else opts)"

text \<open>
  What controller-runtime documents of such a cache: a list in a namespace that it does not hold is an
  error.
\<close>

definition holds_namespace :: "CacheOptions \<Rightarrow> string \<Rightarrow> bool" where
  "holds_namespace opts ns = (co_DefaultNamespaces opts = [] \<or> ns \<in> set (co_DefaultNamespaces opts))"

definition lists_cached :: "CacheOptions \<Rightarrow> 'w kube \<Rightarrow> bool" where
  "lists_cached opts K = (\<forall>ns sel w. \<not> holds_namespace opts ns \<longrightarrow> (\<exists>e. fst (run_state (k_list_rjobs K ns sel) w) = Inl e))"

text \<open>
  The attempts at \<open>ctrl.NewManager\<close>, each with its error or none: the loop goes on only after an
  \<open>Unauthorized\<close> error and never past the tenth attempt; the result is the attempt that succeeded.
\<close>

function manager_loop :: "(nat \<Rightarrow> ('w, string option) state) \<Rightarrow> nat \<Rightarrow> ('w, go_error + nat) state" where
  "manager_loop new_manager attempt =
     (if attempt \<le> 10
      then do {
        e \<leftarrow> new_manager attempt;
        case e of
          None \<Rightarrow> ret (Inr attempt)
        | Some msg \<Rightarrow>
            if sublist ''Unauthorized'' msg \<and> attempt < 10 then manager_loop new_manager (attempt + 1)
            else ret (Inl (Err (''unable to start manager: '' @ msg)))
      }
      else ret (Inr attempt))"
  by pat_completeness auto
termination
  by (relation "measure (\<lambda>(_, attempt). 11 - attempt)") auto

section \<open>The parts that main builds\<close>

text \<open>\<open>logging.New\<close>: the levels that zap knows are an argument.\<close>

definition logging_New :: "(string \<Rightarrow> bool) \<Rightarrow> string \<Rightarrow> go_error + unit" where
  "logging_New zap_level level =
     (if level = [] then Inl (Err ''logging.New: log level must not be empty'')
      else if \<not> zap_level level then Inl (Err (''logging.New: invalid log level '' @ level))
      else Inr ())"

definition builder_config :: "Config \<Rightarrow> BuilderConfig" where
  "builder_config cfg = \<lparr>
     bc_AgentNamespace = cfg_AgentNamespace cfg,
     bc_AgentType = cfg_AgentType cfg,
     bc_TTLSeconds = wrap32 (cfg_RemediationJobTTLSeconds cfg),
     bc_DryRun = cfg_DryRun cfg,
     bc_HardenAgentKubectl = cfg_HardenAgentKubectl cfg,
     bc_ExtraRedactPatterns = cfg_ExtraRedactPatterns cfg,
     bc_CPURequest = cfg_AgentCPURequest cfg,
     bc_MemRequest = cfg_AgentMemRequest cfg,
     bc_CPULimit = cfg_AgentCPULimit cfg,
     bc_MemLimit = cfg_AgentMemLimit cfg,
     bc_ActiveDeadlineSeconds = cfg_AgentActiveDeadlineSeconds cfg\<rparr>"

text \<open>\<open>NewCachedChecker\<close> around a checker: its name is that of the wrapped one, its state lies in the shared record.\<close>

definition cached :: "('w check \<Rightarrow> ('w, 'h) watcher check) \<Rightarrow> 'w Checker \<Rightarrow> ('w, 'h) watcher Checker" where
  "cached through inner = \<lparr>ck_Name = ck_Name inner, ck_Check = through (ck_Check inner)\<rparr>"

definition combinedChecker :: "('w, time) state \<Rightarrow> 'w get_secret \<Rightarrow> ('w, 'h) watcher check \<Rightarrow> Config \<Rightarrow> ('w, 'h) watcher Checker" where
  "combinedChecker clk get_secret ctxErr cfg =
     (let sinkChecker = (if cfg_SinkType cfg = ''github''
                         then cached (on_sink_cache clk) (NewGitHubAppChecker get_secret (cfg_AgentNamespace cfg))
                         else NewNopChecker ''sink'');
          llmChecker = cached (on_llm_cache clk) (NewOpenAIChecker get_secret (cfg_AgentNamespace cfg) (cfg_AgentType cfg))
      in All_Checker ctxErr [sinkChecker, llmChecker])"

definition circuit_breaker :: "('w, time) state \<Rightarrow> Config \<Rightarrow> (('w, 'h) watcher, bool \<times> duration) state option" where
  "circuit_breaker clk cfg = (if 0 < cfg_SelfRemediationCooldown cfg then Some (on_breaker clk) else None)"

text \<open>
  The GitHub credentials when \<open>PRAutoClose\<close> is set: the two identifiers from the environment and
  the private key, whose reading and parsing may fail (\<open>keyErr\<close>). \<open>None\<close> selects the noop sinks.
\<close>

definition positive_id :: "env \<Rightarrow> string \<Rightarrow> go_error + int" where
  "positive_id env name =
     (case Atoi (env name) of
        Some n \<Rightarrow> if n \<le> 0 then Inl (Err (name @ '' is missing or invalid; cannot start with PR_AUTO_CLOSE=true'')) else Inr n
      | None \<Rightarrow> Inl (Err (name @ '' is missing or invalid; cannot start with PR_AUTO_CLOSE=true'')))"

definition credentials :: "env \<Rightarrow> go_error option \<Rightarrow> Config \<Rightarrow> go_error + TokenProvider option" where
  "credentials env keyErr cfg =
     (if cfg_PRAutoClose cfg
      then andthen (positive_id env ''GITHUB_APP_ID'') (\<lambda>appID.
           andthen (positive_id env ''GITHUB_APP_INSTALLATION_ID'') (\<lambda>installID.
             case keyErr of
               Some e \<Rightarrow> Inl e
             | None \<Rightarrow> Inr (Some \<lparr>tp_AppID = appID, tp_InstallationID = installID, tp_BaseURL = []\<rparr>)))
      else Inr None)"

definition sink_closer :: "'h github_api \<Rightarrow> TokenProvider option \<Rightarrow> RemediationJob \<Rightarrow> string \<Rightarrow> (('w, 'h) watcher, go_error option) state" where
  "sink_closer A tp =
     (case tp of
        Some p \<Rightarrow> (\<lambda>rjob reason. on_net (Close A (Token A p) [] rjob reason))
      | None \<Rightarrow> NoopSinkCloser_Close)"

definition merge_checker :: "'h github_api \<Rightarrow> TokenProvider option \<Rightarrow> SinkRef \<Rightarrow> (('w, 'h) watcher, go_error + bool) state" where
  "merge_checker A tp =
     (case tp of
        Some p \<Rightarrow> (\<lambda>ref. on_net (IsMerged A (Token A p) [] ref))
      | None \<Rightarrow> NoopPRMergeChecker_IsMerged)"

text \<open>What the environment of the watcher provides: the API server, GitHub, the file system, the process environment.\<close>

record ('w, 'h) platform =
  pf_Env :: env
  pf_Kube :: "'w kube"
  pf_APIReader :: "string \<Rightarrow> string \<Rightarrow> ('w, api_error + (string \<rightharpoonup> string)) state"
  pf_GetOwners :: "string \<Rightarrow> string \<Rightarrow> string \<Rightarrow> ('w, api_error + OwnerReference list) state"
  pf_ListEvents :: "string \<Rightarrow> ('w, api_error + KEvent list) state"
  pf_Sort :: "KEvent list \<Rightarrow> KEvent list"
  pf_GetObject :: "string \<Rightarrow> string \<Rightarrow> string \<Rightarrow> ('w, api_error + kobject) state"  \<comment> \<open>kind, name, namespace\<close>
  pf_GetSecret :: "'w get_secret"
  pf_CtxErr :: "('w, go_error option) state"
  pf_GitHub :: "'h github_api"
  pf_KeyErr :: "go_error option"
  pf_Compile :: "string \<Rightarrow> re option"
  pf_Quantity :: "string \<Rightarrow> bool"
  pf_ZapLevel :: "string \<Rightarrow> bool"
  pf_Range :: range_order

definition native_client :: "('w, 'h) platform \<Rightarrow> Redactor \<Rightarrow> ('w, 'h) watcher native" where
  "native_client P redactor = lift_native \<lparr>nv_Kube = pf_Kube P, nv_GetOwners = pf_GetOwners P, nv_ListEvents = pf_ListEvents P,
     nv_Sort = pf_Sort P, nv_Redactor = redactor\<rparr>"

definition source_reconciler_of :: "('w, 'h) platform \<Rightarrow> Config \<Rightarrow> TokenProvider option \<Rightarrow>
    ('w, 'h) watcher SourceProvider \<Rightarrow> (('w, 'h) watcher, kobject) source_reconciler" where
  "source_reconciler_of P cfg tp p = \<lparr>
     pr_Client = lift_kube (pf_Kube P),
     pr_Cfg = cfg,
     pr_ProviderName = pv_ProviderName p,
     pr_Get = (\<lambda>name ns. on_cluster (pf_GetObject P (pv_ObjectType p) name ns)),
     pr_Annotations = (\<lambda>obj. om_Annotations (object_meta obj)),
     pr_ExtractFinding = pv_ExtractFinding p,
     pr_Recorder = True,
     pr_ReadinessChecker = Some (ck_Check (combinedChecker (k_now (pf_Kube P)) (pf_GetSecret P) (on_cluster (pf_CtxErr P)) cfg)),
     pr_CircuitBreaker = circuit_breaker (k_now (pf_Kube P)) cfg,
     pr_SinkCloser = Some (sink_closer (pf_GitHub P) tp),
     pr_PRMergeChecker = Some (merge_checker (pf_GitHub P) tp),
     pr_range = pf_Range P\<rparr>"

definition controller_of :: "('w, 'h) platform \<Rightarrow> Config \<Rightarrow> BuilderConfig \<Rightarrow> ('w, 'h) watcher rule list option \<Rightarrow>
    ('w, 'h) watcher reconciler" where
  "controller_of P cfg jb corr = \<lparr>
     rc_Client = lift_kube (pf_Kube P),
     rc_Build = (\<lambda>rjob fs. Build (pf_Quantity P) jb (Some rjob) fs),
     rc_Cfg = cfg,
     rc_Recorder = True,
     rc_APIReader = Some (\<lambda>ns name. on_cluster (pf_APIReader P ns name)),
     rc_Correlator = corr\<rparr>"

text \<open>The state with which the components start.\<close>

definition initial :: "Config \<Rightarrow> 'w \<Rightarrow> 'h \<Rightarrow> ('w, 'h) watcher" where
  "initial cfg w h = \<lparr>wt_Cluster = w,
     wt_Breaker = NewCircuitBreaker (cfg_SelfRemediationCooldown cfg),
     wt_SinkCache = NewCachedChecker ReadinessCacheTTL,
     wt_LLMCache = NewCachedChecker ReadinessCacheTTL,
     wt_Net = \<lparr>net_world = h, net_sent = [], net_metrics = [], net_cachedToken = [], net_expiresAt = zeroTime\<rparr>\<rparr>"

text \<open>\<open>main\<close> from reading the configuration to the reconcilers; \<open>Inl\<close> is a fatal error.\<close>

definition main_setup :: "('w, 'h) platform \<Rightarrow>
    go_error + Config \<times> ('w, 'h) watcher reconciler \<times> (('w, 'h) watcher, kobject) source_reconciler list" where
  "main_setup P =
     andthen (FromEnv (pf_Compile P) (pf_Quantity P) (pf_Env P)) (\<lambda>cfg.
     andthen (logging_New (pf_ZapLevel P) (cfg_LogLevel cfg)) (\<lambda>_.
     andthen (NewBuilder (builder_config cfg)) (\<lambda>jb.
     andthen (NewRedactor (pf_Compile P) (cfg_ExtraRedactPatterns cfg)) (\<lambda>redactor.
     andthen (buildCorrelator (lift_kube (pf_Kube P)) (cfg_DisableCorrelation cfg) (cfg_MultiPodThreshold cfg)) (\<lambda>corr.
     andthen (enabledProviders (Some (native_client P redactor))) (\<lambda>providers.
     andthen (credentials (pf_Env P) (pf_KeyErr P) cfg) (\<lambda>tp.
       Inr (cfg, controller_of P cfg jb corr, map (source_reconciler_of P cfg tp) providers))))))))"

section \<open>Lemmas\<close>

lemmas checker_defs = combinedChecker_def All_Checker_def cached_def NewGitHubAppChecker_def NewNopChecker_def NewOpenAIChecker_def
  NopChecker_Check_def

lemma builder_of_valid:
  assumes "config_ok cfg" "settings_valid compile quantity cfg"
  shows "NewBuilder (builder_config cfg) = Inr (builder_config cfg)" "quantities_ok quantity (builder_config cfg)"
    "bc_TTLSeconds (builder_config cfg) = cfg_RemediationJobTTLSeconds cfg"
proof -
  have "wrap32 (cfg_RemediationJobTTLSeconds cfg) = cfg_RemediationJobTTLSeconds cfg" "cfg_AgentType cfg \<noteq> []"
    using assms(1) by (auto simp: config_ok_def maxInt32_def AgentTypeOpenCode_def AgentTypeClaude_def intro!: wrap32_id)
  then show "NewBuilder (builder_config cfg) = Inr (builder_config cfg)"
      "bc_TTLSeconds (builder_config cfg) = cfg_RemediationJobTTLSeconds cfg"
    using assms(1) by (auto simp: NewBuilder_def builder_config_def config_ok_def)
  show "quantities_ok quantity (builder_config cfg)"
    using assms(2) by (auto simp: quantities_ok_def builder_config_def settings_valid_def split: option.split)
qed

text \<open>What a set-up that succeeds consists of.\<close>

lemma main_setup_parts:
  assumes "main_setup P = Inr (cfg, ctl, srcs)"
  obtains redactor corr tp providers where "config_ok cfg" "settings_valid (pf_Compile P) (pf_Quantity P) cfg"
    "ctl = controller_of P cfg (builder_config cfg) corr"
    "srcs = map (source_reconciler_of P cfg tp) providers" "enabledProviders (Some (native_client P redactor)) = Inr providers"
proof -
  from assms obtain jb redactor corr tp providers where s: "FromEnv (pf_Compile P) (pf_Quantity P) (pf_Env P) = Inr cfg"
      "NewBuilder (builder_config cfg) = Inr jb" "ctl = controller_of P cfg jb corr"
      "srcs = map (source_reconciler_of P cfg tp) providers" "enabledProviders (Some (native_client P redactor)) = Inr providers"
    unfolding main_setup_def andthen_Inr by blast
  from accepted_config [OF s(1)] have ok: "config_ok cfg" "settings_valid (pf_Compile P) (pf_Quantity P) cfg" by simp_all
  show thesis using that [OF ok _ s(4,5)] s(2,3) builder_of_valid(1) [OF ok] by simp
qed

lemma gated_create_fingerprint: "gated_create r name ns j \<Longrightarrow> length (sp_Fingerprint (rj_Spec j)) = 64"
  by (auto simp: gated_create_def FindingFingerprint_def split: option.splits)

definition manager_result :: "(nat \<Rightarrow> ('w, string option) state) \<Rightarrow> go_error + nat \<Rightarrow> bool" where
  "manager_result new_manager res =
     (case res of
        Inr k \<Rightarrow> 1 \<le> k \<and> k \<le> 10 \<and> (\<exists>u u'. run_state (new_manager k) u = (None, u'))
      | Inl e \<Rightarrow> \<exists>k msg u u'. 1 \<le> k \<and> k \<le> 10 \<and> run_state (new_manager k) u = (Some msg, u')
          \<and> e = Err (''unable to start manager: '' @ msg) \<and> (k = 10 \<or> \<not> sublist ''Unauthorized'' msg))"

declare manager_loop.simps [simp del]

lemma manager_loop_from:
  "1 \<le> attempt \<Longrightarrow> attempt \<le> 10 \<Longrightarrow> wp (manager_loop new_manager attempt) (\<lambda>res _. manager_result new_manager res) w"
proof (induction new_manager attempt arbitrary: w rule: manager_loop.induct)
  case (1 new_manager attempt w)
  show ?case
    unfolding manager_loop.simps [of new_manager attempt] if_P [OF 1(3)] wp_bind
  proof (rule wpI)
    fix e w' assume e: "run_state (new_manager attempt) w = (e, w')"
    show "wp (case e of None \<Rightarrow> ret (Inr attempt)
        | Some msg \<Rightarrow> if sublist ''Unauthorized'' msg \<and> attempt < 10 then manager_loop new_manager (attempt + 1)
            else ret (Inl (Err (''unable to start manager: '' @ msg)))) (\<lambda>res _. manager_result new_manager res) w'"
      using e 1(2,3) 1(1) [OF 1(3), of "the e" w']
      by (cases e) (auto simp: wp_simps manager_result_def)
  qed
qed

section \<open>Properties\<close>

text \<open>
  Configuration errors show at start-up and not later: once the environment is accepted, the only
  fatal errors left are the log level and the GitHub credentials. The job builder, the redactor and
  the correlator are built from it without an error, all six providers are set up, and every job that
  the controller is asked to build for a full fingerprint is built, with the configured retention,
  which the conversion to 32 bits does not change, and without a panic in the parsing of a quantity.
\<close>

theorem accepted_config_starts:
  assumes "FromEnv (pf_Compile P) (pf_Quantity P) (pf_Env P) = Inr cfg"
    and "logging_New (pf_ZapLevel P) (cfg_LogLevel cfg) = Inr ()"
    and "credentials (pf_Env P) (pf_KeyErr P) cfg = Inr tp"
  shows "\<exists>ctl srcs. main_setup P = Inr (cfg, ctl, srcs) \<and> length srcs = 6
    \<and> (\<forall>rjob fs. 12 \<le> length (sp_Fingerprint (rj_Spec rjob)) \<longrightarrow>
         (\<exists>job. rc_Build ctl rjob fs = Inr job \<and> jb_TTLSecondsAfterFinished job = Some (cfg_RemediationJobTTLSeconds cfg)
            \<and> jb_ActiveDeadlineSeconds job = Some (cfg_AgentActiveDeadlineSeconds cfg)))"
proof -
  from accepted_config [OF assms(1)] have ok: "config_ok cfg" "settings_valid (pf_Compile P) (pf_Quantity P) cfg" by simp_all
  note b = builder_of_valid [OF ok]
  obtain redactor where red: "NewRedactor (pf_Compile P) (cfg_ExtraRedactPatterns cfg) = Inr redactor"
    using ok(2) by (auto simp: settings_valid_def)
  obtain corr where corr: "buildCorrelator (lift_kube (pf_Kube P)) (cfg_DisableCorrelation cfg) (cfg_MultiPodThreshold cfg)
      = Inr (corr :: ('a, 'b) watcher rule list option)"
    using ok(1) by (cases "cfg_DisableCorrelation cfg") (auto simp: buildCorrelator_def config_ok_def)
  obtain providers where ps: "enabledProviders (Some (native_client P redactor)) = Inr providers" "length providers = 6"
    by (simp add: enabledProviders_Some)
  then have "main_setup P = Inr (cfg, controller_of P cfg (builder_config cfg) corr, map (source_reconciler_of P cfg tp) providers)"
    by (simp add: main_setup_def assms b(1) red corr)
  then show ?thesis
    using b(2,3) ps(2) by (auto simp: controller_of_def Build_def builder_config_def)
qed

text \<open>
  C12. What the sources create the controller can build: every \<open>RemediationJob\<close> that a provider of the
  running watcher creates lies in the agent namespace, where the controller reads its jobs, and the
  controller's builder turns it into an agent job in the same namespace, owned by that object and
  named after the same twelve digits, whatever findings are correlated with it.
\<close>

theorem created_jobs_are_buildable:
  assumes "main_setup P = Inr (cfg, ctl, srcs)" "r \<in> set srcs"
  shows "wp (Reconcile_source r name ns) (\<lambda>_ s'. \<exists>es. trace s' = trace s @ es \<and>
    (\<forall>j fs. CreateRJob j \<in> set es \<longrightarrow> om_Namespace (rj_Meta j) = cfg_AgentNamespace cfg
       \<and> (\<exists>job d. rc_Build ctl j fs = Inr job \<and> om_Namespace (jb_Meta job) = cfg_AgentNamespace cfg
            \<and> rj_Name j = ''mechanic-'' @ d \<and> om_Name (jb_Meta job) = ''mechanic-agent-'' @ d \<and> length d = 12))) s"
proof (rule wp_mono [OF emits_wp [OF Reconcile_source_ok]])
  fix a s' assume "\<exists>es. trace s' = trace s @ es \<and> (\<forall>e \<in> set es. create_ok r name ns e)"
  then obtain es where es: "trace s' = trace s @ es" "\<forall>e \<in> set es. create_ok r name ns e" by blast
  obtain redactor corr tp providers where parts: "config_ok cfg" "settings_valid (pf_Compile P) (pf_Quantity P) cfg"
      "ctl = controller_of P cfg (builder_config cfg) corr"
      "srcs = map (source_reconciler_of P cfg tp) providers" "enabledProviders (Some (native_client P redactor)) = Inr providers"
    by (rule main_setup_parts [OF assms(1)])
  have cfg: "pr_Cfg r = cfg" using assms(2) parts(4) by (auto simp: source_reconciler_of_def)
  have "om_Namespace (rj_Meta j) = cfg_AgentNamespace cfg \<and> (\<exists>job d. rc_Build ctl j fs = Inr job
      \<and> om_Namespace (jb_Meta job) = cfg_AgentNamespace cfg \<and> rj_Name j = ''mechanic-'' @ d
      \<and> om_Name (jb_Meta job) = ''mechanic-agent-'' @ d \<and> length d = 12)" if "CreateRJob j \<in> set es" for j fs
  proof -
    have g: "gated_create r name ns j" using es(2) that by blast
    then have "om_Namespace (rj_Meta j) = cfg_AgentNamespace cfg" "rj_Name j = ''mechanic-'' @ take 12 (sp_Fingerprint (rj_Spec j))"
      using cfg by (auto simp: gated_create_def new_rjob_def Let_def)
    with gated_create_fingerprint [OF g] builder_of_valid(2) [OF parts(1,2)] show ?thesis
      unfolding parts(3) controller_of_def
      by (auto simp: Build_def job_meta_def Let_def builder_config_def)
  qed
  with es(1) show "\<exists>es. trace s' = trace s @ es \<and>
    (\<forall>j fs. CreateRJob j \<in> set es \<longrightarrow> om_Namespace (rj_Meta j) = cfg_AgentNamespace cfg
       \<and> (\<exists>job d. rc_Build ctl j fs = Inr job \<and> om_Namespace (jb_Meta job) = cfg_AgentNamespace cfg
            \<and> rj_Name j = ''mechanic-'' @ d \<and> om_Name (jb_Meta job) = ''mechanic-agent-'' @ d \<and> length d = 12))"
    by blast
qed

text \<open>
  C37. Starting the manager ends: the loop makes at most ten attempts whatever they answer. It comes back
  with an attempt that succeeded, or stops with the error of an attempt that was the tenth or whose
  error is not an \<open>Unauthorized\<close> one.
\<close>

theorem manager_loop_ends:
  "wp (manager_loop new_manager 1) (\<lambda>res _.
     (case res of
        Inr k \<Rightarrow> 1 \<le> k \<and> k \<le> 10 \<and> (\<exists>u u'. run_state (new_manager k) u = (None, u'))
      | Inl e \<Rightarrow> \<exists>k msg u u'. 1 \<le> k \<and> k \<le> 10 \<and> run_state (new_manager k) u = (Some msg, u')
          \<and> e = Err (''unable to start manager: '' @ msg) \<and> (k = 10 \<or> \<not> sublist ''Unauthorized'' msg))) w"
  using manager_loop_from [of 1 new_manager w] by (simp add: manager_result_def)

theorem manager_loop_ends_witness:
  "wp (manager_loop (\<lambda>k. ret (if k < 3 then Some ''Unauthorized'' else None)) 1) (\<lambda>res _. \<forall>k. res = Inr k \<longrightarrow> 3 \<le> k) ()"
  by (rule wp_mono [OF manager_loop_ends]) (auto split: sum.splits if_splits)

definition sample_platform :: "(unit, unit) platform" where
  "sample_platform = \<lparr>pf_Env = minimal_env [(''PR_AUTO_CLOSE'', ''false'')], pf_Kube = empty_cluster 0,
     pf_APIReader = (\<lambda>ns name. ret (Inl (NotFound name))), pf_GetOwners = (\<lambda>kind ns name. ret (Inl (NotFound name))),
     pf_ListEvents = (\<lambda>ns. ret (Inr [])), pf_Sort = (\<lambda>es. es),
     pf_GetObject = (\<lambda>kind name ns. ret (Inr (KPod (web_pod ''1'')))), pf_GetSecret = (\<lambda>ns name. ret (Inl (NotFound name))),
     pf_CtxErr = ret None,
     pf_GitHub = \<lparr>gh_now = ret 0, gh_NewRequest = (\<lambda>m u. None), gh_Do = (\<lambda>req. ret (Inl (Err ''offline''))),
       gh_SignedString = (\<lambda>a b c. Inr ''jwt'')\<rparr>,
     pf_KeyErr = None, pf_Compile = (\<lambda>_. None), pf_Quantity = (\<lambda>_. False), pf_ZapLevel = (\<lambda>l. l = ''info''), pf_Range = (\<lambda>xs. xs)\<rparr>"

definition sample_settings :: Config where
  "sample_settings = (default_config ''org/repo'' ''k8s'' ''img'' ''mechanic'' ''agent'')\<lparr>cfg_PRAutoClose := False\<rparr>"

lemma sample_platform_env:
  "FromEnv (pf_Compile sample_platform) (pf_Quantity sample_platform) (pf_Env sample_platform) = Inr sample_settings"
  "logging_New (pf_ZapLevel sample_platform) (cfg_LogLevel sample_settings) = Inr ()"
  "credentials (pf_Env sample_platform) (pf_KeyErr sample_platform) sample_settings = Inr None"
  by (simp_all add: sample_platform_def sample_settings_def FromEnv_defs minimal_env_def wrap32_def seconds_small Second_def
      NewRedactor_def default_config_def zero_config_def AgentTypeOpenCode_def AgentTypeClaude_def SeverityLow_def Let_def
      logging_New_def credentials_def)

theorem accepted_config_starts_witness:
  "\<exists>ctl srcs. main_setup sample_platform = Inr (sample_settings, ctl, srcs) \<and> length srcs = 6"
  using accepted_config_starts [OF sample_platform_env] by blast

theorem created_jobs_are_buildable_witness:
  "\<exists>ctl r srcs. main_setup sample_platform = Inr (sample_settings, ctl, r # srcs)
     \<and> (\<forall>s. wp (Reconcile_source r ''web-6d-1'' ''default'') (\<lambda>_ s'. \<exists>es. trace s' = trace s @ es \<and>
         (\<forall>j fs. CreateRJob j \<in> set es \<longrightarrow> om_Namespace (rj_Meta j) = ''mechanic'')) s)"
proof -
  obtain ctl r srcs where m: "main_setup sample_platform = Inr (sample_settings, ctl, r # srcs)"
    using sample_platform_env
    by (auto simp: main_setup_def buildCorrelator_def sample_settings_def default_config_def zero_config_def sample_platform_def
        NewRedactor_def NewBuilder_def builder_config_def wrap32_def enabledProviders_Some)
  have ns: "cfg_AgentNamespace sample_settings = ''mechanic''" by (simp add: sample_settings_def default_config_def)
  have "wp (Reconcile_source r ''web-6d-1'' ''default'') (\<lambda>_ s'. \<exists>es. trace s' = trace s @ es \<and>
         (\<forall>j fs. CreateRJob j \<in> set es \<longrightarrow> om_Namespace (rj_Meta j) = ''mechanic'')) s" for s
    by (rule wp_mono [OF created_jobs_are_buildable [OF m]]) (auto simp: ns)
  with m show ?thesis by blast
qed

end
