(* ===== verification/Guards.thy ===== *)
theory Guards
  imports Source_Safety Controller_Safety
begin

text \<open>
  Invariants of the world that every handler keeps. \<open>guards J A m\<close>: from a state with \<open>J\<close> the program
  \<open>m\<close> ends in a state with \<open>J\<close> and with a result that satisfies \<open>A\<close>. The locale \<open>guarded_kube\<close> is what
  the handlers need of a client for a given invariant: every call keeps it, a creation provided that
  the created object is acceptable, and the objects that the client returns are acceptable. In its
  extensions \<open>guarded_controller\<close> and \<open>guarded_source\<close> the two \<open>Reconcile\<close> functions are shown to keep
  the invariant, block by block. Since the invariant is kept by each call, it also holds at every
  call in between, and for a handler that stops early because all its further calls fail.
\<close>

section \<open>The calculus\<close>

definition guards :: "('s \<Rightarrow> bool) \<Rightarrow> ('a \<Rightarrow> bool) \<Rightarrow> ('s, 'a) state \<Rightarrow> bool" where
  "guards J A m = (\<forall>s. J s \<longrightarrow> wp m (\<lambda>a s'. J s' \<and> A a) s)"

abbreviation upholds :: "('s \<Rightarrow> bool) \<Rightarrow> ('s, 'a) state \<Rightarrow> bool" where
  "upholds J m \<equiv> guards J (\<lambda>_. True) m"

abbreviation on_world :: "('w \<Rightarrow> bool) \<Rightarrow> ('w, 'z) sys_scheme \<Rightarrow> bool" where
  "on_world I \<equiv> \<lambda>s. I (world s)"

named_theorems guards_intros \<open>introduction rules for guarded programs\<close>

lemma guardsD: "guards J A m \<Longrightarrow> J s \<Longrightarrow> run_state m s = (a, s') \<Longrightarrow> J s' \<and> A a"
  unfolding guards_def using wp_run by fastforce

lemma guardsI: "(\<And>s a s'. J s \<Longrightarrow> run_state m s = (a, s') \<Longrightarrow> J s' \<and> A a) \<Longrightarrow> guards J A m"
  by (simp add: guards_def wpI)

lemma guards_mono: "guards J A m \<Longrightarrow> (\<And>a. A a \<Longrightarrow> B a) \<Longrightarrow> guards J B m"
  unfolding guards_def by (fastforce elim!: wp_mono)

lemma guarded_of: "guards J A m \<Longrightarrow> upholds J m"
  by (erule guards_mono) simp

lemma guards_return [guards_intros]: "A a \<Longrightarrow> guards J A (State_Monad.return a)"
  by (simp add: guards_def wp_simps)

lemma guards_bind: "guards J A m \<Longrightarrow> (\<And>a. A a \<Longrightarrow> guards J B (f a)) \<Longrightarrow> guards J B (State_Monad.bind m f)"
  unfolding guards_def wp_bind by (fastforce elim!: wp_mono)

lemma guards_bind_any [guards_intros]: "upholds J m \<Longrightarrow> (\<And>a. guards J B (f a)) \<Longrightarrow> guards J B (State_Monad.bind m f)"
  by (rule guards_bind)

lemma guards_cases [guards_intros]:
  "(b \<Longrightarrow> guards J A m) \<Longrightarrow> (\<not> b \<Longrightarrow> guards J A n) \<Longrightarrow> guards J A (if b then m else n)"
  "(x = None \<Longrightarrow> guards J A m) \<Longrightarrow> (\<And>a. x = Some a \<Longrightarrow> guards J A (f a)) \<Longrightarrow>
     guards J A (case x of None \<Rightarrow> m | Some a \<Rightarrow> f a)"
  "(\<And>a. y = Inl a \<Longrightarrow> guards J A (g a)) \<Longrightarrow> (\<And>b. y = Inr b \<Longrightarrow> guards J A (h b)) \<Longrightarrow>
     guards J A (case y of Inl a \<Rightarrow> g a | Inr b \<Rightarrow> h b)"
  "(\<And>a b. z = (a, b) \<Longrightarrow> guards J A (k a b)) \<Longrightarrow> guards J A (case z of (a, b) \<Rightarrow> k a b)"
  "(l = [] \<Longrightarrow> guards J A m) \<Longrightarrow> (\<And>a b. l = a # b \<Longrightarrow> guards J A (q a b)) \<Longrightarrow>
     guards J A (case l of [] \<Rightarrow> m | a # b \<Rightarrow> q a b)"
  "(\<And>x. x = t \<Longrightarrow> guards J A (r x)) \<Longrightarrow> guards J A (Let t r)"
  by (simp_all split: option.split sum.split prod.split list.split)

lemma guards_ask: "guards I A c \<Longrightarrow> guards (on_world I) A (ask c)"
  by (auto simp: guards_def wp_simps wp_all)

lemma guards_emit [guards_intros]: "A () \<Longrightarrow> guards (on_world I) A (emit e)"
  by (simp add: guards_def wp_simps)

lemma guards_act: "guards I A c \<Longrightarrow> guards (on_world I) A (act e c)"
  unfolding act_def by (intro guards_bind_any guards_emit guards_ask TrueI)

lemma guards_psys [guards_intros]:
  "guards (on_world I) (\<lambda>_. True) (read_map :: ('w, BoundedMap) prog)"
  "guards (on_world I) (\<lambda>_. True) (write_map m :: ('w, unit) prog)"
  "guards (on_world I) (\<lambda>_. True) (mark_initialised :: ('w, unit) prog)"
  "guards (on_world I) (\<lambda>_. True) (State_Monad.get :: ('w, 'w psys) prog)"
  by (simp_all add: guards_def wp_simps)

lemma guards_event [guards_intros]:
  "A () \<Longrightarrow> guards (on_world I) A (event r j t rs m)" "A () \<Longrightarrow> guards (on_world I) A (src_event q tg t rs m)"
  "B (Some res) \<Longrightarrow> guards (on_world I) B (suppressed reason res)"
  by (simp_all add: guards_def event_def src_event_def suppressed_def wp_simps)

lemma guards_unless_done [guards_intros]:
  "upholds J g \<Longrightarrow> upholds J k \<Longrightarrow> upholds J (unless_done g k)"
  unfolding unless_done_def by (intro guards_intros TrueI)

section \<open>What a client keeps\<close>

text \<open>A patch that changes nothing but the two correlation labels.\<close>

definition relabels :: "RemediationJob \<Rightarrow> RemediationJob \<Rightarrow> bool" where
  "relabels b n =
     (\<exists>ls. n = b\<lparr>rj_Meta := (rj_Meta b)\<lparr>om_Labels := ls\<rparr>\<rparr>
        \<and> (\<forall>k. k \<notin> {CorrelationGroupIDLabel, CorrelationGroupRoleLabel} \<longrightarrow> ls k = rj_Labels b k))"

lemma relabels_set_label: "relabels b (set_label CorrelationGroupRoleLabel v (set_label CorrelationGroupIDLabel u b))"
  unfolding relabels_def set_label_def
  by (intro exI [of _ "(rj_Labels b)(CorrelationGroupIDLabel \<mapsto> u, CorrelationGroupRoleLabel \<mapsto> v)"]) simp

definition answer_in :: "('a \<Rightarrow> bool) \<Rightarrow> 'e + 'a \<Rightarrow> bool" where
  "answer_in ok a = (case a of Inl _ \<Rightarrow> True | Inr j \<Rightarrow> ok j)"

lemma answer_in_simps [simp]: "answer_in ok (Inl e)" "answer_in ok (Inr j) = ok j"
  by (simp_all add: answer_in_def)

locale guarded_kube =
  fixes K :: "'w kube" and I :: "'w \<Rightarrow> bool"
    and ok_rjob :: "RemediationJob \<Rightarrow> bool" and ok_job :: "Job \<Rightarrow> bool"
  assumes ok_status: "rj_Meta i = rj_Meta j \<Longrightarrow> rj_Spec i = rj_Spec j \<Longrightarrow> ok_rjob i = ok_rjob j"
    and ok_relabelled: "relabels j n \<Longrightarrow> ok_rjob j \<Longrightarrow> ok_rjob n"
    and now_guarded: "upholds I (k_now K)"
    and rand_guarded: "upholds I (k_rand_read K len)"
    and get_guarded: "guards I (answer_in ok_rjob) (k_get_rjob K ns name)"
    and list_guarded: "guards I (answer_in (list_all ok_rjob)) (k_list_rjobs K ns sel)"
    and create_guarded: "ok_rjob j \<Longrightarrow> upholds I (k_create_rjob K j)"
    and patch_status_guarded: "rj_Meta b = rj_Meta n \<Longrightarrow> rj_Spec b = rj_Spec n \<Longrightarrow> ok_rjob b \<Longrightarrow>
          guards I (answer_in ok_rjob) (k_patch_status K b n)"
    and patch_rjob_guarded: "relabels b n \<Longrightarrow> ok_rjob b \<Longrightarrow> guards I (answer_in ok_rjob) (k_patch_rjob K b n)"
    and delete_guarded: "upholds I (k_delete_rjob K j)"
    and list_jobs_guarded: "upholds I (k_list_jobs K ns sel)"
    and get_job_guarded: "upholds I (k_get_job K ns name)"
    and create_job_guarded: "ok_job job \<Longrightarrow> upholds I (k_create_job K job)"
    and get_configmap_guarded: "upholds I (k_get_configmap K ns name)"
    and delete_configmap_guarded: "upholds I (k_delete_configmap K ns name)"
    and get_namespace_guarded: "upholds I (k_get_namespace K name)"
    and get_pod_claims_guarded: "upholds I (k_get_pod_claims K ns name)"
begin

lemmas reads_guarded =
  now_guarded rand_guarded get_guarded [THEN guarded_of] list_guarded [THEN guarded_of] delete_guarded
  list_jobs_guarded get_job_guarded get_configmap_guarded delete_configmap_guarded get_namespace_guarded get_pod_claims_guarded

lemmas asks_guarded [guards_intros] = reads_guarded [THEN guards_ask] reads_guarded [THEN guards_act]

lemma delete_rjob_guarded [guards_intros]: "upholds (on_world I) (delete_rjob K j)"
  unfolding delete_rjob_def by (intro guards_intros)

lemma patch_status_ok:
  assumes "rj_Meta b = rj_Meta n" "rj_Spec b = rj_Spec n" "ok_rjob b"
  shows "guards (on_world I) (\<lambda>x. ok_rjob (fst x)) (patch_status K b n)"
proof -
  have n: "ok_rjob n" using ok_status [of n b] assms by simp
  show ?thesis
    unfolding patch_status_def
    by (rule guards_bind [OF guards_act [OF patch_status_guarded [OF assms]]])
      (use n in \<open>auto intro!: guards_return split: sum.split\<close>)
qed

lemma patch_rjob_ok:
  assumes "relabels b n" "ok_rjob b"
  shows "guards (on_world I) (\<lambda>x. ok_rjob (fst x)) (patch_rjob K b n)"
  unfolding patch_rjob_def
  by (rule guards_bind [OF guards_act [OF patch_rjob_guarded [OF assms]]])
    (use ok_relabelled [OF assms] in \<open>auto intro!: guards_return split: sum.split\<close>)

lemmas patch_status_guarded' = patch_status_ok [THEN guarded_of]
lemmas patch_rjob_guarded' = patch_rjob_ok [THEN guarded_of]

text \<open>The correlation rules only read.\<close>

lemma matched_result_guarded: "upholds I (matched_result K p reason us)"
  unfolding matched_result_def NewCorrelationGroupID_def by (intro guards_intros rand_guarded TrueI)

lemma pods_mounting_guarded: "upholds I (pods_mounting K ns c ps)"
  by (induction ps) (auto intro!: guards_intros get_pod_claims_guarded)

lemma rules_guarded:
  assumes "buildCorrelator K disabled threshold = Inr (Some rules)" "(n, ev) \<in> set rules"
  shows "upholds I (ev c ps)"
proof -
  have "upholds I (SameNamespaceParent_Evaluate K c ps)" "upholds I (MultiPodSameNode_Evaluate K threshold c ps)"
    unfolding SameNamespaceParent_Evaluate_def MultiPodSameNode_Evaluate_def
    by (intro guards_intros matched_result_guarded TrueI)+
  moreover have "upholds I (PVCPod_Evaluate K c ps)"
    unfolding PVCPod_Evaluate_def evaluatePodCandidate_def evaluatePVCCandidate_def
    by (intro guards_intros matched_result_guarded pods_mounting_guarded get_pod_claims_guarded TrueI)
  ultimately show ?thesis using assms by (auto simp: buildCorrelator_def split: if_splits)
qed

end

section \<open>The controller\<close>

text \<open>Two versions of one object: what a status patch changes and what it leaves.\<close>

definition same_object :: "RemediationJob \<Rightarrow> RemediationJob \<Rightarrow> bool" where
  "same_object i j = (rj_Meta i = rj_Meta j \<and> rj_Spec i = rj_Spec j)"

locale guarded_controller = guarded_kube K I ok_rjob ok_job
  for K :: "'w kube" and I ok_rjob ok_job +
  fixes r :: "'w reconciler"
  assumes client: "rc_Client r = K"
    and build_ok: "ok_rjob j \<Longrightarrow> rc_Build r j fs = Inr job \<Longrightarrow> ok_job job"
    and reader_guarded: "rc_APIReader r = Some g \<Longrightarrow> upholds I (g ns name)"
    and rules_from: "rc_Correlator r = Some rules \<Longrightarrow> (n, ev) \<in> set rules \<Longrightarrow> upholds I (ev c ps)"
begin

lemma same_identity [simp]:
  "rj_Meta (add_condition K' c j) = rj_Meta j" "rj_Spec (add_condition K' c j) = rj_Spec j"
  by (simp_all add: add_condition_def)

lemma Evaluate_guarded: "\<forall>(n, ev) \<in> set rules. upholds I (ev c ps) \<Longrightarrow> upholds I (Evaluate rules c ps)"
  by (induction rules) (auto intro!: guards_intros)

lemma transitionSuppressed_guarded: "ok_rjob j \<Longrightarrow> upholds (on_world I) (transitionSuppressed r j gid u)"
  unfolding transitionSuppressed_def client Let_def
  by (intro guards_intros guards_bind [OF patch_status_ok] patch_rjob_guarded' relabels_set_label TrueI) auto

lemma suppress_loop_guarded: "list_all ok_rjob ps \<Longrightarrow> upholds (on_world I) (suppress_loop r grp ps)"
  by (induction ps) (auto intro!: guards_intros transitionSuppressed_guarded)

lemma adopt_existing_guarded: "ok_rjob j \<Longrightarrow> upholds (on_world I) (adopt_existing r j job)"
  unfolding adopt_existing_def client Let_def
  by (intro guards_intros patch_status_guarded' TrueI) auto

lemma dispatch_guarded: "ok_rjob j \<Longrightarrow> upholds (on_world I) (dispatch r j fs)"
  unfolding dispatch_def client Let_def
  by (intro guards_intros patch_status_guarded' adopt_existing_guarded guards_act create_job_guarded build_ok TrueI) auto

lemma count_active_guarded: "upholds I (count_active K js)"
  by (induction js) (auto simp: isJobActive_def intro!: guards_intros now_guarded)

lemma concurrencyGate_guarded: "upholds (on_world I) (concurrencyGate r)"
  unfolding concurrencyGate_def client by (intro guards_intros guards_ask count_active_guarded TrueI)

lemma gated_dispatch_guarded: "ok_rjob j \<Longrightarrow> upholds (on_world I) (gated_dispatch r j fs)"
  unfolding gated_dispatch_def by (intro guards_intros concurrencyGate_guarded dispatch_guarded TrueI)

lemma label_primary_kept: "ok_rjob j \<Longrightarrow> guards (on_world I) (\<lambda>x. ok_rjob (fst x)) (label_primary K gid j)"
  unfolding label_primary_def by (intro patch_rjob_ok relabels_set_label)

lemma publish_group_kept: "ok_rjob j \<Longrightarrow> guards (on_world I) (\<lambda>x. ok_rjob (fst x)) (publish_group K gid j)"
  unfolding publish_group_def
  by (rule guards_bind [OF patch_status_ok]) (auto intro!: guards_intros label_primary_kept split: prod.split)

lemma dispatch_primary_guarded:
  assumes "ok_rjob j" "list_all ok_rjob ps"
  shows "upholds (on_world I) (dispatch_primary r j ps grp)"
  unfolding dispatch_primary_def suppressCorrelatedPeers_def client Let_def
  by (intro guards_intros suppress_loop_guarded guards_bind [OF publish_group_kept] assms TrueI)
    (auto intro: dispatch_guarded)

lemma recover_group_guarded:
  assumes "ok_rjob j"
  shows "upholds (on_world I) (recover_group r j)"
proof -
  have "guards (on_world I) (\<lambda>x. ok_rjob (fst x)) (if b then label_primary K gid j else ret (j, None))" for b gid
    using assms by (intro guards_intros label_primary_kept) auto
  note l = guards_bind [OF this]
  show ?thesis
    unfolding recover_group_def client Let_def
    by (intro guards_intros l TrueI) (auto intro: gated_dispatch_guarded)
qed

lemma after_group_guarded: "ok_rjob j \<Longrightarrow> upholds (on_world I) (after_group r j)"
  unfolding after_group_def by (intro guards_intros recover_group_guarded TrueI)

lemma pendingPeers_ok: "guards (on_world I) (answer_in (list_all ok_rjob)) (pendingPeers r j)"
  unfolding pendingPeers_def client
  by (rule guards_bind [OF guards_ask [OF list_guarded]])
    (auto intro!: guards_return split: sum.split simp: list_all_iff)

lemma correlate_guarded:
  assumes "ok_rjob j" "rc_Correlator r = Some rules"
  shows "upholds (on_world I) (correlate r rules j)"
proof -
  have "upholds I (Evaluate rules j ps)" for ps
    by (intro Evaluate_guarded) (auto intro: rules_from [OF assms(2)])
  note e = guards_ask [OF this]
  have rest: "upholds (on_world I) (window_hold r j w)" "upholds (on_world I) (await_primary r j w grp)" for w grp
    unfolding window_hold_def await_primary_def client by (intro guards_intros TrueI)+
  show ?thesis
    unfolding correlate_def Let_def
    by (intro guards_intros rest guards_bind [OF pendingPeers_ok] e after_group_guarded dispatch_primary_guarded assms TrueI) auto
qed

lemma mark_terminal_same: "guards (on_world I) (same_object old) (mark_terminal K old p (set_phase p old))"
proof -
  have first: "guards (on_world I) (same_object old) (if p = PhaseFailed then mark_failed K old (set_phase p old)
      else do { now \<leftarrow> ask (k_now K); ret (add_condition K (mk_condition ConditionJobComplete (phase_string p) [] now) (set_phase p old)) })"
    unfolding mark_failed_def Let_def by (intro guards_intros) (simp_all add: same_object_def)
  have second: "guards (on_world I) (same_object old) (case st_CompletedAt (rj_Status j) of
        None \<Rightarrow> do { now \<leftarrow> ask (k_now K); ret (j\<lparr>rj_Status := (rj_Status j)\<lparr>st_CompletedAt := Some now\<rparr>\<rparr>) }
      | Some _ \<Rightarrow> ret j)" if "same_object old j" for j
    using that by (intro guards_intros) (simp_all add: same_object_def)
  show ?thesis
    unfolding mark_terminal_def
    by (rule guards_bind [OF first], rule guards_bind [OF second], assumption, rule guards_bind_any)
      (auto intro!: guards_intros split: option.split)
qed

lemma fetchDryRunReport_guarded: "upholds (on_world I) (fetchDryRunReport r j)"
proof -
  have "upholds I ((case rc_APIReader r of None \<Rightarrow> k_get_configmap K | Some g \<Rightarrow> g) ns name)" for ns name
    by (auto split: option.split intro: get_configmap_guarded reader_guarded)
  then show ?thesis
    unfolding fetchDryRunReport_def client Let_def by (intro guards_intros guards_ask TrueI)
qed

lemma sync_owned_guarded:
  assumes "ok_rjob old"
  shows "upholds (on_world I) (sync_owned r old job)"
proof -
  let ?p = "syncPhaseFromJob job"
  have phase: "guards (on_world I) (same_object old) (if ?p = PhaseSucceeded \<or> ?p = PhaseFailed
      then mark_terminal K old ?p (set_phase ?p old) else ret (set_phase ?p old))"
    by (intro guards_cases mark_terminal_same guards_return) (simp add: same_object_def)
  have report: "guards (on_world I) (same_object old) (if b then do { m \<leftarrow> fetchDryRunReport r j;
        ret (j\<lparr>rj_Status := (rj_Status j)\<lparr>st_Message := m\<rparr>\<rparr>) } else ret j)" if "same_object old j" for j b
    using that by (intro guards_intros fetchDryRunReport_guarded) (simp_all add: same_object_def)
  have jobref: "same_object old (if b then j\<lparr>rj_Status := (rj_Status j)\<lparr>st_JobRef := n\<rparr>\<rparr> else j)"
    if "same_object old j" for j b n
    using that by (simp add: same_object_def)
  have "upholds (on_world I) (sync_event r job ?p j)" for j
    unfolding sync_event_def by (cases ?p) (auto intro!: guards_intros)
  then have last: "upholds (on_world I) (do { (j, e) \<leftarrow> patch_status K old j;
      (case e of Some err \<Rightarrow> ret (Done, Some (Api err)) | None \<Rightarrow> do { sync_event r job ?p j; ret (Done, None) }) })"
    if "same_object old j" for j
    using that assms by (intro guards_intros patch_status_guarded' TrueI) (simp_all add: same_object_def)
  show ?thesis
    unfolding sync_owned_def client Let_def
    by (rule guards_bind [OF phase], rule guards_bind [OF report [OF jobref]], assumption, rule last)
qed

lemma by_phase_guarded:
  assumes "ok_rjob j"
  shows "upholds (on_world I) (by_phase r j)"
proof -
  have "upholds (on_world I) (drive r j)"
    unfolding drive_def client
    by (intro guards_intros sync_owned_guarded gated_dispatch_guarded correlate_guarded assms TrueI)
  moreover have "upholds (on_world I) (succeeded_step r j)"
    unfolding succeeded_step_def after_delete_def client Let_def
    by (intro guards_intros patch_status_guarded' assms TrueI) auto
  ultimately show ?thesis
    unfolding by_phase_def by (auto intro: guards_intros split: RemediationJobPhase.split)
qed

lemma record_pr_kept: "ok_rjob j \<Longrightarrow> guards (on_world I) ok_rjob (record_pr r j)"
  unfolding record_pr_def client Let_def
  by (intro guards_intros guards_bind [OF patch_status_ok]) auto

lemma Reconcile_guarded: "upholds (on_world I) (Reconcile r ns name)"
  unfolding Reconcile_def init_phase_def client
  by (rule guards_bind [OF guards_ask [OF get_guarded]],
      intro guards_intros guards_bind [OF record_pr_kept] by_phase_guarded patch_status_guarded' TrueI) auto

end

section \<open>The sources\<close>

locale guarded_source = guarded_kube K I ok_rjob ok_job
  for K :: "'w kube" and I ok_rjob ok_job +
  fixes r :: "('w, 'o) source_reconciler"
  assumes client: "pr_Client r = K"
    and get_object_guarded: "upholds I (pr_Get r name ns)"
    and extract_guarded: "upholds I (pr_ExtractFinding r obj)"
    and readiness_guarded: "pr_ReadinessChecker r = Some check \<Longrightarrow> upholds I check"
    and breaker_guarded: "pr_CircuitBreaker r = Some breaker \<Longrightarrow> upholds I breaker"
    and closer_guarded: "pr_SinkCloser r = Some closer \<Longrightarrow> upholds I (closer j reason)"
    and merge_guarded: "pr_PRMergeChecker r = Some isMerged \<Longrightarrow> upholds I (isMerged ref)"
    and new_ok: "FindingFingerprint f = Inr fp \<Longrightarrow> ok_rjob (new_rjob r name ns f fp)"
begin

lemma now_r [guards_intros]: "upholds (on_world I) (now r)"
  unfolding now_def client by (intro guards_intros)

lemma map_guarded [guards_intros]:
  "upholds (on_world I) (clear_first_seen r)" "upholds (on_world I) (Get (now r) fp m)"
  "upholds (on_world I) (SetNow (now r) it fp m)" "upholds (on_world I) (NewBoundedMap (now r) n t i)"
  "upholds (on_world I) (initFirstSeen r)"
  unfolding clear_first_seen_def Clear_def Get_def SetNow_def SetWithTime_def needsCleanup_def cleanupIfNeeded_def
    NewBoundedMap_def initFirstSeen_def Let_def
  by (intro guards_intros TrueI; simp)+

lemma closing_guarded:
  assumes "auto_closer r = Some closer"
  shows "upholds (on_world I) (close_sink closer j)" "upholds (on_world I) (autoCloseSucceededSinks closer name ns js)"
proof -
  have c: "pr_SinkCloser r = Some closer" using assms by (simp add: auto_closer_def split: if_splits)
  show one: "upholds (on_world I) (close_sink closer j)" for j
    unfolding close_sink_def by (intro guards_intros guards_act closer_guarded [OF c] TrueI)
  show "upholds (on_world I) (autoCloseSucceededSinks closer name ns js)"
    by (induction js) (auto intro!: guards_intros one)
qed

lemma cancel_loop_guarded: "list_all ok_rjob js \<Longrightarrow> upholds (on_world I) (cancel_loop r name ns js)"
proof (induction js)
  case (Cons j js)
  then have "upholds (on_world I) (cancel_one r j)"
    unfolding cancel_one_def client by (intro guards_intros closing_guarded patch_status_guarded' TrueI) auto
  with Cons show ?case by (auto intro!: guards_intros)
qed (auto intro: guards_return)

lemma source_deleted_guarded: "upholds (on_world I) (source_deleted r name ns)"
  unfolding source_deleted_def client
  by (rule guards_bind_any [OF map_guarded(1)], rule guards_bind [OF guards_ask [OF list_guarded]],
      intro guards_intros closing_guarded cancel_loop_guarded TrueI) auto

lemma finding_cleared_guarded: "upholds (on_world I) (finding_cleared r name ns)"
  unfolding finding_cleared_def client by (intro guards_intros closing_guarded TrueI)

lemma gates_guarded [guards_intros]:
  "upholds (on_world I) (text_gate r t)" "upholds (on_world I) (namespace_gate r f)" "upholds (on_world I) (severity_gate r f)"
  "upholds (on_world I) (stabilisation_gate r obj fp)" "upholds (on_world I) (parent_gate r f)"
  unfolding text_gate_def namespace_gate_def severity_gate_def stabilisation_gate_def parent_gate_def client Let_def
  by (intro guards_intros TrueI)+

lemma interface_gates_guarded [guards_intros]:
  "upholds (on_world I) (depth_gate r f)" "upholds (on_world I) (readiness_gate r)"
  unfolding depth_gate_def readiness_gate_def Let_def
  by (intro guards_intros guards_ask breaker_guarded readiness_guarded TrueI; assumption)+

lemma succeeded_duplicate_guarded: "ok_rjob j \<Longrightarrow> upholds (on_world I) (succeeded_duplicate r j)"
  unfolding succeeded_duplicate_def tombstone_expiry_def duplicate_def client
  by (intro guards_intros guards_ask merge_guarded patch_status_guarded' TrueI) auto

lemma dedup_loop_guarded: "list_all ok_rjob js \<Longrightarrow> upholds (on_world I) (dedup_loop r fp js)"
proof (induction js)
  case (Cons j js)
  then have "upholds (on_world I) (do { d \<leftarrow> delete_rjob K j;
      if failed_for_good d then ret (Some (Done, map_option Api d)) else dedup_loop r fp js })"
    by (intro guards_intros) auto
  moreover have "upholds (on_world I) (duplicate r j t)" for t
    unfolding duplicate_def by (intro guards_intros TrueI)
  ultimately show ?case
    using Cons by (auto simp: client split: RemediationJobPhase.split intro!: guards_intros succeeded_duplicate_guarded)
qed (auto intro: guards_return)

lemma dedup_gate_guarded: "upholds (on_world I) (dedup_gate r fp)"
  unfolding dedup_gate_def client
  by (rule guards_bind [OF guards_ask [OF list_guarded]], intro guards_intros dedup_loop_guarded TrueI) auto

lemma create_rjob_guarded: "FindingFingerprint f = Inr fp \<Longrightarrow> upholds (on_world I) (create_rjob r name ns f fp)"
  unfolding create_rjob_def client Let_def by (intro guards_intros guards_act create_guarded new_ok TrueI)

lemma Reconcile_source_guarded: "upholds (on_world I) (Reconcile_source r name ns)"
  unfolding Reconcile_source_def reconcile_object_def handle_finding_def admit_def
  by (intro guards_intros guards_ask [OF get_object_guarded] guards_ask [OF extract_guarded] source_deleted_guarded
      finding_cleared_guarded dedup_gate_guarded create_rjob_guarded TrueI)

end

end
