(* ===== verification/Server.thy ===== *)
theory Server
  imports Guards Job_Builder
begin

text \<open>
  The API server as the watcher relies on it. The server and its caches are not code of the
  repository, so they are a parameter: the locale \<open>api_server\<close> states what Kubernetes documents of the
  calls that the program makes. A view maps the world to the objects of the cluster. Other writers
  act before and after every call, within a relation \<open>rely\<close>. A write may take effect although its
  answer is an error (a lost answer), and a read may return any version that was ever stored, as a
  cache does. Names are unique, a creation fails if the name is taken, \<open>status\<close> is a subresource, and
  a merge patch carries only what differs between its base and its new object.

  The locale \<open>tidy_server\<close> adds a registry invariant that other writers respect, and is a sublocale of
  \<open>guarded_kube\<close>: the reconcilers keep the registry. At the end of the theory a server in memory, with a
  script of other writers, is an instance of these contracts.
\<close>

section \<open>The objects of a cluster\<close>

record objects =
  ob_rjobs :: "RemediationJob list"    \<comment> \<open>the stored \<open>RemediationJob\<close> objects\<close>
  ob_jobs :: "Job list"                \<comment> \<open>the stored \<open>batch/v1\<close> jobs\<close>
  ob_history :: "RemediationJob list"  \<comment> \<open>the versions of \<open>RemediationJob\<close> objects stored so far\<close>
  ob_clock :: time

definition rj_key :: "RemediationJob \<Rightarrow> string \<times> string" where
  "rj_key j = (rj_Namespace j, rj_Name j)"

definition jb_key :: "Job \<Rightarrow> string \<times> string" where
  "jb_key j = (om_Namespace (jb_Meta j), om_Name (jb_Meta j))"

text \<open>The versions of objects that a read may return: the current ones and, from a cache, older ones.\<close>

definition versions :: "objects \<Rightarrow> RemediationJob set" where
  "versions a = set (ob_rjobs a) \<union> set (ob_history a)"

text \<open>The metadata that the server assigns at a creation.\<close>

definition assigned :: "ObjectMeta \<Rightarrow> ObjectMeta \<Rightarrow> bool" where
  "assigned m m' =
     (om_Name m' = om_Name m \<and> om_Namespace m' = om_Namespace m \<and> om_Labels m' = om_Labels m
      \<and> om_Annotations m' = om_Annotations m \<and> om_OwnerReferences m' = om_OwnerReferences m)"

definition rjob_created :: "RemediationJob \<Rightarrow> objects \<Rightarrow> objects \<Rightarrow> bool" where
  "rjob_created j a b =
     (rj_key j \<notin> rj_key ` set (ob_rjobs a)
      \<and> (\<exists>m. assigned (rj_Meta j) m
           \<and> (let j' = \<lparr>rj_Meta = m, rj_Spec = rj_Spec j, rj_Status = zero_status\<rparr>
              in b = a\<lparr>ob_rjobs := ob_rjobs a @ [j'], ob_history := ob_history a @ [j']\<rparr>)))"

definition job_created :: "Job \<Rightarrow> objects \<Rightarrow> objects \<Rightarrow> bool" where
  "job_created j a b =
     (jb_key j \<notin> jb_key ` set (ob_jobs a)
      \<and> (\<exists>m. assigned (jb_Meta j) m \<and> b = a\<lparr>ob_jobs := ob_jobs a @ [j\<lparr>jb_Meta := m\<rparr>]\<rparr>))"

text \<open>The stored version of an object is replaced by a new one, which is remembered.\<close>

definition replace_rjob :: "(RemediationJob \<Rightarrow> RemediationJob) \<Rightarrow> string \<times> string \<Rightarrow> objects \<Rightarrow> objects" where
  "replace_rjob f k a =
     a\<lparr>ob_rjobs := map (\<lambda>x. if rj_key x = k then f x else x) (ob_rjobs a),
       ob_history := ob_history a @ map f (filter (\<lambda>x. rj_key x = k) (ob_rjobs a))\<rparr>"

definition status_patched :: "RemediationJob \<Rightarrow> objects \<Rightarrow> objects \<Rightarrow> bool" where
  "status_patched n a b = (\<exists>g. b = replace_rjob (\<lambda>x. x\<lparr>rj_Status := g (rj_Status x)\<rparr>) (rj_key n) a)"

text \<open>A patch of the labels alone: the labels on which base and new object agree are kept.\<close>

definition merge_labels :: "(string \<rightharpoonup> string) \<Rightarrow> (string \<rightharpoonup> string) \<Rightarrow> (string \<rightharpoonup> string) \<Rightarrow> string \<rightharpoonup> string" where
  "merge_labels base new cur = (\<lambda>k. if base k = new k then cur k else new k)"

definition labels_patched :: "RemediationJob \<Rightarrow> RemediationJob \<Rightarrow> objects \<Rightarrow> objects \<Rightarrow> bool" where
  "labels_patched base n a b =
     (b = replace_rjob (\<lambda>x. x\<lparr>rj_Meta := (rj_Meta x)\<lparr>om_Labels := merge_labels (rj_Labels base) (rj_Labels n) (rj_Labels x)\<rparr>\<rparr>)
            (rj_key n) a)"

definition rjob_deleted :: "RemediationJob \<Rightarrow> objects \<Rightarrow> objects \<Rightarrow> bool" where
  "rjob_deleted j a b = (b = a\<lparr>ob_rjobs := filter (\<lambda>x. rj_key x \<noteq> rj_key j) (ob_rjobs a)\<rparr>)"

text \<open>A call with the effect \<open>E\<close>: others act, the effect happens or does not, others act again.\<close>

definition during :: "(objects \<Rightarrow> objects \<Rightarrow> bool) \<Rightarrow> (objects \<Rightarrow> objects \<Rightarrow> bool) \<Rightarrow> objects \<Rightarrow> objects \<Rightarrow> bool" where
  "during rely E a d = (\<exists>b c. rely a b \<and> (b = c \<or> E b c) \<and> rely c d)"

section \<open>The contract of the server\<close>

locale api_server =
  fixes K :: "'w kube" and view :: "'w \<Rightarrow> objects" and rely :: "objects \<Rightarrow> objects \<Rightarrow> bool"
  assumes now_rely: "run_state (k_now K) w = (t, w') \<Longrightarrow> rely (view w) (view w')"
    and rand_rely: "run_state (k_rand_read K len) w = (bytes, w') \<Longrightarrow> rely (view w) (view w')"
    and get_rely: "run_state (k_get_rjob K ns name) w = (got, w') \<Longrightarrow> rely (view w) (view w')"
    and get_stored: "run_state (k_get_rjob K ns name) w = (Inr j, w') \<Longrightarrow> j \<in> versions (view w')"
    and list_rely: "run_state (k_list_rjobs K ns sel) w = (listed, w') \<Longrightarrow> rely (view w) (view w')"
    and list_stored: "run_state (k_list_rjobs K ns sel) w = (Inr js, w') \<Longrightarrow> set js \<subseteq> versions (view w')"
    and create_effect: "run_state (k_create_rjob K j) w = (e, w') \<Longrightarrow> during rely (rjob_created j) (view w) (view w')"
    and status_effect: "run_state (k_patch_status K b j) w = (got, w') \<Longrightarrow> during rely (status_patched j) (view w) (view w')"
    and status_stored: "run_state (k_patch_status K b j) w = (Inr i, w') \<Longrightarrow> i \<in> versions (view w')"
    and labels_effect: "relabels b j \<Longrightarrow> run_state (k_patch_rjob K b j) w = (got, w') \<Longrightarrow>
          during rely (labels_patched b j) (view w) (view w')"
    and labels_stored: "run_state (k_patch_rjob K b j) w = (Inr i, w') \<Longrightarrow> i \<in> versions (view w')"
    and delete_effect: "run_state (k_delete_rjob K j) w = (e, w') \<Longrightarrow> during rely (rjob_deleted j) (view w) (view w')"
    and list_jobs_rely: "run_state (k_list_jobs K ns sel) w = (jobs, w') \<Longrightarrow> rely (view w) (view w')"
    and get_job_rely: "run_state (k_get_job K ns name) w = (got_job, w') \<Longrightarrow> rely (view w) (view w')"
    and create_job_effect: "run_state (k_create_job K job) w = (e, w') \<Longrightarrow> during rely (job_created job) (view w) (view w')"
    and get_configmap_rely: "run_state (k_get_configmap K ns name) w = (cm, w') \<Longrightarrow> rely (view w) (view w')"
    and delete_configmap_rely: "run_state (k_delete_configmap K ns name) w = (e, w') \<Longrightarrow> rely (view w) (view w')"
    and get_namespace_rely: "run_state (k_get_namespace K name) w = (cm, w') \<Longrightarrow> rely (view w) (view w')"
    and get_pod_claims_rely: "run_state (k_get_pod_claims K ns name) w = (claims, w') \<Longrightarrow> rely (view w) (view w')"

section \<open>The registry\<close>

text \<open>
  A \<open>RemediationJob\<close> of the agent namespace as the sources create it: its name and its labels come
  from the first twelve digits of its fingerprint. An agent job is named after the same digits as
  the object that its label names.
\<close>

definition registered :: "string \<Rightarrow> RemediationJob \<Rightarrow> bool" where
  "registered ns j =
     (let d = take 12 (sp_Fingerprint (rj_Spec j)) in
      rj_Namespace j = ns \<and> rj_Name j = ''mechanic-'' @ d
      \<and> rj_Labels j fingerprint_label = Some d \<and> selector_matches managed_by (rj_Labels j))"

definition agent_job :: "string \<Rightarrow> Job \<Rightarrow> bool" where
  "agent_job ns job =
     (om_Namespace (jb_Meta job) = ns \<and> om_Labels (jb_Meta job) ''remediation.mechanic.io/remediation-job'' \<noteq> None)"

definition registered_job :: "Job \<Rightarrow> bool" where
  "registered_job job =
     (\<exists>d. om_Name (jb_Meta job) = ''mechanic-agent-'' @ d
        \<and> om_Labels (jb_Meta job) ''remediation.mechanic.io/remediation-job'' = Some (''mechanic-'' @ d))"

definition tidy :: "string \<Rightarrow> objects \<Rightarrow> bool" where
  "tidy ns a =
     (distinct (map rj_key (ob_rjobs a)) \<and> distinct (map jb_key (ob_jobs a))
      \<and> list_all (registered ns) (ob_rjobs a) \<and> list_all (registered ns) (ob_history a)
      \<and> list_all (\<lambda>job. agent_job ns job \<longrightarrow> registered_job job) (ob_jobs a))"

subsection \<open>The effects keep the registry\<close>

lemma assigned_simps:
  "assigned (rj_Meta j) m \<Longrightarrow> registered ns \<lparr>rj_Meta = m, rj_Spec = rj_Spec j, rj_Status = st\<rparr> = registered ns j"
  "assigned (rj_Meta j) m \<Longrightarrow> rj_key \<lparr>rj_Meta = m, rj_Spec = rj_Spec j, rj_Status = st\<rparr> = rj_key j"
  "assigned (jb_Meta job) m \<Longrightarrow> agent_job ns (job\<lparr>jb_Meta := m\<rparr>) = agent_job ns job"
  "assigned (jb_Meta job) m \<Longrightarrow> registered_job (job\<lparr>jb_Meta := m\<rparr>) = registered_job job"
  "assigned (jb_Meta job) m \<Longrightarrow> jb_key (job\<lparr>jb_Meta := m\<rparr>) = jb_key job"
  by (simp_all add: assigned_def registered_def rj_key_def agent_job_def registered_job_def jb_key_def)

lemma rjob_created_tidy: "rjob_created j a b \<Longrightarrow> registered ns j \<Longrightarrow> tidy ns a \<Longrightarrow> tidy ns b"
  by (auto simp: rjob_created_def tidy_def Let_def assigned_simps)

lemma job_created_tidy:
  "job_created job a b \<Longrightarrow> (agent_job ns job \<Longrightarrow> registered_job job) \<Longrightarrow> tidy ns a \<Longrightarrow> tidy ns b"
  by (auto simp: job_created_def tidy_def assigned_simps)

lemma replace_rjob_tidy:
  assumes "\<And>x. rj_key (f x) = rj_key x" "\<And>x. registered ns x \<Longrightarrow> registered ns (f x)" "tidy ns a"
  shows "tidy ns (replace_rjob f k a)"
proof -
  have "map rj_key (map (\<lambda>x. if rj_key x = k then f x else x) xs) = map rj_key xs" for xs
    by (induction xs) (simp_all add: assms(1))
  then have "distinct (map rj_key (map (\<lambda>x. if rj_key x = k then f x else x) (ob_rjobs a)))"
    using assms(3) by (simp only: tidy_def)
  with assms(2,3) show ?thesis
    unfolding tidy_def replace_rjob_def by (auto simp: list_all_iff)
qed

lemma status_patched_tidy: "status_patched n a b \<Longrightarrow> tidy ns a \<Longrightarrow> tidy ns b"
  by (auto simp: status_patched_def rj_key_def registered_def intro!: replace_rjob_tidy)

lemma correlation_labels_distinct:
  "fingerprint_label \<notin> {CorrelationGroupIDLabel, CorrelationGroupRoleLabel}"
  "''app.kubernetes.io/managed-by'' \<notin> {CorrelationGroupIDLabel, CorrelationGroupRoleLabel}"
  by (simp_all add: fingerprint_label_def CorrelationGroupIDLabel_def CorrelationGroupRoleLabel_def)

lemma relabels_registered:
  assumes "relabels b n"
  shows "registered ns b = registered ns n"
    "registered ns (x\<lparr>rj_Meta := (rj_Meta x)\<lparr>om_Labels := merge_labels (rj_Labels b) (rj_Labels n) (rj_Labels x)\<rparr>\<rparr>) = registered ns x"
proof -
  obtain ls where n: "n = b\<lparr>rj_Meta := (rj_Meta b)\<lparr>om_Labels := ls\<rparr>\<rparr>"
      "\<And>k. k \<notin> {CorrelationGroupIDLabel, CorrelationGroupRoleLabel} \<Longrightarrow> ls k = rj_Labels b k"
    using assms unfolding relabels_def by blast
  have ls: "ls fingerprint_label = rj_Labels b fingerprint_label"
      "ls ''app.kubernetes.io/managed-by'' = rj_Labels b ''app.kubernetes.io/managed-by''"
    by (rule n(2), rule correlation_labels_distinct)+
  then show "registered ns b = registered ns n"
    by (simp add: registered_def n(1) selector_matches_def managed_by_def)
  show "registered ns (x\<lparr>rj_Meta := (rj_Meta x)\<lparr>om_Labels := merge_labels (rj_Labels b) (rj_Labels n) (rj_Labels x)\<rparr>\<rparr>) = registered ns x"
    using ls by (simp add: registered_def n(1) selector_matches_def managed_by_def merge_labels_def)
qed

lemma labels_patched_tidy: "labels_patched base n a b \<Longrightarrow> relabels base n \<Longrightarrow> tidy ns a \<Longrightarrow> tidy ns b"
  unfolding labels_patched_def by (auto simp: rj_key_def relabels_registered intro!: replace_rjob_tidy)

lemma rjob_deleted_tidy: "rjob_deleted j a b \<Longrightarrow> tidy ns a \<Longrightarrow> tidy ns b"
  by (auto simp: rjob_deleted_def tidy_def list_all_iff distinct_map_filter)

text \<open>Other writers who respect the registry.\<close>

locale tidy_server = api_server K view rely for K :: "'w kube" and view rely +
  fixes ns :: string
  assumes rely_tidy: "rely a b \<Longrightarrow> tidy ns a \<Longrightarrow> tidy ns b"
begin

lemma during_tidy:
  "during rely E a d \<Longrightarrow> tidy ns a \<Longrightarrow> (\<And>b c. E b c \<Longrightarrow> tidy ns b \<Longrightarrow> tidy ns c) \<Longrightarrow> tidy ns d"
  unfolding during_def by (metis rely_tidy)

lemma history_registered: "tidy ns a \<Longrightarrow> set js \<subseteq> versions a \<Longrightarrow> list_all (registered ns) js"
  by (auto simp: tidy_def versions_def list_all_iff)

text \<open>The three kinds of calls: reads, writes, and calls that return stored objects.\<close>

lemma read_keeps: "(\<And>w a w'. run_state c w = (a, w') \<Longrightarrow> rely (view w) (view w')) \<Longrightarrow> upholds (\<lambda>w. tidy ns (view w)) c"
  by (auto intro!: guardsI intro: rely_tidy)

lemma write_keeps:
  assumes "\<And>w a w'. run_state c w = (a, w') \<Longrightarrow> during rely E (view w) (view w')"
    and "\<And>b c. E b c \<Longrightarrow> tidy ns b \<Longrightarrow> tidy ns c"
  shows "upholds (\<lambda>w. tidy ns (view w)) c"
  by (rule guardsI) (use assms during_tidy in blast)

lemma answer_keeps:
  assumes "upholds (\<lambda>w. tidy ns (view w)) c"
    and "\<And>w x w'. run_state c w = (Inr x, w') \<Longrightarrow> set (f x) \<subseteq> versions (view w')"
  shows "guards (\<lambda>w. tidy ns (view w)) (answer_in (\<lambda>x. list_all (registered ns) (f x))) c"
proof (rule guardsI)
  fix w a w' assume "tidy ns (view w)" and run: "run_state c w = (a, w')"
  then have t: "tidy ns (view w')" using guardsD [OF assms(1)] by blast
  show "tidy ns (view w') \<and> answer_in (\<lambda>x. list_all (registered ns) (f x)) a"
    using t run history_registered [OF t] assms(2) by (cases a) auto
qed

lemma one_answer_keeps:
  assumes "upholds (\<lambda>w. tidy ns (view w)) c" "\<And>w x w'. run_state c w = (Inr x, w') \<Longrightarrow> x \<in> versions (view w')"
  shows "guards (\<lambda>w. tidy ns (view w)) (answer_in (registered ns)) c"
  using answer_keeps [of c "\<lambda>x. [x]"] assms by simp

end

sublocale tidy_server \<subseteq> guarded_kube K "\<lambda>w. tidy ns (view w)" "registered ns" "\<lambda>job. agent_job ns job \<longrightarrow> registered_job job"
proof unfold_locales
  show "guards (\<lambda>w. tidy ns (view w)) (answer_in (registered ns)) (k_get_rjob K ns' name)" for ns' name
    by (intro one_answer_keeps read_keeps get_rely get_stored)
  show "guards (\<lambda>w. tidy ns (view w)) (answer_in (list_all (registered ns))) (k_list_rjobs K ns' sel)" for ns' sel
    by (rule answer_keeps [where f = "\<lambda>x. x"], rule read_keeps) (auto intro: list_rely dest: list_stored)
  show "upholds (\<lambda>w. tidy ns (view w)) (k_create_rjob K j)" if "registered ns j" for j
    by (rule write_keeps, erule create_effect) (rule rjob_created_tidy [OF _ that])
  show "guards (\<lambda>w. tidy ns (view w)) (answer_in (registered ns)) (k_patch_status K b n)" for b n
    by (rule one_answer_keeps, rule write_keeps, erule status_effect) (auto intro: status_patched_tidy status_stored)
  show "guards (\<lambda>w. tidy ns (view w)) (answer_in (registered ns)) (k_patch_rjob K b n)" if "relabels b n" for b n
    by (rule one_answer_keeps, rule write_keeps, erule labels_effect [OF that]) (auto intro: labels_patched_tidy that labels_stored)
  show "upholds (\<lambda>w. tidy ns (view w)) (k_delete_rjob K j)" for j
    by (rule write_keeps, erule delete_effect) (rule rjob_deleted_tidy)
  show "upholds (\<lambda>w. tidy ns (view w)) (k_create_job K job)" if "agent_job ns job \<longrightarrow> registered_job job" for job
    by (rule write_keeps, erule create_job_effect) (rule job_created_tidy, use that in auto)
qed (simp add: registered_def, simp add: relabels_registered(1), (rule read_keeps, erule now_rely rand_rely list_jobs_rely get_job_rely
      get_configmap_rely delete_configmap_rely get_namespace_rely get_pod_claims_rely)+)

section \<open>A server in memory\<close>

text \<open>
  An instance: the objects, and a script of what the other writers do before each call; an
  action that the relation does not allow is skipped. Patches are merged field by field.
\<close>

type_synonym cluster = "objects \<times> (objects \<Rightarrow> objects) list"

definition others_act :: "(objects \<Rightarrow> objects \<Rightarrow> bool) \<Rightarrow> cluster \<Rightarrow> cluster" where
  "others_act R w = (case w of (a, []) \<Rightarrow> (a, []) | (a, f # fs) \<Rightarrow> (if R a (f a) then f a else a, fs))"

definition mem_call :: "(objects \<Rightarrow> objects \<Rightarrow> bool) \<Rightarrow> (objects \<Rightarrow> 'a \<times> objects) \<Rightarrow> (cluster, 'a) state" where
  "mem_call R h = State (\<lambda>w. let (a, fs) = others_act R w; (x, b) = h a in (x, (b, fs)))"

definition mem_read :: "(objects \<Rightarrow> objects \<Rightarrow> bool) \<Rightarrow> (objects \<Rightarrow> 'a) \<Rightarrow> (cluster, 'a) state" where
  "mem_read R q = mem_call R (\<lambda>a. (q a, a))"

definition pick_field :: "'a \<Rightarrow> 'a \<Rightarrow> 'a \<Rightarrow> 'a" where
  "pick_field base new cur = (if base = new then cur else new)"

definition merge_status :: "RemediationJobStatus \<Rightarrow> RemediationJobStatus \<Rightarrow> RemediationJobStatus \<Rightarrow> RemediationJobStatus" where
  "merge_status b n c = \<lparr>
     st_Phase = pick_field (st_Phase b) (st_Phase n) (st_Phase c),
     st_JobRef = pick_field (st_JobRef b) (st_JobRef n) (st_JobRef c),
     st_PRRef = pick_field (st_PRRef b) (st_PRRef n) (st_PRRef c),
     st_DispatchedAt = pick_field (st_DispatchedAt b) (st_DispatchedAt n) (st_DispatchedAt c),
     st_CompletedAt = pick_field (st_CompletedAt b) (st_CompletedAt n) (st_CompletedAt c),
     st_Message = pick_field (st_Message b) (st_Message n) (st_Message c),
     st_RetryCount = pick_field (st_RetryCount b) (st_RetryCount n) (st_RetryCount c),
     st_Conditions = pick_field (st_Conditions b) (st_Conditions n) (st_Conditions c),
     st_CorrelationGroupID = pick_field (st_CorrelationGroupID b) (st_CorrelationGroupID n) (st_CorrelationGroupID c),
     st_SinkRef = pick_field (st_SinkRef b) (st_SinkRef n) (st_SinkRef c),
     st_PRMerged = pick_field (st_PRMerged b) (st_PRMerged n) (st_PRMerged c),
     st_PRMergedAt = pick_field (st_PRMergedAt b) (st_PRMergedAt n) (st_PRMergedAt c)\<rparr>"

definition mem_patch :: "(RemediationJob \<Rightarrow> RemediationJob) \<Rightarrow> RemediationJob \<Rightarrow> objects \<Rightarrow> (api_error + RemediationJob) \<times> objects" where
  "mem_patch f n a =
     (case find (\<lambda>x. rj_key x = rj_key n) (ob_rjobs a) of
        None \<Rightarrow> (Inl (NotFound (rj_Name n)), a)
      | Some x \<Rightarrow> (Inr (f x), replace_rjob f (rj_key n) a))"

definition mem_create :: "RemediationJob \<Rightarrow> objects \<Rightarrow> api_error option \<times> objects" where
  "mem_create j a =
     (if rj_key j \<in> rj_key ` set (ob_rjobs a) then (Some (AlreadyExists (rj_Name j)), a)
      else let j' = \<lparr>rj_Meta = (rj_Meta j)\<lparr>om_UID := ''uid-'' @ show_nat (length (ob_history a)), om_CreationTimestamp := ob_clock a\<rparr>,
                     rj_Spec = rj_Spec j, rj_Status = zero_status\<rparr>
           in (None, a\<lparr>ob_rjobs := ob_rjobs a @ [j'], ob_history := ob_history a @ [j']\<rparr>))"

definition mem_create_job :: "Job \<Rightarrow> objects \<Rightarrow> api_error option \<times> objects" where
  "mem_create_job j a =
     (if jb_key j \<in> jb_key ` set (ob_jobs a) then (Some (AlreadyExists (om_Name (jb_Meta j))), a)
      else (None, a\<lparr>ob_jobs := ob_jobs a @ [j\<lparr>jb_Meta := (jb_Meta j)\<lparr>om_CreationTimestamp := ob_clock a\<rparr>\<rparr>]\<rparr>))"

definition mem_delete :: "RemediationJob \<Rightarrow> objects \<Rightarrow> api_error option \<times> objects" where
  "mem_delete j a =
     (if rj_key j \<in> rj_key ` set (ob_rjobs a)
      then (None, a\<lparr>ob_rjobs := filter (\<lambda>x. rj_key x \<noteq> rj_key j) (ob_rjobs a)\<rparr>) else (Some (NotFound (rj_Name j)), a))"

definition found :: "string \<Rightarrow> 'a option \<Rightarrow> api_error + 'a" where
  "found name x = (case x of None \<Rightarrow> Inl (NotFound name) | Some y \<Rightarrow> Inr y)"

definition memory_server :: "(objects \<Rightarrow> objects \<Rightarrow> bool) \<Rightarrow> cluster kube" where
  "memory_server R = \<lparr>
     k_now = mem_read R ob_clock,
     k_rand_read = (\<lambda>n. mem_read R (\<lambda>_. Some (replicate n 0))),
     k_get_rjob = (\<lambda>ns n. mem_read R (\<lambda>a. found n (find (\<lambda>x. rj_key x = (ns, n)) (ob_rjobs a)))),
     k_list_rjobs = (\<lambda>ns sel. mem_read R (\<lambda>a. Inr (filter (\<lambda>x. rj_Namespace x = ns \<and> selector_matches sel (rj_Labels x)) (ob_rjobs a)))),
     k_create_rjob = (\<lambda>j. mem_call R (mem_create j)),
     k_patch_status = (\<lambda>b n. mem_call R (mem_patch (\<lambda>x. x\<lparr>rj_Status := merge_status (rj_Status b) (rj_Status n) (rj_Status x)\<rparr>) n)),
     k_patch_rjob = (\<lambda>b n. mem_call R (mem_patch
       (\<lambda>x. x\<lparr>rj_Meta := (rj_Meta x)\<lparr>om_Labels := merge_labels (rj_Labels b) (rj_Labels n) (rj_Labels x)\<rparr>\<rparr>) n)),
     k_delete_rjob = (\<lambda>j. mem_call R (mem_delete j)),
     k_list_jobs = (\<lambda>ns sel. mem_read R (\<lambda>a. Inr (filter (\<lambda>x. om_Namespace (jb_Meta x) = ns \<and> selector_matches sel (om_Labels (jb_Meta x))) (ob_jobs a)))),
     k_get_job = (\<lambda>ns n. mem_read R (\<lambda>a. found n (find (\<lambda>x. jb_key x = (ns, n)) (ob_jobs a)))),
     k_create_job = (\<lambda>j. mem_call R (mem_create_job j)),
     k_get_configmap = (\<lambda>ns n. mem_read R (\<lambda>_. Inl (NotFound n))),
     k_delete_configmap = (\<lambda>ns n. mem_read R (\<lambda>_. None)),
     k_get_namespace = (\<lambda>n. mem_read R (\<lambda>_. Inr Map.empty)),
     k_get_pod_claims = (\<lambda>ns n. mem_read R (\<lambda>_. Inl (NotFound n))),
     k_SetStatusCondition = set_condition,
     k_IsStatusConditionTrue = (\<lambda>cs t. \<exists>c \<in> set cs. c_Type c = t \<and> c_Status c = ''True'')\<rparr>"

lemma others_act_rely: "R\<^sup>=\<^sup>= (fst w) (fst (others_act R w))"
  by (cases w; cases "snd w") (auto simp: others_act_def)

lemma mem_read_rely: "run_state (mem_read R q) w = (x, w') \<Longrightarrow> R\<^sup>=\<^sup>= (fst w) (fst w') \<and> x = q (fst w')"
  using others_act_rely [of R w] by (auto simp: mem_read_def mem_call_def split_def Let_def)

lemma mem_call_during:
  assumes "run_state (mem_call R h) w = (x, w')" "\<And>a x b. h a = (x, b) \<Longrightarrow> a = b \<or> E a b"
  shows "during R\<^sup>=\<^sup>= E (fst w) (fst w')"
proof -
  let ?a = "fst (others_act R w)"
  have "fst w' = snd (h ?a)" using assms(1) by (auto simp: mem_call_def split_def Let_def)
  then have "?a = fst w' \<or> E ?a (fst w')" using assms(2) [of ?a "fst (h ?a)" "fst w'"] by (cases "h ?a") simp
  then show ?thesis
    unfolding during_def using others_act_rely [of R w] by (intro exI [of _ ?a] exI [of _ "fst w'"]) simp
qed

lemma mem_patch_stored: "run_state (mem_call R (mem_patch f n)) w = (Inr x, w') \<Longrightarrow> x \<in> versions (fst w')"
  by (fastforce simp: mem_call_def mem_patch_def versions_def replace_rjob_def find_Some_iff in_set_conv_nth
      split: prod.splits option.splits)

lemma mem_create_effect: "mem_create j a = (x, b) \<Longrightarrow> a = b \<or> rjob_created j a b"
  unfolding mem_create_def rjob_created_def Let_def
  by (cases "rj_key j \<in> rj_key ` set (ob_rjobs a)")
    (auto simp: assigned_def intro!: disjI2 exI [of _ "(rj_Meta j)\<lparr>om_UID := _, om_CreationTimestamp := _\<rparr>"])

lemma mem_create_job_effect: "mem_create_job j a = (x, b) \<Longrightarrow> a = b \<or> job_created j a b"
  unfolding mem_create_job_def job_created_def
  by (cases "jb_key j \<in> jb_key ` set (ob_jobs a)")
    (auto simp: assigned_def intro!: disjI2 exI [of _ "(jb_Meta j)\<lparr>om_CreationTimestamp := _\<rparr>"])

interpretation memory: api_server "memory_server R" fst "R\<^sup>=\<^sup>=" for R
proof (unfold_locales, unfold memory_server_def kube.simps, goal_cases)
  case (4 ns name w j w')
  then show ?case by (fastforce simp: found_def versions_def find_Some_iff in_set_conv_nth dest!: mem_read_rely split: option.splits)
next
  case (6 ns sel w js w')
  then show ?case by (auto simp: versions_def dest!: mem_read_rely)
next
  case (7 j w e w')
  then show ?case
    by (rule mem_call_during) (rule mem_create_effect)
next
  case (8 b j w got w')
  then show ?case
    by (rule mem_call_during) (auto simp: mem_patch_def status_patched_def split: option.splits)
next
  case (9 b j w i w')
  then show ?case by (rule mem_patch_stored)
next
  case (10 b j w got w')
  show ?case
    by (rule mem_call_during [OF 10(2)]) (auto simp: mem_patch_def labels_patched_def split: option.splits)
next
  case (11 b j w i w')
  then show ?case by (rule mem_patch_stored)
next
  case (12 j w e w')
  then show ?case by (rule mem_call_during) (auto simp: mem_delete_def rjob_deleted_def split: if_splits)
next
  case (15 job w e w')
  then show ?case
    by (rule mem_call_during) (rule mem_create_job_effect)
qed (auto dest: mem_read_rely)

text \<open>Other writers who keep the registry tidy.\<close>

definition tidily :: "string \<Rightarrow> objects \<Rightarrow> objects \<Rightarrow> bool" where
  "tidily ns a b = (tidy ns a \<longrightarrow> tidy ns b)"

interpretation tidy_memory: tidy_server "memory_server (tidily ns)" fst "(tidily ns)\<^sup>=\<^sup>=" ns for ns
  by unfold_locales (auto simp: tidily_def)

end
