(* ===== verification/System.thy ===== *)
theory System
  imports Watcher Server
begin

text \<open>
  The watcher as a system: the controller and the six sources that \<open>main\<close> builds, over one cluster.
  A step is a whole reconcile of one of them, an action of another writer, or a restart of the
  process, which loses the caches, the breaker and the first sightings but not the cluster. Between
  any two calls of a reconcile other writers act as well, so the reconciles of the other sources and
  of the controller are among them, and a crash in the middle of a reconcile is one whose remaining
  calls fail, followed by a restart.
\<close>

section \<open>Lifting to the shared state\<close>

abbreviation on_cluster_of :: "('w \<Rightarrow> bool) \<Rightarrow> ('w, 'h) watcher \<Rightarrow> bool" where
  "on_cluster_of I \<equiv> \<lambda>s. I (wt_Cluster s)"

lemma lifts_guarded:
  "guards I A c \<Longrightarrow> guards (on_cluster_of I) A (on_cluster c)"
  "guards (on_cluster_of I) (\<lambda>_. True) (on_net n)"
  by (auto simp: guards_def wp_def on_cluster_def on_net_def split: prod.splits)

lemma on_breaker_guarded: "upholds I clk \<Longrightarrow> upholds (on_cluster_of I) (on_breaker clk)"
  by (auto simp: guards_def wp_def on_breaker_def ShouldAllowM_def split: prod.splits if_splits)

lemma caches_guarded:
  assumes "upholds I clk" "upholds I inner"
  shows "upholds (on_cluster_of I) (on_sink_cache clk inner)" "upholds (on_cluster_of I) (on_llm_cache clk inner)"
proof -
  have "upholds I (Cached_Check clk inner c)" for c
    unfolding Cached_Check_def cache_lookup_def cache_store_def by (intro guards_intros assms TrueI)
  then have c: "I w \<Longrightarrow> I (snd (run_state (Cached_Check clk inner c) w))" for c w
    by (simp add: guards_def wp_def split_def)
  show "upholds (on_cluster_of I) (on_sink_cache clk inner)" "upholds (on_cluster_of I) (on_llm_cache clk inner)"
    by (simp_all add: guards_def wp_def split_def on_sink_cache_def on_llm_cache_def c)
qed

text \<open>A call on the shared state is the call on the cluster in it, so the contracts of a server are lifted.\<close>

lemma on_clusterD: "run_state (on_cluster c) s = (a, s') \<Longrightarrow> run_state c (wt_Cluster s) = (a, wt_Cluster s')"
  by (auto simp: on_cluster_def split: prod.splits)

lemmas api_server_laws =
  api_server.now_rely api_server.rand_rely api_server.get_rely api_server.get_stored api_server.list_rely api_server.list_stored
  api_server.create_effect api_server.status_effect api_server.status_stored api_server.labels_effect api_server.labels_stored
  api_server.delete_effect api_server.list_jobs_rely api_server.get_job_rely api_server.create_job_effect
  api_server.get_configmap_rely api_server.delete_configmap_rely api_server.get_namespace_rely api_server.get_pod_claims_rely

lemma lift_api_server:
  assumes "api_server K view rely"
  shows "api_server (lift_kube K) (\<lambda>s. view (wt_Cluster s)) rely"
  by (unfold_locales, unfold lift_kube_def kube.simps)
    (drule on_clusterD, erule api_server_laws [OF assms], (assumption+)?)+

lemma lift_tidy_server:
  "tidy_server K view rely ns \<Longrightarrow> tidy_server (lift_kube K) (\<lambda>s. view (wt_Cluster s)) rely ns"
  by (simp add: tidy_server_def lift_api_server)

section \<open>The watcher keeps the registry\<close>

text \<open>The other reads of the platform: they write neither \<open>RemediationJob\<close> objects nor jobs.\<close>

definition platform_upholds :: "('w \<Rightarrow> bool) \<Rightarrow> ('w, 'h) platform \<Rightarrow> bool" where
  "platform_upholds I P =
     ((\<forall>ns name. upholds I (pf_APIReader P ns name)) \<and> (\<forall>kind ns name. upholds I (pf_GetOwners P kind ns name))
      \<and> (\<forall>ns. upholds I (pf_ListEvents P ns)) \<and> (\<forall>kind name ns. upholds I (pf_GetObject P kind name ns))
      \<and> (\<forall>ns name. upholds I (pf_GetSecret P ns name)) \<and> upholds I (pf_CtxErr P))"

definition platform_relies :: "('w \<Rightarrow> objects) \<Rightarrow> (objects \<Rightarrow> objects \<Rightarrow> bool) \<Rightarrow> ('w, 'h) platform \<Rightarrow> bool" where
  "platform_relies view rely P =
     ((\<forall>ns name w a w'. run_state (pf_APIReader P ns name) w = (a, w') \<longrightarrow> rely (view w) (view w'))
      \<and> (\<forall>kind ns name w a w'. run_state (pf_GetOwners P kind ns name) w = (a, w') \<longrightarrow> rely (view w) (view w'))
      \<and> (\<forall>ns w a w'. run_state (pf_ListEvents P ns) w = (a, w') \<longrightarrow> rely (view w) (view w'))
      \<and> (\<forall>kind name ns w a w'. run_state (pf_GetObject P kind name ns) w = (a, w') \<longrightarrow> rely (view w) (view w'))
      \<and> (\<forall>ns name w a w'. run_state (pf_GetSecret P ns name) w = (a, w') \<longrightarrow> rely (view w) (view w'))
      \<and> (\<forall>w a w'. run_state (pf_CtxErr P) w = (a, w') \<longrightarrow> rely (view w) (view w')))"

lemma quiet_upholds:
  "\<forall>w a w'. run_state c w = (a, w') \<longrightarrow> rely (view w) (view w') \<Longrightarrow> (\<And>a b. rely a b \<Longrightarrow> I a \<Longrightarrow> I b) \<Longrightarrow> upholds (\<lambda>w. I (view w)) c"
  by (rule guardsI) blast

lemma platform_upholdsI:
  assumes "platform_relies view rely P" "\<And>a b. rely a b \<Longrightarrow> I a \<Longrightarrow> I b"
  shows "platform_upholds (\<lambda>w. I (view w)) P"
  unfolding platform_upholds_def
  by (intro conjI allI quiet_upholds [of _ rely view I, OF _ assms(2)]) (use assms(1) in \<open>simp_all add: platform_relies_def\<close>)

lemma walk_guarded:
  "(\<And>kind ns name. upholds J (nv_GetOwners c kind ns name)) \<Longrightarrow> upholds J (walk c n visited kind name ns refs)"
  by (induction c n visited kind name ns refs rule: walk.induct) (auto intro!: guards_intros split: list.split)

lemma providers_guarded:
  assumes "upholds J (k_now (nv_Kube c))" "\<And>ns name. upholds J (k_get_rjob (nv_Kube c) ns name)"
    and "\<And>kind ns name. upholds J (nv_GetOwners c kind ns name)" "\<And>ns. upholds J (nv_ListEvents c ns)"
    and "enabledProviders (Some c) = Inr ps" "p \<in> set ps"
  shows "upholds J (pv_ExtractFinding p obj)"
proof -
  have parent: "upholds J (getParent c meta kind)" for meta kind
    unfolding getParent_def by (intro guards_intros walk_guarded assms TrueI)
  have g: "upholds J (guarded c obj cast err k)" if "\<And>x. upholds J (k x)" for cast err k
    unfolding guarded_def using that assms(1) by (intro guards_intros TrueI)
  have "upholds J (pod_ExtractFinding c obj)" "upholds J (deployment_ExtractFinding c obj)" "upholds J (node_ExtractFinding c obj)"
      "upholds J (statefulset_ExtractFinding c obj)"
    unfolding pod_ExtractFinding_def deployment_ExtractFinding_def node_ExtractFinding_def statefulset_ExtractFinding_def Let_def
    by (intro g guards_intros parent TrueI)+
  moreover have "upholds J (pvc_ExtractFinding c obj)" "upholds J (job_ExtractFinding c obj)"
    unfolding pvc_ExtractFinding_def job_ExtractFinding_def latestProvisioningFailedMessage_def getChainDepthFromOwner_def Let_def
    by (intro g guards_intros parent assms TrueI)+
  ultimately show ?thesis using assms(5,6) by (auto simp: enabledProviders_Some)
qed

section \<open>The system\<close>

record ('w, 'h) system =
  sy_Watcher :: "('w, 'h) watcher"
  sy_Sightings :: "nat \<Rightarrow> BoundedMap \<times> bool"  \<comment> \<open>\<open>firstSeen\<close> and \<open>initOnce\<close> of each source\<close>

abbreviation sy_Cluster :: "('w, 'h) system \<Rightarrow> 'w" where
  "sy_Cluster y \<equiv> wt_Cluster (sy_Watcher y)"

inductive system_step :: "('w \<Rightarrow> objects) \<Rightarrow> (objects \<Rightarrow> objects \<Rightarrow> bool) \<Rightarrow> Config \<Rightarrow> ('w, 'h) watcher reconciler \<Rightarrow>
    (('w, 'h) watcher, kobject) source_reconciler list \<Rightarrow> ('w, 'h) system \<Rightarrow> ('w, 'h) system \<Rightarrow> bool"
  for view rely cfg ctl srcs where
  controller: "run_state (Reconcile ctl ns name) \<lparr>world = sy_Watcher y, trace = []\<rparr> = (res, s) \<Longrightarrow>
     system_step view rely cfg ctl srcs y (y\<lparr>sy_Watcher := world s\<rparr>)"
| source: "i < length srcs \<Longrightarrow>
     run_state (Reconcile_source (srcs ! i) name ns)
       \<lparr>world = sy_Watcher y, trace = [], firstSeen = fst (sy_Sightings y i), initOnce = snd (sy_Sightings y i)\<rparr> = (res, s) \<Longrightarrow>
     system_step view rely cfg ctl srcs y
       (y\<lparr>sy_Watcher := world s, sy_Sightings := (sy_Sightings y)(i := (firstSeen s, initOnce s))\<rparr>)"
| others: "rely (view (sy_Cluster y)) (view w) \<Longrightarrow>
     system_step view rely cfg ctl srcs y (y\<lparr>sy_Watcher := (sy_Watcher y)\<lparr>wt_Cluster := w\<rparr>\<rparr>)"
| restart: "system_step view rely cfg ctl srcs y
     \<lparr>sy_Watcher = initial cfg (sy_Cluster y) h, sy_Sightings = (\<lambda>_. (m, False))\<rparr>"

text \<open>A watcher that has started, and an invariant of the cluster that its calls keep.\<close>

locale upholding_watcher =
  fixes P :: "('w, 'h) platform" and cfg ctl srcs and I :: "'w \<Rightarrow> bool" and okr okj
  assumes started: "main_setup P = Inr (cfg, ctl, srcs)"
    and clock_kept: "upholds I (k_now (pf_Kube P))"
    and platform_kept: "platform_upholds I P"
    and shared_guarded: "guarded_kube (lift_kube (pf_Kube P)) (on_cluster_of I :: ('w, 'h) watcher \<Rightarrow> bool) okr okj"
    and new_accepted: "pr_Cfg (r :: (('w, 'h) watcher, kobject) source_reconciler) = cfg \<Longrightarrow> okr (new_rjob r name ns f fp)"

sublocale upholding_watcher \<subseteq> shared: guarded_kube "lift_kube (pf_Kube P) :: ('w, 'h) watcher kube" "on_cluster_of I" okr okj
  by (rule shared_guarded)

context upholding_watcher
begin

lemma source_guarded:
  assumes "r \<in> set srcs"
  shows "guarded_source (lift_kube (pf_Kube P)) (on_cluster_of I) okr okj r"
proof -
  obtain redactor tp providers where "srcs = map (source_reconciler_of P cfg tp) providers" "enabledProviders (Some (native_client P redactor)) = Inr providers"
    by (rule main_setup_parts [OF started])
  with assms obtain p where r: "r = source_reconciler_of P cfg tp p" "enabledProviders (Some (native_client P redactor)) = Inr providers" "p \<in> set providers"
    by auto
  have cfg: "pr_Cfg r = cfg" by (simp add: r(1) source_reconciler_of_def)
  have p: "upholds (on_cluster_of I) (pv_ExtractFinding p obj)" for obj
    by (rule providers_guarded [OF _ _ _ _ r(2,3)])
      (use platform_kept in \<open>auto simp: native_client_def lift_native_def platform_upholds_def intro: shared.reads_guarded lifts_guarded(1)\<close>)
  have checks: "upholds I (GitHubApp_Check (pf_GetSecret P) n)" "upholds I (OpenAI_Check (pf_GetSecret P) n t)" for n t
    unfolding GitHubApp_Check_def OpenAI_Check_def
    using platform_kept by (auto simp: platform_upholds_def intro!: guards_intros)
  have "upholds (on_cluster_of I) (ck_Check (combinedChecker (k_now (pf_Kube P)) (pf_GetSecret P) (on_cluster (pf_CtxErr P)) cfg))"
    using platform_kept
    by (auto simp: checker_defs Let_def All_Check_def platform_upholds_def
        intro!: guards_intros caches_guarded clock_kept checks lifts_guarded(1))
  then show ?thesis
    using p platform_kept new_accepted [OF cfg]
    by unfold_locales
      (auto simp: r(1) source_reconciler_of_def circuit_breaker_def sink_closer_def merge_checker_def NoopSinkCloser_Close_def
        NoopPRMergeChecker_IsMerged_def platform_upholds_def split: if_splits option.splits
        intro: lifts_guarded on_breaker_guarded clock_kept guards_return)
qed

text \<open>If the controller keeps the invariant, every step of the system does.\<close>

lemma step_upholds:
  assumes "system_step view rely cfg ctl srcs y y'" "I (sy_Cluster y)"
    and ctl: "\<And>ns name. upholds (on_world (on_cluster_of I)) (Reconcile ctl ns name)"
    and others: "\<And>w w'. rely (view w) (view w') \<Longrightarrow> I w \<Longrightarrow> I w'"
  shows "I (sy_Cluster y')"
  using assms(1)
proof cases
  case (controller ns name res s)
  then show ?thesis using guardsD [OF ctl _ controller(2)] assms(2) by simp
next
  case (source i name ns res s)
  then have "srcs ! i \<in> set srcs" by simp
  from guardsD [OF guarded_source.Reconcile_source_guarded [OF source_guarded [OF this]] _ source(3)] assms(2) source(1)
  show ?thesis by simp
next
  case (others w)
  then show ?thesis using assms(4) [OF others(2)] assms(2) by simp
next
  case (restart h m)
  then show ?thesis using assms(2) by (simp add: initial_def)
qed

lemma run_upholds:
  assumes "(system_step view rely cfg ctl srcs)\<^sup>*\<^sup>* y y'" "I (sy_Cluster y)"
    and "\<And>ns name. upholds (on_world (on_cluster_of I)) (Reconcile ctl ns name)"
    and "\<And>w w'. rely (view w) (view w') \<Longrightarrow> I w \<Longrightarrow> I w'"
  shows "I (sy_Cluster y')"
  using assms(1) by (induction rule: rtranclp_induct) (use assms(2-4) step_upholds in blast)+

end

text \<open>A watcher on a server whose other writers respect the registry.\<close>

locale running_watcher =
  fixes P :: "('w, 'h) platform" and view rely cfg ctl srcs
  assumes started: "main_setup P = Inr (cfg, ctl, srcs)"
    and server: "tidy_server (pf_Kube P) view rely (cfg_AgentNamespace cfg)"
    and platform: "platform_relies view rely P"

sublocale running_watcher \<subseteq> srv: tidy_server "pf_Kube P" view rely "cfg_AgentNamespace cfg"
  by (rule server)

sublocale running_watcher \<subseteq> lifted: tidy_server "lift_kube (pf_Kube P) :: ('w, 'h) watcher kube"
    "\<lambda>s. view (wt_Cluster s)" rely "cfg_AgentNamespace cfg"
  by (rule lift_tidy_server) (rule server)

lemma built_registered:
  "registered ns j \<Longrightarrow> Build quantity b (Some j) fs = Inr job \<Longrightarrow> registered_job job"
  by (auto simp: build_Inr registered_job_def registered_def job_meta_def Let_def)

lemma new_rjob_registered: "cfg_AgentNamespace (pr_Cfg r) = agentNS \<Longrightarrow> registered agentNS (new_rjob r name ns f fp)"
  by (auto simp: registered_def new_rjob_def Let_def selector_matches_def managed_by_def fingerprint_label_def)

sublocale running_watcher \<subseteq> registry: upholding_watcher P cfg ctl srcs "\<lambda>w. tidy (cfg_AgentNamespace cfg) (view w)"
    "registered (cfg_AgentNamespace cfg)" "\<lambda>job. agent_job (cfg_AgentNamespace cfg) job \<longrightarrow> registered_job job"
proof (rule upholding_watcher.intro)
  show "main_setup P = Inr (cfg, ctl, srcs)" by (rule started)
  show "upholds (\<lambda>w. tidy (cfg_AgentNamespace cfg) (view w)) (k_now (pf_Kube P))" by (rule srv.now_guarded)
  show "platform_upholds (\<lambda>w. tidy (cfg_AgentNamespace cfg) (view w)) P" by (rule platform_upholdsI [OF platform srv.rely_tidy])
  show "guarded_kube (lift_kube (pf_Kube P) :: ('w, 'h) watcher kube) (\<lambda>s. tidy (cfg_AgentNamespace cfg) (view (wt_Cluster s)))
      (registered (cfg_AgentNamespace cfg)) (\<lambda>job. agent_job (cfg_AgentNamespace cfg) job \<longrightarrow> registered_job job)"
    by (rule lifted.guarded_kube_axioms)
qed (simp add: new_rjob_registered)

lemma started_correlator:
  assumes "main_setup P = Inr (cfg, ctl, srcs)"
  shows "buildCorrelator (lift_kube (pf_Kube P)) (cfg_DisableCorrelation cfg) (cfg_MultiPodThreshold cfg) = Inr (rc_Correlator ctl)"
proof -
  obtain jb corr where "buildCorrelator (lift_kube (pf_Kube P)) (cfg_DisableCorrelation cfg) (cfg_MultiPodThreshold cfg) = Inr corr"
      "ctl = controller_of P cfg jb corr"
    using assms unfolding main_setup_def andthen_Inr by blast
  then show ?thesis by (auto simp: controller_of_def)
qed

sublocale running_watcher \<subseteq> controller: guarded_controller "lift_kube (pf_Kube P)"
    "\<lambda>s. tidy (cfg_AgentNamespace cfg) (view (wt_Cluster s))"
    "registered (cfg_AgentNamespace cfg)" "\<lambda>job. agent_job (cfg_AgentNamespace cfg) job \<longrightarrow> registered_job job" ctl
proof -
  obtain redactor corr tp where ctl: "ctl = controller_of P cfg (builder_config cfg) corr"
    by (rule main_setup_parts [OF started])
  then have corr: "rc_Correlator ctl = corr" by (simp add: controller_of_def)
  show "guarded_controller (lift_kube (pf_Kube P)) (\<lambda>s. tidy (cfg_AgentNamespace cfg) (view (wt_Cluster s)))
      (registered (cfg_AgentNamespace cfg)) (\<lambda>job. agent_job (cfg_AgentNamespace cfg) job \<longrightarrow> registered_job job) ctl"
    using registry.platform_kept started_correlator [OF started] corr
    by unfold_locales
      (auto simp: ctl controller_of_def platform_upholds_def intro: built_registered lifts_guarded(1) lifted.rules_guarded)
qed

context running_watcher
begin

lemma run_tidy:
  "(system_step view rely cfg ctl srcs)\<^sup>*\<^sup>* y y' \<Longrightarrow> tidy (cfg_AgentNamespace cfg) (view (sy_Cluster y)) \<Longrightarrow>
     tidy (cfg_AgentNamespace cfg) (view (sy_Cluster y'))"
  by (erule registry.run_upholds) (auto intro: controller.Reconcile_guarded srv.rely_tidy)

end

section \<open>What a tidy cluster is like\<close>

lemma distinct_key_unique: "distinct (map f xs) \<Longrightarrow> x \<in> set xs \<Longrightarrow> y \<in> set xs \<Longrightarrow> f x = f y \<Longrightarrow> x = y"
  by (simp add: distinct_map inj_on_def)

lemma distinct_key_filter:
  assumes "distinct (map f xs)" "\<And>x y. x \<in> set xs \<Longrightarrow> y \<in> set xs \<Longrightarrow> Q x \<Longrightarrow> Q y \<Longrightarrow> f x = f y"
  shows "length (filter Q xs) \<le> 1"
proof -
  have "x = y" if "x \<in> set (filter Q xs)" "y \<in> set (filter Q xs)" for x y
    using that assms distinct_key_unique [OF assms(1)] by auto
  moreover have "distinct (filter Q xs)" using assms(1) by (simp add: distinct_map)
  ultimately show ?thesis
    using card_le_Suc0_iff_eq [of "set (filter Q xs)"] distinct_card [of "filter Q xs"] by simp
qed

definition owned_jobs :: "string \<Rightarrow> objects \<Rightarrow> RemediationJob \<Rightarrow> Job list" where
  "owned_jobs ns a i =
     filter (\<lambda>job. om_Namespace (jb_Meta job) = ns \<and> selector_matches (owned_selector i) (om_Labels (jb_Meta job))) (ob_jobs a)"

lemma tidy_unique:
  "tidy ns a \<Longrightarrow> i \<in> set (ob_rjobs a) \<Longrightarrow> j \<in> set (ob_rjobs a) \<Longrightarrow>
     take 12 (sp_Fingerprint (rj_Spec i)) = take 12 (sp_Fingerprint (rj_Spec j)) \<Longrightarrow> i = j"
  by (rule distinct_key_unique [where f = rj_key]) (auto simp: tidy_def list_all_iff registered_def rj_key_def Let_def)

lemma tidy_owned:
  assumes "tidy ns a"
  shows "length (owned_jobs ns a i) \<le> 1"
  unfolding owned_jobs_def
proof (rule distinct_key_filter [where f = jb_key])
  show "distinct (map jb_key (ob_jobs a))" using assms by (simp add: tidy_def)
  show "jb_key x = jb_key y" if "x \<in> set (ob_jobs a)" "y \<in> set (ob_jobs a)"
      "om_Namespace (jb_Meta x) = ns \<and> selector_matches (owned_selector i) (om_Labels (jb_Meta x))"
      "om_Namespace (jb_Meta y) = ns \<and> selector_matches (owned_selector i) (om_Labels (jb_Meta y))" for x y
  proof -
    have "registered_job x" "registered_job y"
      using assms that by (auto simp: tidy_def list_all_iff agent_job_def selector_matches_def owned_selector_def)
    with that show ?thesis
      by (auto simp: registered_job_def jb_key_def selector_matches_def owned_selector_def)
  qed
qed

section \<open>A watcher on the server in memory\<close>

definition memory_platform :: "(objects \<Rightarrow> objects \<Rightarrow> bool) \<Rightarrow> env \<Rightarrow> (cluster, unit) platform" where
  "memory_platform R env = \<lparr>pf_Env = env, pf_Kube = memory_server R,
     pf_APIReader = k_get_configmap (memory_server R), pf_GetOwners = (\<lambda>kind ns name. ret (Inl (NotFound name))),
     pf_ListEvents = (\<lambda>ns. ret (Inr [])), pf_Sort = (\<lambda>es. es),
     pf_GetObject = (\<lambda>kind name ns. ret (Inr (KPod (web_pod ''1'')))), pf_GetSecret = (\<lambda>ns name. ret (Inl (NotFound name))),
     pf_CtxErr = ret None, pf_GitHub = pf_GitHub sample_platform, pf_KeyErr = None, pf_Compile = pf_Compile sample_platform,
     pf_Quantity = pf_Quantity sample_platform, pf_ZapLevel = pf_ZapLevel sample_platform, pf_Range = (\<lambda>xs. xs)\<rparr>"

lemma memory_platform_relies: "platform_relies fst R\<^sup>=\<^sup>= (memory_platform R env)"
  using memory.get_configmap_rely [of R] by (simp add: platform_relies_def memory_platform_def)

definition registry_platform :: "(cluster, unit) platform" where
  "registry_platform = memory_platform (tidily ''mechanic'') (pf_Env sample_platform)"

definition memory_controller :: "(cluster, unit) watcher reconciler" where
  "memory_controller = fst (snd (projr (main_setup registry_platform)))"

definition memory_sources :: "((cluster, unit) watcher, kobject) source_reconciler list" where
  "memory_sources = snd (snd (projr (main_setup registry_platform)))"

lemma memory_namespace: "cfg_AgentNamespace sample_settings = ''mechanic''"
  by (simp add: sample_settings_def default_config_def)

lemma memory_started:
  "main_setup registry_platform = Inr (sample_settings, memory_controller, memory_sources)" "length memory_sources = 6"
proof -
  have "\<exists>ctl srcs. main_setup registry_platform = Inr (sample_settings, ctl, srcs) \<and> length srcs = 6"
    using sample_platform_env
    by (auto simp: main_setup_def buildCorrelator_def registry_platform_def memory_platform_def sample_settings_def default_config_def
        zero_config_def sample_platform_def NewRedactor_def NewBuilder_def builder_config_def wrap32_def enabledProviders_Some)
  then show "main_setup registry_platform = Inr (sample_settings, memory_controller, memory_sources)" "length memory_sources = 6"
    by (auto simp: memory_controller_def memory_sources_def)
qed

interpretation memory_watcher: running_watcher registry_platform fst "(tidily ''mechanic'')\<^sup>=\<^sup>=" sample_settings
    memory_controller memory_sources
proof (rule running_watcher.intro)
  show "main_setup registry_platform = Inr (sample_settings, memory_controller, memory_sources)" by (rule memory_started)
  show "tidy_server (pf_Kube registry_platform) fst (tidily ''mechanic'')\<^sup>=\<^sup>= (cfg_AgentNamespace sample_settings)"
    using tidy_memory.tidy_server_axioms [of "''mechanic''"]
    by (simp add: registry_platform_def memory_platform_def memory_namespace)
  show "platform_relies fst (tidily ''mechanic'')\<^sup>=\<^sup>= registry_platform"
    unfolding registry_platform_def by (rule memory_platform_relies)
qed

interpretation memory_pods: guarded_source "lift_kube (pf_Kube registry_platform)"
    "\<lambda>s. tidy (cfg_AgentNamespace sample_settings) (fst (wt_Cluster s))" "registered (cfg_AgentNamespace sample_settings)"
    "\<lambda>job. agent_job (cfg_AgentNamespace sample_settings) job \<longrightarrow> registered_job job" "memory_sources ! 0"
  by (rule memory_watcher.registry.source_guarded) (simp add: memory_started(2))

text \<open>A cluster with one pending \<open>RemediationJob\<close>, and its agent job.\<close>

definition memory_rjob :: RemediationJob where
  "memory_rjob = \<lparr>rj_Meta = zero_meta\<lparr>om_Name := ''mechanic-0123456789ab'', om_Namespace := ''mechanic'',
       om_Labels := [fingerprint_label \<mapsto> ''0123456789ab'', ''app.kubernetes.io/managed-by'' \<mapsto> ''mechanic-watcher'']\<rparr>,
     rj_Spec = zero_spec\<lparr>sp_Fingerprint := ''0123456789abcdef''\<rparr>, rj_Status = zero_status\<lparr>st_Phase := PhasePending\<rparr>\<rparr>"

definition memory_job :: Job where
  "memory_job = projr (Build (\<lambda>_. True) sample_builder (Some memory_rjob) [])"

definition one_rjob :: objects where
  "one_rjob = \<lparr>ob_rjobs = [memory_rjob], ob_jobs = [], ob_history = [], ob_clock = 0\<rparr>"

lemma memory_job_meta: "jb_Meta memory_job = job_meta sample_builder memory_rjob"
  by (simp add: memory_job_def Build_def memory_rjob_def quantities_ok_def sample_builder_def)

lemma one_rjob_tidy: "tidy ''mechanic'' one_rjob" "tidy ''mechanic'' (one_rjob\<lparr>ob_jobs := [memory_job]\<rparr>)"
  by (simp_all add: tidy_def one_rjob_def registered_def memory_rjob_def selector_matches_def managed_by_def fingerprint_label_def
      registered_job_def memory_job_meta job_meta_def sample_builder_def zero_meta_def)

section \<open>Properties\<close>

text \<open>
  C1. One investigation per finding, whatever is interleaved: in every state that the running watcher
  reaches, through any sequence of reconciles of the controller and the six sources, of actions of
  other writers before and after each single call, of lost answers, stale reads and restarts, two
  stored \<open>RemediationJob\<close> objects never agree in the digits of their fingerprint that name them; every
  stored object is found by the selector of the duplicate check and by that of the controller; and
  at most one agent job carries its label, so that the controller, which reads the first job of that
  list only, reads the only one. Assumed of the server: names are unique, and other writers do not add
  objects under foreign names.
\<close>

theorem one_investigation_per_finding:
  assumes "main_setup P = Inr (cfg, ctl, srcs)"
    and "tidy_server (pf_Kube P) view rely (cfg_AgentNamespace cfg)"
    and "platform_relies view rely P"
    and "tidy (cfg_AgentNamespace cfg) (view (sy_Cluster y\<^sub>0))"
    and "(system_step view rely cfg ctl srcs)\<^sup>*\<^sup>* y\<^sub>0 y"
    and "i \<in> set (ob_rjobs (view (sy_Cluster y)))"
  shows "(\<forall>j \<in> set (ob_rjobs (view (sy_Cluster y))).
            take 12 (sp_Fingerprint (rj_Spec i)) = take 12 (sp_Fingerprint (rj_Spec j)) \<longrightarrow> i = j)
    \<and> rj_Namespace i = cfg_AgentNamespace cfg
    \<and> selector_matches [(fingerprint_label, take 12 (sp_Fingerprint (rj_Spec i)))] (rj_Labels i)
    \<and> selector_matches managed_by (rj_Labels i)
    \<and> length (owned_jobs (cfg_AgentNamespace cfg) (view (sy_Cluster y)) i) \<le> 1"
proof -
  have "running_watcher P view rely cfg ctl srcs" using assms(1-3) by (rule running_watcher.intro)
  from running_watcher.run_tidy [OF this assms(5,4)]
  have t: "tidy (cfg_AgentNamespace cfg) (view (sy_Cluster y))" .
  then have "registered (cfg_AgentNamespace cfg) i" using assms(6) by (simp add: tidy_def list_all_iff)
  then show ?thesis
    using tidy_unique [OF t assms(6)] tidy_owned [OF t] by (simp add: registered_def selector_matches_def Let_def)
qed

theorem one_investigation_per_finding_witness:
  "length (owned_jobs ''mechanic'' (one_rjob\<lparr>ob_jobs := [memory_job]\<rparr>) memory_rjob) \<le> 1
     \<and> selector_matches managed_by (rj_Labels memory_rjob)"
proof -
  let ?y = "\<lparr>sy_Watcher = initial sample_settings (one_rjob, []) (), sy_Sightings = (\<lambda>_. (firstSeen fresh_state, False))\<rparr>"
  let ?a = "one_rjob\<lparr>ob_jobs := [memory_job]\<rparr>"
  have "(tidily ''mechanic'')\<^sup>=\<^sup>= (fst (sy_Cluster ?y)) (fst (?a, [] :: (objects \<Rightarrow> objects) list))"
    by (simp add: tidily_def initial_def one_rjob_tidy)
  then have "(system_step fst (tidily ''mechanic'')\<^sup>=\<^sup>= sample_settings memory_controller memory_sources)\<^sup>*\<^sup>* ?y
      (?y\<lparr>sy_Watcher := (sy_Watcher ?y)\<lparr>wt_Cluster := (?a, [])\<rparr>\<rparr>)"
    by (intro r_into_rtranclp system_step.others)
  from one_investigation_per_finding [OF memory_started(1) memory_watcher.server memory_watcher.platform _ this, of memory_rjob]
  show ?thesis
    by (simp add: initial_def one_rjob_tidy memory_namespace) (simp add: one_rjob_def)
qed

end
