(* ===== verification/Concurrency.thy ===== *)
theory Concurrency
  imports System
begin

text \<open>
  The limit on concurrent agent jobs. The gate counts a list of jobs that may come from a cache, so
  the limit is proved up to the number \<open>lag\<close> of active jobs that a listing may miss: with fresh reads,
  \<open>lag = 0\<close>, it is exact. Assumed of the other writers is that they create no agent jobs and that a
  job that the gate regards as inactive (finished, or idle for longer than the staleness timeout)
  does not become active again. The bound is for a watcher without correlation: the primary of a
  correlation group is dispatched without asking the gate (theory \<open>Anomalies\<close>).
\<close>

section \<open>Active jobs\<close>

definition active_at :: "time \<Rightarrow> Job \<Rightarrow> bool" where
  "active_at t j =
     (\<not> 0 < jb_Succeeded j \<and> \<not> backoff_exhausted j
      \<and> \<not> (jb_Active j = 0 \<and> jb_Failed j = 0 \<and> jobStalenessTimeout < time_sub t (om_CreationTimestamp (jb_Meta j))))"

definition active_keys :: "time \<Rightarrow> Job list \<Rightarrow> (string \<times> string) set" where
  "active_keys t js = jb_key ` set (filter (active_at t) js)"

definition busy_keys :: "string \<Rightarrow> time \<Rightarrow> objects \<Rightarrow> (string \<times> string) set" where
  "busy_keys ns t a =
     active_keys t (filter (\<lambda>j. om_Namespace (jb_Meta j) = ns \<and> selector_matches managed_by (om_Labels (jb_Meta j))) (ob_jobs a))"

text \<open>The number of agent jobs that are active now.\<close>

definition busy :: "string \<Rightarrow> objects \<Rightarrow> nat" where
  "busy ns a = card (busy_keys ns (ob_clock a) a)"

text \<open>Others let time pass and jobs end, but neither add active jobs nor revive inactive ones.\<close>

definition calm :: "string \<Rightarrow> objects \<Rightarrow> objects \<Rightarrow> bool" where
  "calm ns a b = (ob_clock a \<le> ob_clock b \<and> (\<forall>t \<ge> ob_clock b. busy_keys ns t b \<subseteq> busy_keys ns t a))"

lemma active_at_antimono: "t \<le> u \<Longrightarrow> active_at u j \<Longrightarrow> active_at t j"
  by (auto simp: active_at_def time_sub_def max_def min_def jobStalenessTimeout_def split: if_splits)

lemma active_keys_antimono: "t \<le> u \<Longrightarrow> active_keys u js \<subseteq> active_keys t js"
  by (auto simp: active_keys_def intro: active_at_antimono)

lemma busy_finite [simp]: "finite (busy_keys ns t a)" "finite (active_keys t js)"
  by (simp_all add: busy_keys_def active_keys_def)

lemma calm_refl [simp]: "calm ns a a"
  by (simp add: calm_def)

lemma calm_trans: "calm ns a b \<Longrightarrow> calm ns b c \<Longrightarrow> calm ns a c"
  unfolding calm_def by (metis order_trans)

lemma calm_busy:
  assumes "calm ns a b"
  shows "busy ns b \<le> busy ns a"
proof -
  have "busy_keys ns (ob_clock b) b \<subseteq> busy_keys ns (ob_clock b) a" using assms by (simp add: calm_def)
  also have "\<dots> \<subseteq> busy_keys ns (ob_clock a) a"
    using assms active_keys_antimono [of "ob_clock a" "ob_clock b"] by (simp add: calm_def busy_keys_def)
  finally show ?thesis unfolding busy_def by (intro card_mono) simp_all
qed

lemma calm_jobs: "ob_jobs b = ob_jobs a \<Longrightarrow> ob_clock b = ob_clock a \<Longrightarrow> calm ns a b"
  by (simp add: calm_def busy_keys_def)

lemma effects_calm:
  "rjob_created j a b \<Longrightarrow> calm ns a b" "status_patched j a b \<Longrightarrow> calm ns a b" "labels_patched i j a b \<Longrightarrow> calm ns a b"
  "rjob_deleted j a b \<Longrightarrow> calm ns a b"
  by (auto simp: rjob_created_def status_patched_def labels_patched_def rjob_deleted_def replace_rjob_def Let_def intro!: calm_jobs)

lemma job_created_busy:
  assumes "job_created j a b"
  shows "busy ns b \<le> busy ns a + 1"
proof -
  from assms obtain m where b: "b = a\<lparr>ob_jobs := ob_jobs a @ [j\<lparr>jb_Meta := m\<rparr>]\<rparr>" by (auto simp: job_created_def)
  have "busy_keys ns (ob_clock b) b \<subseteq> insert (jb_key (j\<lparr>jb_Meta := m\<rparr>)) (busy_keys ns (ob_clock a) a)"
    by (auto simp: b busy_keys_def active_keys_def)
  then have "busy ns b \<le> card (insert (jb_key (j\<lparr>jb_Meta := m\<rparr>)) (busy_keys ns (ob_clock a) a))"
    unfolding busy_def by (intro card_mono) simp_all
  also have "\<dots> \<le> busy ns a + 1" by (simp add: busy_def card_insert_if)
  finally show ?thesis .
qed

section \<open>A server whose listings miss at most a few active jobs\<close>

locale counting_server = api_server K view rely for K :: "'w kube" and view rely +
  fixes ns :: string and lag :: nat
  assumes rely_calm: "rely a b \<Longrightarrow> calm ns a b"
    and now_clock: "run_state (k_now K) w = (t, w') \<Longrightarrow> t \<le> ob_clock (view w')"
    and list_recent: "run_state (k_list_jobs K ns managed_by) w = (Inr js, w') \<Longrightarrow>
      \<exists>M. finite M \<and> card M \<le> lag \<and> (\<forall>t \<ge> ob_clock (view w'). busy_keys ns t (view w') \<subseteq> active_keys t js \<union> M)"
begin

lemma during_calm: "during rely E a d \<Longrightarrow> (\<And>b c. E b c \<Longrightarrow> calm ns b c) \<Longrightarrow> calm ns a d"
  unfolding during_def by (metis rely_calm calm_trans calm_refl)

lemma read_bounded: "(\<And>w a w'. run_state c w = (a, w') \<Longrightarrow> rely (view w) (view w')) \<Longrightarrow> upholds (\<lambda>w. busy ns (view w) \<le> n) c"
  by (rule guardsI) (metis rely_calm calm_busy order_trans)

lemma write_bounded:
  assumes "\<And>w a w'. run_state c w = (a, w') \<Longrightarrow> during rely E (view w) (view w')" "\<And>b c. E b c \<Longrightarrow> calm ns b c"
  shows "upholds (\<lambda>w. busy ns (view w) \<le> n) c"
  by (rule guardsI) (metis assms during_calm calm_busy order_trans)

lemma answers_any: "upholds I c \<Longrightarrow> guards I (answer_in (\<lambda>_. True)) c"
  by (erule guards_mono) (simp add: answer_in_def split: sum.split)

text \<open>Every call but the creation of a job keeps every bound.\<close>

lemma bounded_kube: "guarded_kube K (\<lambda>w. busy ns (view w) \<le> n) (\<lambda>_. True) (\<lambda>_. False)"
proof
  show "guards (\<lambda>w. busy ns (view w) \<le> n) (answer_in (\<lambda>_. True)) (k_get_rjob K ns' name)" for ns' name
    by (intro answers_any read_bounded get_rely)
  show "guards (\<lambda>w. busy ns (view w) \<le> n) (answer_in (list_all (\<lambda>_. True))) (k_list_rjobs K ns' sel)" for ns' sel
    by (rule guards_mono, rule read_bounded, erule list_rely) (simp add: answer_in_def list_all_iff split: sum.split)
  show "upholds (\<lambda>w. busy ns (view w) \<le> n) (k_create_rjob K j)" for j
    by (rule write_bounded, erule create_effect) (rule effects_calm)
  show "guards (\<lambda>w. busy ns (view w) \<le> n) (answer_in (\<lambda>_. True)) (k_patch_status K b j)" for b j
    by (rule answers_any, rule write_bounded, erule status_effect) (rule effects_calm)
  show "guards (\<lambda>w. busy ns (view w) \<le> n) (answer_in (\<lambda>_. True)) (k_patch_rjob K b j)" if "relabels b j" for b j
    by (rule answers_any, rule write_bounded, erule labels_effect [OF that]) (rule effects_calm)
  show "upholds (\<lambda>w. busy ns (view w) \<le> n) (k_delete_rjob K j)" for j
    by (rule write_bounded, erule delete_effect) (rule effects_calm)
qed (simp_all, (rule read_bounded, erule now_rely rand_rely list_jobs_rely get_job_rely
      get_configmap_rely delete_configmap_rely get_namespace_rely get_pod_claims_rely)+)

text \<open>The count of the gate.\<close>

lemma isJobActive_overcounts:
  assumes "run_state (isJobActive K j) w = (x, w')"
  shows "calm ns (view w) (view w') \<and> (active_at (ob_clock (view w')) j \<longrightarrow> x)"
proof -
  have clk: "calm ns (view w) (view v)" "t \<le> ob_clock (view v)" if "run_state (k_now K) w = (t, v)" for t v
    using rely_calm [OF now_rely [OF that]] now_clock [OF that] by simp_all
  show ?thesis
  proof (cases "0 < jb_Succeeded j \<or> backoff_exhausted j \<or> \<not> (jb_Active j = 0 \<and> jb_Failed j = 0)")
    case True
    with assms show ?thesis by (auto simp: isJobActive_def active_at_def split: if_splits)
  next
    case False
    with assms obtain t where t: "run_state (k_now K) w = (t, w')" "x = (\<not> jobStalenessTimeout < time_sub t (om_CreationTimestamp (jb_Meta j)))"
      by (auto simp: isJobActive_def split: prod.splits)
    with False active_at_antimono [OF clk(2) [OF t(1)], of j] clk(1) [OF t(1)] show ?thesis by (auto simp: active_at_def)
  qed
qed

lemma count_overcounts:
  "run_state (count_active K js) w = (n, w') \<Longrightarrow>
     calm ns (view w) (view w') \<and> int (card (active_keys (ob_clock (view w')) js)) \<le> n"
proof (induction js arbitrary: w n)
  case (Cons j js)
  from Cons.prems obtain x w1 n1 where r: "run_state (isJobActive K j) w = (x, w1)" "run_state (count_active K js) w1 = (n1, w')"
      "n = (if x then n1 + 1 else n1)"
    by (auto split: prod.splits)
  note a = isJobActive_overcounts [OF r(1)] and c = Cons.IH [OF r(2)]
  let ?t = "ob_clock (view w')"
  have "active_at ?t j \<Longrightarrow> x" using a c active_at_antimono [of "ob_clock (view w1)" ?t j] by (simp add: calm_def)
  moreover have "active_keys ?t (j # js) = (if active_at ?t j then insert (jb_key j) (active_keys ?t js) else active_keys ?t js)"
    by (simp add: active_keys_def)
  ultimately have "int (card (active_keys ?t (j # js))) \<le> n"
    using c r(3) by (auto simp: card_insert_if)
  with a c show ?case using calm_trans by blast
qed (simp add: active_keys_def)

end

sublocale counting_server \<subseteq> bounded: guarded_kube K "\<lambda>w. busy ns (view w) \<le> n" "\<lambda>_. True" "\<lambda>_. False" for n
  by (rule bounded_kube)

section \<open>The controller\<close>

text \<open>The same controller without its job builder: all it does besides creating jobs.\<close>

definition idle :: "'w reconciler \<Rightarrow> 'w reconciler" where
  "idle r = r\<lparr>rc_Build := \<lambda>_ _. Inl (Err [])\<rparr>"

lemma idle_fields [simp]:
  "rc_Client (idle r) = rc_Client r" "rc_Cfg (idle r) = rc_Cfg r" "rc_APIReader (idle r) = rc_APIReader r"
  "rc_Correlator (idle r) = rc_Correlator r" "event (idle r) = event r"
  by (simp_all add: idle_def event_def fun_eq_iff)

lemma idle_same:
  "adopt_existing (idle r) = adopt_existing r" "sync_owned (idle r) = sync_owned r" "record_pr (idle r) = record_pr r"
  "succeeded_step (idle r) = succeeded_step r" "init_phase (idle r) = init_phase r" "concurrencyGate (idle r) = concurrencyGate r"
  unfolding fun_eq_iff adopt_existing_def sync_owned_def record_pr_def succeeded_step_def init_phase_def
    concurrencyGate_def sync_event_def fetchDryRunReport_def idle_fields
  by (intro allI refl)+

locale counting_controller = counting_server K view rely ns lag
  for K :: "'w kube" and view rely ns lag +
  fixes r :: "'w reconciler"
  assumes client: "rc_Client r = K"
    and namespace: "cfg_AgentNamespace (rc_Cfg r) = ns"
    and solo: "rc_Correlator r = None"
    and reader_bounded: "rc_APIReader r = Some g \<Longrightarrow> upholds (\<lambda>w. busy ns (view w) \<le> n) (g ns' name)"

sublocale counting_controller \<subseteq> rest: guarded_controller K "\<lambda>w. busy ns (view w) \<le> n" "\<lambda>_. True" "\<lambda>_. False" "idle r" for n
  by unfold_locales (auto simp: client solo idle_def [of r] intro: reader_bounded)

context counting_controller
begin

lemma listing_bounds:
  assumes "run_state (k_list_jobs K ns managed_by) w = (Inr js, w1)" "calm ns (view w1) (view w2)"
    and "int (card (active_keys (ob_clock (view w2)) js)) \<le> n"
  shows "int (busy ns (view w2)) \<le> n + int lag"
proof -
  from list_recent [OF assms(1)] obtain M where M: "finite M" "card M \<le> lag"
      "\<And>t. ob_clock (view w1) \<le> t \<Longrightarrow> busy_keys ns t (view w1) \<subseteq> active_keys t js \<union> M" by blast
  let ?t = "ob_clock (view w2)"
  have "busy_keys ns ?t (view w2) \<subseteq> busy_keys ns ?t (view w1)" "ob_clock (view w1) \<le> ?t"
    using assms(2) by (simp_all add: calm_def)
  with M(3) have "busy_keys ns ?t (view w2) \<subseteq> active_keys ?t js \<union> M" by blast
  then have "busy ns (view w2) \<le> card (active_keys ?t js \<union> M)" unfolding busy_def using M(1) by (intro card_mono) simp_all
  also have "\<dots> \<le> card (active_keys ?t js) + card M" by (rule card_Un_le)
  finally show ?thesis using M(2) assms(3) by linarith
qed

text \<open>An open gate leaves room for one more job.\<close>

lemma gate_leaves_room:
  assumes "cfg_MaxConcurrentJobs (rc_Cfg r) \<noteq> 0"
  shows "wp (concurrencyGate r) (\<lambda>x s'. x = Inr None \<longrightarrow> int (busy ns (view (world s'))) < cfg_MaxConcurrentJobs (rc_Cfg r) + int lag) s"
proof -
  have later: "int (busy ns (view w3)) \<le> n + int lag" if "run_state (k_list_jobs K ns managed_by) w = (Inr js, w1)"
      "run_state (count_active K js) w1 = (n, w2)" "run_state (k_list_rjobs K ns managed_by) w2 = (p, w3)" for w js w1 n w2 p w3
  proof -
    note c = count_overcounts [OF that(2)] and l = rely_calm [OF list_rely [OF that(3)]]
    have "active_keys (ob_clock (view w3)) js \<subseteq> active_keys (ob_clock (view w2)) js"
      using l by (intro active_keys_antimono) (simp add: calm_def)
    then have "card (active_keys (ob_clock (view w3)) js) \<le> card (active_keys (ob_clock (view w2)) js)" by (intro card_mono) simp_all
    with c show ?thesis using listing_bounds [OF that(1) calm_trans [OF conjunct1 [OF c] l], of n] by linarith
  qed
  show ?thesis
    unfolding concurrencyGate_def
    by (auto simp: wp_simps assms client namespace split: sum.split dest: later)
qed

text \<open>What a dispatch does besides the creation keeps every bound.\<close>

lemma dispatch_tails_bounded:
  "upholds (on_world (\<lambda>w. busy ns (view w) \<le> n)) (case c of
       Some e \<Rightarrow> if IsAlreadyExists e then adopt_existing r j job else ret (Some (Wrap ''creating Job'' (Api e)))
     | None \<Rightarrow> do {
         now \<leftarrow> ask (k_now K);
         let new = add_condition K (mk_condition ConditionJobDispatched ''JobCreated'' [] now)
               (j\<lparr>rj_Status := (rj_Status j)\<lparr>st_Phase := PhaseDispatched,
                  st_JobRef := om_Name (jb_Meta job), st_DispatchedAt := Some now\<rparr>\<rparr>);
         (j', e) \<leftarrow> patch_status K j new;
         case e of
           Some err \<Rightarrow> ret (Some (Api err))
         | None \<Rightarrow> do {
             event r j' ''Normal'' ''JobDispatched'' (''Created agent Job '' @ om_Name (jb_Meta job));
             ret None
           }
       })" (is ?created)
  "upholds (on_world (\<lambda>w. busy ns (view w) \<le> n)) (do {
        now \<leftarrow> ask (k_now K);
        (_, e) \<leftarrow> patch_status K j (add_condition K (cond now) (set_phase PhasePermanentlyFailed j));
        ret (map_option Api e)
      })" (is ?suppressed)
proof -
  show ?created
    using rest.adopt_existing_guarded [of n j job]
    by (intro guards_intros bounded.patch_status_guarded' TrueI) (simp_all add: idle_same)
  show ?suppressed
    by (intro guards_intros bounded.patch_status_guarded' TrueI) simp_all
qed

lemma create_adds_one:
  assumes "busy ns (view w) \<le> n" "run_state (k_create_job K job) w = (e, w')"
  shows "busy ns (view w') \<le> n + 1"
proof -
  from create_job_effect [OF assms(2)] obtain b c where "rely (view w) b" "b = c \<or> job_created job b c" "rely c (view w')"
    unfolding during_def by blast
  then show ?thesis
    using assms(1) calm_busy rely_calm job_created_busy [of job b c ns] by (metis add_leD1 add_le_cancel_right le_trans)
qed

lemma dispatch_adds_one:
  assumes "busy ns (view (world s)) \<le> n"
  shows "wp (dispatch r j fs) (\<lambda>_ s'. busy ns (view (world s')) \<le> n + 1) s"
proof -
  let ?J = "on_world (\<lambda>w. busy ns (view w) \<le> n + 1)"
  have up: "wp m (\<lambda>_ s'. ?J s') s'" if "upholds ?J m" "?J s'" for m :: "('w sys, 'b) state" and s'
    using that by (auto simp: guards_def elim!: wp_mono)
  consider "injection_suppress r j" | e where "\<not> injection_suppress r j" "rc_Build r j fs = Inl e"
    | job where "\<not> injection_suppress r j" "rc_Build r j fs = Inr job"
    by (cases "rc_Build r j fs") auto
  then show ?thesis
  proof cases
    case 1
    then show ?thesis using up [OF dispatch_tails_bounded(2), of s] assms by (simp add: dispatch_def client)
  next
    case (2 e)
    then show ?thesis using assms by (simp add: dispatch_def wp_return)
  next
    case (3 job)
    show ?thesis
      unfolding dispatch_def client if_not_P [OF 3(1)] 3(2) sum.case wp_bind [of "act _ _"] wp_act
      by (intro allI impI, rule up [OF dispatch_tails_bounded(1)]) (use create_adds_one [OF assms] in force)
  qed
qed

lemma gated_dispatch_within:
  assumes "0 < cfg_MaxConcurrentJobs (rc_Cfg r)" "nat (cfg_MaxConcurrentJobs (rc_Cfg r)) + lag = n"
  shows "upholds (on_world (\<lambda>w. busy ns (view w) \<le> n)) (gated_dispatch r j fs)"
proof (rule guardsI)
  fix s a s' assume s: "busy ns (view (world s)) \<le> n" and run: "run_state (gated_dispatch r j fs) s = (a, s')"
  let ?Q = "\<lambda>_ s'. busy ns (view (world s')) \<le> n"
  have gate: "wp (concurrencyGate r) (\<lambda>x s'. busy ns (view (world s')) \<le> n \<and> (x = Inr None \<longrightarrow> busy ns (view (world s')) \<le> n - 1)) s"
  proof (rule wpI)
    fix x s1 assume g: "run_state (concurrencyGate r) s = (x, s1)"
    have "busy ns (view (world s1)) \<le> n"
      using guardsD [OF rest.concurrencyGate_guarded [of n], of s x s1] g s by (simp add: idle_same)
    moreover have "x = Inr None \<longrightarrow> int (busy ns (view (world s1))) < cfg_MaxConcurrentJobs (rc_Cfg r) + int lag"
      using gate_leaves_room [of s] assms(1) g by (simp add: wp_def)
    ultimately show "busy ns (view (world s1)) \<le> n \<and> (x = Inr None \<longrightarrow> busy ns (view (world s1)) \<le> n - 1)"
      using assms by auto
  qed
  have disp: "wp (dispatch r j fs) ?Q s1" if "busy ns (view (world s1)) \<le> n - 1" for s1
    using dispatch_adds_one [OF that] assms by (auto elim!: wp_mono)
  have "wp (gated_dispatch r j fs) ?Q s"
    unfolding gated_dispatch_def wp_bind
    by (rule wp_mono [OF gate]) (auto simp: wp_bind wp_return intro!: wp_mono [OF disp] split: sum.split option.split)
  then show "busy ns (view (world s')) \<le> n \<and> True" using run by (simp add: wp_def)
qed

lemma Reconcile_within:
  assumes "0 < cfg_MaxConcurrentJobs (rc_Cfg r)" "nat (cfg_MaxConcurrentJobs (rc_Cfg r)) + lag = n"
  shows "upholds (on_world (\<lambda>w. busy ns (view w) \<le> n)) (Reconcile r ns' name)"
proof -
  let ?J = "on_world (\<lambda>w. busy ns (view w) \<le> n)"
  have "upholds ?J (drive r j)" for j
    unfolding drive_def client solo option.case
    using rest.sync_owned_guarded [of n j] by (intro guards_intros gated_dispatch_within assms TrueI) (simp_all add: idle_same)
  moreover have "upholds ?J (by_phase (idle r) j)" for j by (rule rest.by_phase_guarded) simp
  ultimately have "upholds ?J (by_phase r j)" for j
    unfolding by_phase_def by (cases "rj_Phase j") (auto simp: by_phase_def idle_same dest!: meta_spec [of _ j])
  moreover have "upholds ?J (record_pr r j)" "upholds ?J (init_phase r j)" for j
    using rest.record_pr_kept [of n j, THEN guarded_of] unfolding init_phase_def client
    by (simp_all add: idle_same) (intro guards_intros bounded.patch_status_guarded' TrueI, simp_all)
  ultimately show ?thesis
    unfolding Reconcile_def client by (intro guards_intros TrueI)
qed

end

section \<open>The system\<close>

lemma lift_counting_server:
  assumes "counting_server K view rely ns lag"
  shows "counting_server (lift_kube K) (\<lambda>s. view (wt_Cluster s)) rely ns lag"
proof (rule counting_server.intro)
  show "api_server (lift_kube K) (\<lambda>s. view (wt_Cluster s)) rely"
    using assms by (simp add: counting_server_def lift_api_server)
  show "counting_server_axioms (lift_kube K) (\<lambda>s. view (wt_Cluster s)) rely ns lag"
    by (rule counting_server_axioms.intro, unfold lift_kube_def kube.simps)
      (erule counting_server.rely_calm [OF assms], drule on_clusterD, erule counting_server.now_clock [OF assms],
       drule on_clusterD, erule counting_server.list_recent [OF assms])
qed

text \<open>A watcher with a limit and without correlation.\<close>

locale limited_watcher =
  fixes P :: "('w, 'h) platform" and view rely cfg ctl srcs lag
  assumes started: "main_setup P = Inr (cfg, ctl, srcs)"
    and server: "counting_server (pf_Kube P) view rely (cfg_AgentNamespace cfg) lag"
    and platform: "platform_relies view rely P"
    and disabled: "cfg_DisableCorrelation cfg"
    and limit: "0 < cfg_MaxConcurrentJobs cfg"

sublocale limited_watcher \<subseteq> srv: counting_server "pf_Kube P" view rely "cfg_AgentNamespace cfg" lag
  by (rule server)

sublocale limited_watcher \<subseteq> lifted: counting_server "lift_kube (pf_Kube P) :: ('w, 'h) watcher kube" "\<lambda>s. view (wt_Cluster s)" rely
    "cfg_AgentNamespace cfg" lag
  by (rule lift_counting_server) (rule server)

sublocale limited_watcher \<subseteq> bound: upholding_watcher P cfg ctl srcs "\<lambda>w. busy (cfg_AgentNamespace cfg) (view w) \<le> n"
    "\<lambda>_. True" "\<lambda>_. False" for n
proof (rule upholding_watcher.intro)
  show "main_setup P = Inr (cfg, ctl, srcs)" by (rule started)
  show "upholds (\<lambda>w. busy (cfg_AgentNamespace cfg) (view w) \<le> n) (k_now (pf_Kube P))" by (rule srv.bounded.now_guarded)
  show "platform_upholds (\<lambda>w. busy (cfg_AgentNamespace cfg) (view w) \<le> n) P"
    by (rule platform_upholdsI [OF platform]) (metis srv.rely_calm calm_busy order_trans)
  show "guarded_kube (lift_kube (pf_Kube P) :: ('w, 'h) watcher kube)
      (\<lambda>s. busy (cfg_AgentNamespace cfg) (view (wt_Cluster s)) \<le> n) (\<lambda>_. True) (\<lambda>_. False)"
    by (rule lifted.bounded_kube)
qed simp

sublocale limited_watcher \<subseteq> gate: counting_controller "lift_kube (pf_Kube P) :: ('w, 'h) watcher kube" "\<lambda>s. view (wt_Cluster s)"
    rely "cfg_AgentNamespace cfg" lag ctl
proof -
  obtain redactor corr tp where ctl: "ctl = controller_of P cfg (builder_config cfg) corr"
    by (rule main_setup_parts [OF started])
  have "rc_Correlator ctl = None" using started_correlator [OF started] disabled by (simp add: buildCorrelator_def)
  then show "counting_controller (lift_kube (pf_Kube P) :: ('w, 'h) watcher kube) (\<lambda>s. view (wt_Cluster s)) rely
      (cfg_AgentNamespace cfg) lag ctl"
    using bound.platform_kept
    by unfold_locales (auto simp: ctl controller_of_def platform_upholds_def intro: lifts_guarded(1))
qed

context limited_watcher
begin

lemma run_within:
  assumes "(system_step view rely cfg ctl srcs)\<^sup>*\<^sup>* y y'"
    and "busy (cfg_AgentNamespace cfg) (view (sy_Cluster y)) \<le> nat (cfg_MaxConcurrentJobs cfg) + lag"
  shows "busy (cfg_AgentNamespace cfg) (view (sy_Cluster y')) \<le> nat (cfg_MaxConcurrentJobs cfg) + lag"
proof (rule bound.run_upholds [OF assms])
  have "rc_Cfg ctl = cfg" by (rule main_setup_parts [OF started]) (simp add: controller_of_def)
  then show "upholds (on_world (on_cluster_of (\<lambda>w. busy (cfg_AgentNamespace cfg) (view w) \<le> nat (cfg_MaxConcurrentJobs cfg) + lag)))
      (Reconcile ctl ns name)" for ns name
    using gate.Reconcile_within limit by simp
qed (metis srv.rely_calm calm_busy order_trans)

end

section \<open>A server in memory whose other writers are calm\<close>

interpretation calm_memory: counting_server "memory_server (calm ns)" fst "(calm ns)\<^sup>=\<^sup>=" ns 0 for ns
proof (rule counting_server.intro)
  show "api_server (memory_server (calm ns)) fst (calm ns)\<^sup>=\<^sup>=" by (rule memory.api_server_axioms)
  show "counting_server_axioms (memory_server (calm ns)) fst (calm ns)\<^sup>=\<^sup>= ns 0"
  proof
    show "calm ns a b" if "(calm ns)\<^sup>=\<^sup>= a b" for a b using that by auto
    show "t \<le> ob_clock (fst w')" if "run_state (k_now (memory_server (calm ns))) w = (t, w')" for w t w'
      using mem_read_rely [OF that [unfolded memory_server_def kube.simps]] by simp
    show "\<exists>M. finite M \<and> card M \<le> 0 \<and> (\<forall>t \<ge> ob_clock (fst w'). busy_keys ns t (fst w') \<subseteq> active_keys t js \<union> M)"
      if "run_state (k_list_jobs (memory_server (calm ns)) ns managed_by) w = (Inr js, w')" for w js w'
    proof -
      have "js = filter (\<lambda>x. om_Namespace (jb_Meta x) = ns \<and> selector_matches managed_by (om_Labels (jb_Meta x))) (ob_jobs (fst w'))"
        using mem_read_rely [OF that [unfolded memory_server_def kube.simps]] by simp
      then show ?thesis by (intro exI [of _ "{}"]) (simp add: busy_keys_def)
    qed
  qed
qed

definition solo_platform :: "(cluster, unit) platform" where
  "solo_platform = memory_platform (calm ''mechanic'') (minimal_env [(''PR_AUTO_CLOSE'', ''false''), (''DISABLE_CORRELATION'', ''true'')])"

definition solo_settings :: Config where
  "solo_settings = sample_settings\<lparr>cfg_DisableCorrelation := True\<rparr>"

definition solo_controller :: "(cluster, unit) watcher reconciler" where
  "solo_controller = fst (snd (projr (main_setup solo_platform)))"

definition solo_sources :: "((cluster, unit) watcher, kobject) source_reconciler list" where
  "solo_sources = snd (snd (projr (main_setup solo_platform)))"

lemma solo_env:
  "FromEnv (pf_Compile solo_platform) (pf_Quantity solo_platform) (pf_Env solo_platform) = Inr solo_settings"
  by (simp add: solo_platform_def memory_platform_def sample_platform_def solo_settings_def sample_settings_def FromEnv_defs
      minimal_env_def wrap32_def seconds_small Second_def NewRedactor_def default_config_def zero_config_def AgentTypeOpenCode_def
      AgentTypeClaude_def SeverityLow_def Let_def)

lemma solo_started: "main_setup solo_platform = Inr (solo_settings, solo_controller, solo_sources)"
proof -
  have "\<exists>ctl srcs. main_setup solo_platform = Inr (solo_settings, ctl, srcs)"
    using solo_env sample_platform_env(2,3)
    by (auto simp: main_setup_def buildCorrelator_def solo_platform_def memory_platform_def solo_settings_def sample_settings_def
        default_config_def zero_config_def sample_platform_def NewRedactor_def NewBuilder_def builder_config_def wrap32_def
        credentials_def enabledProviders_Some)
  then show ?thesis by (auto simp: solo_controller_def solo_sources_def)
qed

lemma solo_simps:
  "cfg_AgentNamespace solo_settings = ''mechanic''" "cfg_DisableCorrelation solo_settings" "cfg_MaxConcurrentJobs solo_settings = 3"
  by (simp_all add: solo_settings_def sample_settings_def default_config_def)

interpretation solo_memory: limited_watcher solo_platform fst "(calm ''mechanic'')\<^sup>=\<^sup>=" solo_settings solo_controller solo_sources 0
proof (rule limited_watcher.intro)
  show "main_setup solo_platform = Inr (solo_settings, solo_controller, solo_sources)" by (rule solo_started)
  show "counting_server (pf_Kube solo_platform) fst (calm ''mechanic'')\<^sup>=\<^sup>= (cfg_AgentNamespace solo_settings) 0"
    using calm_memory.counting_server_axioms [of "''mechanic''"] by (simp add: solo_platform_def memory_platform_def solo_simps)
  show "platform_relies fst (calm ''mechanic'')\<^sup>=\<^sup>= solo_platform"
    unfolding solo_platform_def by (rule memory_platform_relies)
qed (simp_all add: solo_simps)

section \<open>Properties\<close>

text \<open>
  C3. The limit on concurrent jobs holds in every reachable state: for a watcher with a positive
  \<open>MaxConcurrentJobs\<close> and correlation switched off, whatever reconciles, other writers and restarts are
  interleaved, the number of active agent jobs never exceeds the limit by more than the number of
  active jobs that a listing of the controller's client may miss; with fresh listings the limit is
  exact. Assumed of the others: they create no agent jobs and revive no inactive one.
\<close>

theorem concurrency_limit:
  assumes "main_setup P = Inr (cfg, ctl, srcs)"
    and "counting_server (pf_Kube P) view rely (cfg_AgentNamespace cfg) lag" "platform_relies view rely P"
    and "cfg_DisableCorrelation cfg" "0 < cfg_MaxConcurrentJobs cfg"
    and "busy (cfg_AgentNamespace cfg) (view (sy_Cluster y\<^sub>0)) \<le> nat (cfg_MaxConcurrentJobs cfg) + lag"
    and "(system_step view rely cfg ctl srcs)\<^sup>*\<^sup>* y\<^sub>0 y"
  shows "busy (cfg_AgentNamespace cfg) (view (sy_Cluster y)) \<le> nat (cfg_MaxConcurrentJobs cfg) + lag"
proof -
  have "limited_watcher P view rely cfg ctl srcs lag" using assms(1-5) by (rule limited_watcher.intro)
  from limited_watcher.run_within [OF this assms(7,6)] show ?thesis .
qed

theorem concurrency_limit_witness:
  "\<exists>y. system_step fst (calm ''mechanic'')\<^sup>=\<^sup>= solo_settings solo_controller solo_sources
       \<lparr>sy_Watcher = initial solo_settings (one_rjob, []) (), sy_Sightings = (\<lambda>_. (firstSeen fresh_state, False))\<rparr> y
     \<and> busy ''mechanic'' (fst (sy_Cluster y)) \<le> 3"
proof -
  let ?y = "\<lparr>sy_Watcher = initial solo_settings (one_rjob, []) (), sy_Sightings = (\<lambda>_. (firstSeen fresh_state, False))\<rparr>"
  obtain res s where "run_state (Reconcile solo_controller ''mechanic'' ''mechanic-0123456789ab'')
      \<lparr>world = sy_Watcher ?y, trace = []\<rparr> = (res, s)" by (meson surj_pair)
  note step = system_step.controller [OF this, of fst "(calm ''mechanic'')\<^sup>=\<^sup>=" solo_settings solo_sources]
  have "busy ''mechanic'' (fst (sy_Cluster ?y)) \<le> 3"
    by (simp add: initial_def busy_def busy_keys_def active_keys_def one_rjob_def)
  moreover have steps: "(system_step fst (calm ''mechanic'')\<^sup>=\<^sup>= solo_settings solo_controller solo_sources)\<^sup>*\<^sup>*
      ?y (?y\<lparr>sy_Watcher := world s\<rparr>)" using step by (rule r_into_rtranclp)
  ultimately
  have "busy ''mechanic'' (fst (sy_Cluster (?y\<lparr>sy_Watcher := world s\<rparr>))) \<le> 3"
    using concurrency_limit [OF solo_started solo_memory.server solo_memory.platform _ _ _ steps] by (simp add: solo_simps)
  with step show ?thesis by blast
qed

end
