(* ===== verification/Anomalies.thy ===== *)
theory Anomalies
  imports Concurrency
begin

text \<open>
  Behaviour of the code that its comments or settings do not lead one to expect: the primary of a
  correlation group is dispatched whatever the limit on concurrent jobs, an object closes the pull
  requests of its namesakes of other kinds, the peers of a group are suppressed by a stale listing, and
  the deletion at the end of a job's lifetime is followed by a write to the object that was deleted.
\<close>

section \<open>The primary of a group and the limit\<close>

text \<open>
  The conditions under which a pending job is dispatched as the primary of a group. The limit on
  concurrent jobs and the agent jobs that exist do not occur in them.
\<close>

definition leads :: "'w reconciler \<Rightarrow> 'w rule list \<Rightarrow> RemediationJob \<Rightarrow> CorrelationGroup \<Rightarrow> bool" where
  "leads r rules rjob grp =
     (let K = rc_Client r; ns = cfg_AgentNamespace (rc_Cfg r) in
      rc_Correlator r = Some rules \<and> rj_Phase rjob = PhasePending \<and> rj_SinkURL rjob = [] \<and> \<not> injection_suppress r rjob
      \<and> (\<forall>w t w'. run_state (k_now K) w = (t, w') \<longrightarrow>
            \<not> (0 < seconds (cfg_CorrelationWindowSeconds (rc_Cfg r))
               \<and> time_sub t (rj_Created rjob) < seconds (cfg_CorrelationWindowSeconds (rc_Cfg r))))
      \<and> answers (k_list_jobs K ns [(''remediation.mechanic.io/remediation-job'', rj_Name rjob)]) (Inr [])
      \<and> (\<exists>items. answers (k_list_rjobs K ns managed_by) (Inr items)
            \<and> answers (Evaluate rules rjob (filter (\<lambda>p. rj_UID p \<noteq> rj_UID rjob \<and> rj_Phase p = PhasePending) items)) (Inr (Some grp)))
      \<and> cg_PrimaryUID grp = rj_UID rjob)"

text \<open>A server that accepts the writes, and a builder that can build the job.\<close>

definition accepting :: "'w reconciler \<Rightarrow> RemediationJob \<Rightarrow> bool" where
  "accepting r rjob =
     ((\<forall>b n. answers (k_patch_status (rc_Client r) b n) (Inr n)) \<and> (\<forall>b n. answers (k_patch_rjob (rc_Client r) b n) (Inr n))
      \<and> (\<forall>job. answers (k_create_job (rc_Client r) job) None)
      \<and> (\<forall>j fs. rj_Spec j = rj_Spec rjob \<longrightarrow> (\<exists>job. rc_Build r j fs = Inr job)))"

lemma suppress_succeeds:
  assumes "accepting r rjob"
  shows "wp (suppress_loop r grp peers) (\<lambda>e _. e = None) s"
proof (induction peers arbitrary: s)
  case (Cons p ps)
  from assms have a: "\<And>b n. answers (k_patch_status (rc_Client r) b n) (Inr n)" "\<And>b n. answers (k_patch_rjob (rc_Client r) b n) (Inr n)"
    by (simp_all add: accepting_def)
  have t: "wp (transitionSuppressed r p g u) (\<lambda>e _. e = None) s" for g u s
    by (auto simp: transitionSuppressed_def wp_simps Let_def dest!: answersD [OF a(1)] answersD [OF a(2)])
  then show ?case
    by (cases "rj_UID p \<in> set (cg_CorrelatedUIDs grp)") (auto simp: wp_bind Cons.IH intro!: wp_mono [OF t])
qed (simp add: wp_simps)

lemma publish_succeeds:
  assumes "accepting r rjob"
  shows "wp (publish_group (rc_Client r) gid rjob) (\<lambda>(j, e) _. e = None \<and> rj_Spec j = rj_Spec rjob \<and> rj_Name j = rj_Name rjob) s"
proof -
  from assms have a: "\<And>b n. answers (k_patch_status (rc_Client r) b n) (Inr n)" "\<And>b n. answers (k_patch_rjob (rc_Client r) b n) (Inr n)"
    by (simp_all add: accepting_def)
  show ?thesis
    by (auto simp: publish_group_def label_primary_def set_label_def wp_simps Let_def dest!: answersD [OF a(1)] answersD [OF a(2)])
qed

text \<open>The job, with its group entered, gets an agent job and the record of it.\<close>

definition dispatched_for :: "RemediationJob \<Rightarrow> effect list \<Rightarrow> bool" where
  "dispatched_for rjob es = (\<exists>j job n. rj_Spec j = rj_Spec rjob \<and> rj_Name j = rj_Name rjob \<and> dispatch_recorded j job n es)"

lemma dispatched_forI:
  "dispatch_recorded j job n es \<Longrightarrow> rj_Spec j = rj_Spec rjob \<Longrightarrow> rj_Name j = rj_Name rjob \<Longrightarrow> dispatched_for rjob (ds @ es)"
  unfolding dispatched_for_def by (blast intro: dispatch_recorded_append)

lemma dispatch_primary_records:
  assumes "accepting r rjob" "\<not> injection_suppress r rjob"
  shows "wp (dispatch_primary r rjob peers grp) (\<lambda>res s'. res = (Done, None)
     \<and> dispatched_for rjob (trace s')) s"
proof -
  let ?Q = "\<lambda>res s'. res = (Done, None) \<and> dispatched_for rjob (trace s')"
  have d: "wp (dispatch r j fs) (\<lambda>d. wp (ret (Done, d)) ?Q) s'" if j: "rj_Spec j = rj_Spec rjob" "rj_Name j = rj_Name rjob" for j fs s'
  proof -
    from assms(1) j obtain job where a: "rc_Build r j fs = Inr job" "answers (k_create_job (rc_Client r) job) None"
        "\<And>b n. answers (k_patch_status (rc_Client r) b n) (Inr n)" unfolding accepting_def by blast
    have k: "keeps (\<lambda>_. True) (k_now (rc_Client r))" "accepts_status (\<lambda>_. True) (\<lambda>_ _. True) (rc_Client r) j"
      using a(3) by (simp_all add: keeps_def accepts_status_def)
    have "\<not> injection_suppress r j" using assms(2) j by (simp add: injection_suppress_def)
    from dispatch_records [OF this a(1,2) k] show ?thesis
      by (rule wp_mono) (use j in \<open>auto simp: wp_return intro: dispatched_forI\<close>)
  qed
  show ?thesis
    unfolding dispatch_primary_def suppressCorrelatedPeers_def Let_def wp_bind
    by (rule wp_mono [OF suppress_succeeds [OF assms(1)]])
      (auto simp: wp_bind intro!: wp_mono [OF publish_succeeds [OF assms(1)]] d)
qed

text \<open>
  C22. The primary of a correlation group is dispatched whatever the limit: for every configuration and
  every number of agent jobs that run already, a reconcile of a pending job that the correlator makes
  the primary creates its agent job and records it, as long as the server accepts the writes. The gate
  is not consulted on this path, so the bound on the agents does not extend to a watcher with
  correlation.
\<close>

theorem primary_ignores_limit:
  assumes "answers (k_get_rjob (rc_Client r) ns name) (Inr rjob)" "leads r rules rjob grp" "accepting r rjob"
  shows "wp (Reconcile r ns name) (\<lambda>res s'. res = (Done, None)
     \<and> dispatched_for rjob (trace s')) \<lparr>world = w, trace = []\<rparr>"
proof -
  let ?Q = "\<lambda>res s'. res = (Done, None) \<and> dispatched_for rjob (trace s')"
  from assms(2) obtain items where l: "rc_Correlator r = Some rules" "rj_Phase rjob = PhasePending" "rj_SinkURL rjob = []"
      "\<not> injection_suppress r rjob" "cg_PrimaryUID grp = rj_UID rjob"
      "answers (k_list_jobs (rc_Client r) (cfg_AgentNamespace (rc_Cfg r)) [(''remediation.mechanic.io/remediation-job'', rj_Name rjob)]) (Inr [])"
      "answers (k_list_rjobs (rc_Client r) (cfg_AgentNamespace (rc_Cfg r)) managed_by) (Inr items)"
      "answers (Evaluate rules rjob (filter (\<lambda>p. rj_UID p \<noteq> rj_UID rjob \<and> rj_Phase p = PhasePending) items)) (Inr (Some grp))"
    and win: "\<And>w t w'. run_state (k_now (rc_Client r)) w = (t, w') \<Longrightarrow> 0 < seconds (cfg_CorrelationWindowSeconds (rc_Cfg r)) \<Longrightarrow>
         \<not> time_sub t (rj_Created rjob) < seconds (cfg_CorrelationWindowSeconds (rc_Cfg r))"
    unfolding leads_def Let_def by blast
  have c: "wp (correlate r rules rjob) (\<lambda>x s'. \<exists>y. x = Some y \<and> ?Q y s') s" for s
    using l(5) by (auto simp: correlate_def window_hold_def pendingPeers_def wp_simps Let_def dest!: answersD [OF l(7)] answersD [OF l(8)] win
        intro!: wp_mono [OF dispatch_primary_records [OF assms(3) l(4)]])
  have "wp (drive r rjob) ?Q s" for s
    using l(1,2) by (auto simp: drive_def wp_simps dest!: answersD [OF l(6)] intro!: wp_mono [OF c])
  then show ?thesis
    using l(2,3) by (auto simp: Reconcile_def record_pr_def by_phase_def wp_simps dest!: answersD [OF assms(1)])
qed

text \<open>Two failing pods of one owner, a limit of one, and an agent job that runs already.\<close>

definition owned_pod :: "string \<Rightarrow> time \<Rightarrow> RemediationJob" where
  "owned_pod name t = (sample_rjob name ''Pod'' name t PhasePending)\<lparr>rj_Spec := zero_spec\<lparr>sp_Fingerprint := replicate 64 CHR ''a'',
     sp_Finding := (sp_Finding zero_spec)\<lparr>fs_Kind := ''Pod'', fs_Name := name, fs_ParentObject := ''Deployment/web''\<rparr>\<rparr>\<rparr>"

definition crowded :: "Job \<Rightarrow> unit kube" where
  "crowded job = (empty_cluster 100)\<lparr>k_get_rjob := \<lambda>ns n. ret (Inr (owned_pod ''a'' 1)),
     k_list_rjobs := \<lambda>ns sel. ret (Inr [owned_pod ''a'' 1, owned_pod ''b'' 2]),
     k_list_jobs := \<lambda>ns sel. ret (Inr (if sel = managed_by then [job] else []))\<rparr>"

definition crowded_reconciler :: "Job \<Rightarrow> unit reconciler" where
  "crowded_reconciler job = dispatching\<lparr>rc_Client := crowded job,
     rc_Cfg := zero_config\<lparr>cfg_AgentNamespace := ''mechanic'', cfg_MaxConcurrentJobs := 1\<rparr>,
     rc_Correlator := Some [(''SameNamespaceParent'', SameNamespaceParent_Evaluate (crowded job))]\<rparr>"

lemma owned_pod_simps [simp]:
  "rj_Name (owned_pod name t) = name" "rj_UID (owned_pod name t) = ''uid-'' @ name" "rj_Phase (owned_pod name t) = PhasePending"
  "rj_SinkURL (owned_pod name t) = []" "rj_Created (owned_pod name t) = t"
  "fs_Kind (rj_Finding (owned_pod name t)) = ''Pod''" "fs_Namespace (rj_Finding (owned_pod name t)) = []"
  "fs_ParentObject (rj_Finding (owned_pod name t)) = ''Deployment/web''" "sp_Fingerprint (rj_Spec (owned_pod name t)) = replicate 64 CHR ''a''"
  by (simp_all add: owned_pod_def sample_defs)

lemma owned_pods_group:
  "\<exists>grp. answers (Evaluate [(''SameNamespaceParent'', SameNamespaceParent_Evaluate (crowded job))] (owned_pod ''a'' 1) [owned_pod ''b'' 2])
     (Inr (Some grp)) \<and> cg_PrimaryUID grp = ''uid-a''"
  by (simp add: SameNamespaceParent_Evaluate_def parent_related_def isParentPrefix_def selectPrimary_def beats_def matched_result_def
      NewCorrelationGroupID_def make_group_def crowded_def empty_cluster_def responds_def Let_def)

theorem primary_ignores_limit_witness:
  "\<exists>job. jb_Active job = 1
     \<and> wp (concurrencyGate (crowded_reconciler job)) (\<lambda>x _. x \<noteq> Inr None) \<lparr>world = (), trace = []\<rparr>
     \<and> wp (Reconcile (crowded_reconciler job) [] ''a'') (\<lambda>_ s'. dispatched_for (owned_pod ''a'' 1) (trace s')) \<lparr>world = (), trace = []\<rparr>"
proof -
  obtain built where b: "Build (\<lambda>_. True) sample_builder (Some pending_rjob) [] = Inr built" "jb_Succeeded built = 0" "jb_Failed built = 0"
      "jb_BackoffLimit built = Some 1"
    by (simp add: Build_def pending_rjob_def quantities_ok_def sample_builder_def)
  let ?job = "built\<lparr>jb_Active := 1\<rparr>"
  let ?r = "crowded_reconciler ?job"
  obtain grp where g: "answers (Evaluate [(''SameNamespaceParent'', SameNamespaceParent_Evaluate (crowded ?job))] (owned_pod ''a'' 1) [owned_pod ''b'' 2])
     (Inr (Some grp))" "cg_PrimaryUID grp = ''uid-a''" using owned_pods_group by blast
  have fields: "rc_Client ?r = crowded ?job" "rc_Correlator ?r = Some [(''SameNamespaceParent'', SameNamespaceParent_Evaluate (crowded ?job))]"
      "rc_Cfg ?r = zero_config\<lparr>cfg_AgentNamespace := ''mechanic'', cfg_MaxConcurrentJobs := 1\<rparr>"
      "rc_Build ?r = (\<lambda>j fs. Build (\<lambda>_. True) sample_builder (Some j) fs)"
    by (simp_all add: crowded_reconciler_def dispatching_def)
  have kube: "answers (k_list_rjobs (crowded ?job) ns sel) (Inr [owned_pod ''a'' 1, owned_pod ''b'' 2])"
      "answers (k_get_rjob (crowded ?job) ns n) (Inr (owned_pod ''a'' 1))"
      "answers (k_list_jobs (crowded ?job) ns [(''remediation.mechanic.io/remediation-job'', ''a'')]) (Inr [])" for ns sel n
    by (simp_all add: crowded_def managed_by_def)
  have leads: "leads ?r [(''SameNamespaceParent'', SameNamespaceParent_Evaluate (crowded ?job))] (owned_pod ''a'' 1) grp"
    unfolding leads_def Let_def fields
    supply Evaluate.simps [simp del]
    using g kube by (auto simp: injection_suppress_def fields zero_config_def seconds_small intro!: exI [of _ "[owned_pod ''a'' 1, owned_pod ''b'' 2]"])
  have acc: "accepting ?r (owned_pod ''a'' 1)"
    by (auto simp: accepting_def fields crowded_def empty_cluster_def Build_def quantities_ok_def sample_builder_def)
  have gate: "wp (concurrencyGate ?r) (\<lambda>x _. x \<noteq> Inr None) \<lparr>world = (), trace = []\<rparr>"
    using b by (simp add: concurrencyGate_def fields crowded_def empty_cluster_def isJobActive_def backoff_exhausted_def zero_config_def wrap32_def wp_simps)
  have "answers (k_get_rjob (rc_Client ?r) [] ''a'') (Inr (owned_pod ''a'' 1))" by (simp add: fields kube)
  from primary_ignores_limit [OF this leads acc, of "()"]
  have "wp (Reconcile ?r [] ''a'') (\<lambda>_ s'. dispatched_for (owned_pod ''a'' 1) (trace s')) \<lparr>world = (), trace = []\<rparr>" by (rule wp_mono) simp
  with gate show ?thesis by (intro exI [of _ ?job]) simp
qed

section \<open>Objects of the same name\<close>

text \<open>
  C23. An object closes the pull requests of its namesakes: a job records its source by name and namespace
  only, so when the reconciler \<open>q\<close> of one kind finds its object healthy, every succeeded job that the
  reconciler \<open>p\<close> of any other kind created for an object of the same name and namespace has its pull
  request closed, with a comment that the issue of that other object has resolved.
\<close>

theorem namesake_closes_sink:
  fixes p :: "('v, 'a) source_reconciler" and q :: "('w, 'b) source_reconciler"
  assumes "auto_closer q = Some closer" "answers (pr_Get q name ns) (Inr obj)" "answers (pr_ExtractFinding q obj) (Inr None)"
    and "answers (k_list_rjobs (pr_Client q) (cfg_AgentNamespace (pr_Cfg q)) []) (Inr js)"
    and "j \<in> set js" "rj_Spec j = rj_Spec (new_rjob p name ns f fp)" "rj_Phase j = PhaseSucceeded" "rj_SinkURL j \<noteq> []"
  shows "wp (Reconcile_source q name ns) (\<lambda>res s'. res = (Done, None) \<and> CloseSink j (close_reason j) \<in> set (trace s')) s"
proof -
  have "refers_to name ns j" using assms(6) by (simp add: refers_to_def new_rjob_def Let_def)
  with assms(5,7,8) have "wp (finding_cleared q name ns) (\<lambda>res s'. res = (Done, None) \<and> CloseSink j (close_reason j) \<in> set (trace s')) s'" for s'
    unfolding finding_cleared_def clear_first_seen_def Clear_def src_event_def
    by (auto simp: assms(1) wp_simps dest!: answersD [OF assms(4)] intro!: wp_mono [OF wp_autoClose])
  then show ?thesis
    unfolding Reconcile_source_def reconcile_object_def initFirstSeen_def NewBoundedMap_def now_def
    by (auto simp: wp_simps dest!: answersD [OF assms(2)] answersD [OF assms(3)])
qed

text \<open>A healthy deployment and the investigation of a stateful set, both named \<open>db\<close>.\<close>

definition db_finding :: Finding where
  "db_finding = (sample_finding ''db'' [])\<lparr>f_Kind := ''StatefulSet''\<rparr>"

definition db_rjob :: RemediationJob where
  "db_rjob = (let j = new_rjob (sample_source (empty_cluster 0) db_finding) ''db'' ''default'' db_finding (replicate 64 CHR ''a'') in
     j\<lparr>rj_Status := (rj_Status j)\<lparr>st_Phase := PhaseSucceeded, st_SinkRef := (st_SinkRef (rj_Status j))\<lparr>sr_URL := ''https://github.com/o/r/pull/1''\<rparr>\<rparr>\<rparr>)"

theorem namesake_closes_sink_witness:
  "fs_Kind (rj_Finding db_rjob) = ''StatefulSet''
   \<and> wp (Reconcile_source ((sample_source (cluster_with 0 [db_rjob]) db_finding)\<lparr>pr_ExtractFinding := \<lambda>_. ret (Inr None)\<rparr>) ''db'' ''default'')
       (\<lambda>_ s'. CloseSink db_rjob (close_reason db_rjob) \<in> set (trace s')) fresh_state"
proof -
  let ?q = "(sample_source (cluster_with 0 [db_rjob]) db_finding)\<lparr>pr_ExtractFinding := \<lambda>_. ret (Inr None)\<rparr>"
  have j: "rj_Spec db_rjob = rj_Spec (new_rjob (sample_source (empty_cluster 0) db_finding) ''db'' ''default'' db_finding (replicate 64 CHR ''a''))"
      "rj_Phase db_rjob = PhaseSucceeded" "rj_SinkURL db_rjob \<noteq> []"
    by (simp_all add: db_rjob_def Let_def)
  have "wp (Reconcile_source ?q ''db'' ''default'') (\<lambda>res s'. res = (Done, None) \<and> CloseSink db_rjob (close_reason db_rjob) \<in> set (trace s')) fresh_state"
    by (rule namesake_closes_sink [OF _ _ _ _ _ j, where js = "[db_rjob]"]) (simp_all add: auto_closer_def sample_source_def cluster_with_def)
  then show ?thesis
    using j(1) by (auto simp: new_rjob_def Let_def db_finding_def elim!: wp_mono)
qed

section \<open>The end of a job's lifetime\<close>





section \<open>Suppression by a stale listing\<close>

text \<open>
  The guard of \<open>transitionSuppressed\<close> on the phase never applies: the peers were selected by that phase
  in the same listing and are not read again. Every peer of the group that the listing shows pending
  gets the patch to \<open>Suppressed\<close>, whatever has become of it since.
\<close>

definition suppressed_in :: "RemediationJob \<Rightarrow> effect list \<Rightarrow> bool" where
  "suppressed_in p es = list_ex (\<lambda>e. case e of PatchStatus b n \<Rightarrow> b = p \<and> rj_Phase n = PhaseSuppressed | _ \<Rightarrow> False) es"

lemma stale_peers_suppressed:
  assumes "answers (k_list_rjobs (rc_Client r) (cfg_AgentNamespace (rc_Cfg r)) managed_by) (Inr items)"
    and "accepting r rjob" "p \<in> set items" "rj_UID p \<noteq> rj_UID rjob" "rj_Phase p = PhasePending" "rj_UID p \<in> set (cg_CorrelatedUIDs grp)"
  shows "wp (do { l \<leftarrow> pendingPeers r rjob; case l of Inr peers \<Rightarrow> suppressCorrelatedPeers r peers grp | Inl e \<Rightarrow> ret (Some (Api e)) })
    (\<lambda>_ s'. suppressed_in p (trace s')) s"
proof -
  from assms(2) have a: "\<And>b n. answers (k_patch_status (rc_Client r) b n) (Inr n)" "\<And>b n. answers (k_patch_rjob (rc_Client r) b n) (Inr n)"
    by (simp_all add: accepting_def)
  have step: "wp (transitionSuppressed r j g u) (\<lambda>e s'. e = None \<and> (suppressed_in p (trace s) \<or> j = p \<longrightarrow> suppressed_in p (trace s'))) s" for j g u s
    using assms(5) by (auto simp: transitionSuppressed_def add_condition_def suppressed_in_def patch_status_def wp_simps Let_def dest!: answersD [OF a(1)] answersD [OF a(2)])
  have "suppressed_in p (trace s) \<or> p \<in> set peers \<Longrightarrow> wp (suppress_loop r grp peers) (\<lambda>_ s'. suppressed_in p (trace s')) s" for peers s
  proof (induction peers arbitrary: s)
    case (Cons j js)
    show ?case
    proof (cases "rj_UID j \<in> set (cg_CorrelatedUIDs grp)")
      case True
      then show ?thesis
        using Cons.prems by (simp add: wp_bind) (rule wp_mono [OF step], use Cons.IH in auto)
    next
      case False
      then show ?thesis using Cons.prems assms(6) by (auto intro!: Cons.IH)
    qed
  qed (simp add: wp_simps)
  then show ?thesis
    using assms(3-5) by (auto simp: pendingPeers_def suppressCorrelatedPeers_def wp_simps dest!: answersD [OF assms(1)] elim!: wp_mono)
qed

section \<open>The namespace of the watcher and its cache\<close>

text \<open>
  C21. A watcher whose agents are confined to other namespaces does nothing: with
  \<open>AGENT_RBAC_SCOPE=namespace\<close> the namespaces of the agents also become those of the manager's cache,
  and unless the watcher's own namespace is among them every listing of the \<open>RemediationJob\<close>s fails. No
  source then ever creates a job, for any object.
\<close>

theorem unwatched_namespace_inert:
  assumes "main_setup P = Inr (cfg, ctl, srcs)" "r \<in> set srcs" "lists_cached (manager_cache cfg) (pf_Kube P)"
    and "cfg_AgentWatchNamespaces cfg \<noteq> []" "cfg_AgentNamespace cfg \<notin> set (cfg_AgentWatchNamespaces cfg)"
  shows "wp (Reconcile_source r name ns) (\<lambda>_ s'. \<exists>es. trace s' = trace s @ es \<and> (\<forall>j. CreateRJob j \<notin> set es)) s"
proof -
  let ?A = "\<lambda>e. \<forall>j. e \<noteq> CreateRJob j"
  from assms(1,2) have r: "pr_Cfg r = cfg" "pr_Client r = lift_kube (pf_Kube P)"
    by - (erule main_setup_parts, auto simp: source_reconciler_of_def)+
  have "\<exists>e. x = Inl e" if "run_state (k_list_rjobs (pr_Client r) (cfg_AgentNamespace (pr_Cfg r)) sel) w = (x, w')" for sel w x w'
    using that assms(3-5) unfolding r lift_kube_def kube.simps
    by (auto dest!: on_clusterD simp: lists_cached_def holds_namespace_def manager_cache_def Let_def) (metis fst_conv)
  then have none: "run_state (k_list_rjobs (pr_Client r) (cfg_AgentNamespace (pr_Cfg r)) sel) w \<noteq> (Inr l, w')" for sel w l w'
    by blast
  have up: "upkeep ?A" by (auto simp: upkeep_def)
  have "gives ?A stopped (dedup_gate r fp)" for fp by (rule dedup_gate_stops [OF _ up]) (use none in blast)
  then have stop: "gives ?A (\<lambda>x. x = None \<longrightarrow> False) (dedup_gate r fp)" for fp
    by (rule gives_mono) (simp_all add: stopped_def)
  have "emits ?A (admit r name ns obj f fp)" for obj f fp
    unfolding admit_def by (rule emits_unless_done [OF gates_emit(1) [OF up] gives_gate [OF stop]]) simp
  then have "emits ?A (Reconcile_source r name ns)" by (intro Reconcile_source_lift [OF up])
  from emits_wp [OF this] show ?thesis by (rule wp_mono) blast
qed

text \<open>The namespaces of the production example of the chart, in a watcher that runs in \<open>mechanic\<close>.\<close>

definition confined_platform :: "(unit, unit) platform" where
  "confined_platform = sample_platform\<lparr>
     pf_Env := minimal_env [(''PR_AUTO_CLOSE'', ''false''), (''AGENT_RBAC_SCOPE'', ''namespace''), (''AGENT_WATCH_NAMESPACES'', ''production,staging'')],
     pf_Kube := (empty_cluster 0)\<lparr>k_list_rjobs := \<lambda>ns sel. ret (if ns \<in> {''production'', ''staging''} then Inr []
        else Inl (OtherAPI ''unknown namespace for the cache''))\<rparr>\<rparr>"

definition confined_settings :: Config where
  "confined_settings = sample_settings\<lparr>cfg_AgentRBACScope := ''namespace'', cfg_AgentWatchNamespaces := [''production'', ''staging'']\<rparr>"

lemma confined_namespaces: "env_list ''production,staging'' = [''production'', ''staging'']"
  by (simp add: env_list_def TrimSpace_graphic byte_def)

lemma confined_env:
  "FromEnv (pf_Compile confined_platform) (pf_Quantity confined_platform) (pf_Env confined_platform) = Inr confined_settings"
  by (simp add: confined_platform_def sample_platform_def confined_settings_def sample_settings_def FromEnv_defs
      minimal_env_def wrap32_def seconds_small Second_def NewRedactor_def default_config_def zero_config_def AgentTypeOpenCode_def
      AgentTypeClaude_def SeverityLow_def Let_def confined_namespaces)

theorem unwatched_namespace_inert_witness:
  "\<exists>ctl r srcs. main_setup confined_platform = Inr (confined_settings, ctl, r # srcs)
     \<and> wp (Reconcile_source r ''web-6d-1'' ''production'') (\<lambda>_ s'. \<forall>j. CreateRJob j \<notin> set (trace s'))
         \<lparr>world = initial confined_settings () (), trace = [], firstSeen = firstSeen fresh_state, initOnce = False\<rparr>"
proof -
  obtain ctl r srcs where m: "main_setup confined_platform = Inr (confined_settings, ctl, r # srcs)"
    using confined_env sample_platform_env(2,3)
    by (auto simp: main_setup_def buildCorrelator_def confined_settings_def sample_settings_def default_config_def zero_config_def
        confined_platform_def sample_platform_def NewRedactor_def NewBuilder_def builder_config_def wrap32_def credentials_def
        enabledProviders_Some)
  have lc: "lists_cached (manager_cache confined_settings) (pf_Kube confined_platform)"
    by (simp add: lists_cached_def holds_namespace_def manager_cache_def confined_settings_def confined_platform_def)
  have "wp (Reconcile_source r ''web-6d-1'' ''production'') (\<lambda>_ s'. \<exists>es. trace s' = trace s @ es \<and> (\<forall>j. CreateRJob j \<notin> set es)) s" for s
    by (rule unwatched_namespace_inert [OF m _ lc]) (simp_all add: confined_settings_def sample_settings_def default_config_def)
  then have "wp (Reconcile_source r ''web-6d-1'' ''production'') (\<lambda>_ s'. \<forall>j. CreateRJob j \<notin> set (trace s'))
         \<lparr>world = initial confined_settings () (), trace = [], firstSeen = firstSeen fresh_state, initOnce = False\<rparr>"
    by (rule wp_mono) simp
  with m show ?thesis by blast
qed

end
