(* ===== verification/Deep_Copy.thy ===== *)
theory Deep_Copy
  imports Api_Types
begin

text \<open>
  The hand-written deep copies of \<open>src/api/v1alpha1/remediationjob_types.go\<close> with their pointers. The
  reconcilers copy an object, change the original and send the difference as a patch, so a field that
  the copy shares with the original would be missing from the patch. Here the pointers, slices and maps
  of a \<open>RemediationJob\<close> are addresses of a store, and copies are shown to denote the same value and to
  share no address with the original. The contract of a copy is the locale \<open>copier\<close>; the deep copy of
  \<open>ObjectMeta\<close> belongs to k8s.io/apimachinery and is a parameter with that contract.
\<close>

section \<open>The store\<close>

type_synonym addr = nat

text \<open>The fields of a status as the struct has them: three pointers to times and a slice of conditions.\<close>

record StatusStruct =
  ps_Phase :: RemediationJobPhase
  ps_JobRef :: string
  ps_PRRef :: string
  ps_DispatchedAt :: "addr option"
  ps_CompletedAt :: "addr option"
  ps_Message :: string
  ps_RetryCount :: int
  ps_Conditions :: "addr option"
  ps_CorrelationGroupID :: string
  ps_SinkRef :: SinkRef
  ps_PRMerged :: bool
  ps_PRMergedAt :: "addr option"

record 'm JobStruct =
  pj_Meta :: 'm
  pj_Spec :: RemediationJobSpec
  pj_Status :: StatusStruct

text \<open>What an address holds: a time, the array of a slice, or a map.\<close>

datatype 'm cell =
    TimeCell time
  | ConditionsCell "Condition list"
  | MapCell "string \<rightharpoonup> string"
  | ItemsCell "'m JobStruct list"
  | CountCell int

record 'm store =
  cells :: "addr \<Rightarrow> 'm cell option"
  limit :: addr

definition allocate :: "'m cell \<Rightarrow> ('m store, addr) state" where
  "allocate c = State (\<lambda>s. (limit s, s\<lparr>cells := (cells s)(limit s := Some c), limit := limit s + 1\<rparr>))"

text \<open>
  \<open>t := *p; q = &t\<close> for a pointer, \<open>make\<close> and \<open>copy\<close> for a slice: a new cell with the same contents, and
  nothing for nil. Go has no dangling pointers.
\<close>

definition copy_pointer :: "addr option \<Rightarrow> ('m store, addr option) state" where
  "copy_pointer p =
     (case p of
        None \<Rightarrow> ret None
      | Some a \<Rightarrow> do {
          s \<leftarrow> State_Monad.get;
          case cells s a of
            None \<Rightarrow> ret (Some a)
          | Some c \<Rightarrow> do { b \<leftarrow> allocate c; ret (Some b) }
        })"

section \<open>The copies\<close>

definition Job_DeepCopyInto :: "('m \<Rightarrow> ('m store, 'm) state) \<Rightarrow> 'm JobStruct \<Rightarrow> ('m store, 'm JobStruct) state" where
  "Job_DeepCopyInto copy_meta src =
     (let out = src; i = pj_Status src in do {
        meta \<leftarrow> copy_meta (pj_Meta src);
        let out = out\<lparr>pj_Meta := meta\<rparr>;
        let out = out\<lparr>pj_Spec := pj_Spec src\<rparr>;
        let o1 = (pj_Status out)\<lparr>ps_Phase := ps_Phase i, ps_JobRef := ps_JobRef i, ps_PRRef := ps_PRRef i,
                    ps_Message := ps_Message i, ps_RetryCount := ps_RetryCount i\<rparr>;
        dispatched \<leftarrow> copy_pointer (ps_DispatchedAt i);
        let o2 = (if ps_DispatchedAt i \<noteq> None then o1\<lparr>ps_DispatchedAt := dispatched\<rparr> else o1);
        completed \<leftarrow> copy_pointer (ps_CompletedAt i);
        let o3 = (if ps_CompletedAt i \<noteq> None then o2\<lparr>ps_CompletedAt := completed\<rparr> else o2);
        conditions \<leftarrow> copy_pointer (ps_Conditions i);
        let o4 = (if ps_Conditions i \<noteq> None then o3\<lparr>ps_Conditions := conditions\<rparr> else o3);
        let o5 = o4\<lparr>ps_CorrelationGroupID := ps_CorrelationGroupID i, ps_SinkRef := ps_SinkRef i, ps_PRMerged := ps_PRMerged i\<rparr>;
        merged \<leftarrow> copy_pointer (ps_PRMergedAt i);
        let o6 = (if ps_PRMergedAt i \<noteq> None then o5\<lparr>ps_PRMergedAt := merged\<rparr> else o5);
        ret (out\<lparr>pj_Status := o6\<rparr>)
      })"

text \<open>
  \<open>RemediationJobList\<close>: the metadata of a list, whose deep copy is a parameter like that of an object's
  metadata, and the items, a slice.
\<close>

record 'l ListStruct =
  pl_ListMeta :: 'l
  pl_Items :: "addr option"

fun copy_items :: "('m \<Rightarrow> ('m store, 'm) state) \<Rightarrow> 'm JobStruct list \<Rightarrow> ('m store, 'm JobStruct list) state" where
  "copy_items copy_meta [] = ret []"
| "copy_items copy_meta (j # js) = do {
     j' \<leftarrow> Job_DeepCopyInto copy_meta j;
     js' \<leftarrow> copy_items copy_meta js;
     ret (j' # js')
   }"

definition copy_slice :: "('m \<Rightarrow> ('m store, 'm) state) \<Rightarrow> addr option \<Rightarrow> ('m store, addr option) state" where
  "copy_slice copy_meta p =
     (case p of
        None \<Rightarrow> ret None
      | Some a \<Rightarrow> do {
          s \<leftarrow> State_Monad.get;
          case cells s a of
            Some (ItemsCell js) \<Rightarrow> do {
              items \<leftarrow> copy_items copy_meta js;
              b \<leftarrow> allocate (ItemsCell items);
              ret (Some b)
            }
          | _ \<Rightarrow> ret p
        })"

definition List_DeepCopyInto :: "('m \<Rightarrow> ('m store, 'm) state) \<Rightarrow> ('l \<Rightarrow> ('m store, 'l) state) \<Rightarrow> 'l ListStruct
    \<Rightarrow> ('m store, 'l ListStruct) state" where
  "List_DeepCopyInto copy_meta copy_list_meta src =
     (let out = src in do {
        list_meta \<leftarrow> copy_list_meta (pl_ListMeta src);
        let out = out\<lparr>pl_ListMeta := list_meta\<rparr>;
        items \<leftarrow> copy_slice copy_meta (pl_Items src);
        ret (if pl_Items src \<noteq> None then out\<lparr>pl_Items := items\<rparr> else out)
      })"

text \<open>\<open>DeepCopyObject\<close> of a pointer to either, nil included.\<close>

definition Job_DeepCopyObject :: "('m \<Rightarrow> ('m store, 'm) state) \<Rightarrow> 'm JobStruct option \<Rightarrow> ('m store, 'm JobStruct option) state" where
  "Job_DeepCopyObject copy_meta p =
     (case p of None \<Rightarrow> ret None | Some j \<Rightarrow> do { out \<leftarrow> Job_DeepCopyInto copy_meta j; ret (Some out) })"

definition List_DeepCopyObject :: "('m \<Rightarrow> ('m store, 'm) state) \<Rightarrow> ('l \<Rightarrow> ('m store, 'l) state) \<Rightarrow> 'l ListStruct option
    \<Rightarrow> ('m store, 'l ListStruct option) state" where
  "List_DeepCopyObject copy_meta copy_list_meta p =
     (case p of None \<Rightarrow> ret None | Some l \<Rightarrow> do { out \<leftarrow> List_DeepCopyInto copy_meta copy_list_meta l; ret (Some out) })"

section \<open>What structs denote\<close>

definition points_to :: "('m cell \<Rightarrow> 'b option) \<Rightarrow> 'b \<Rightarrow> 'm store \<Rightarrow> addr option \<Rightarrow> 'b option" where
  "points_to contents nil s p = (case p of None \<Rightarrow> Some nil | Some a \<Rightarrow> if a < limit s then Option.bind (cells s a) contents else None)"

fun time_in :: "'m cell \<Rightarrow> time option option" where
  "time_in (TimeCell t) = Some (Some t)"
| "time_in _ = None"

fun conditions_in :: "'m cell \<Rightarrow> Condition list option" where
  "conditions_in (ConditionsCell cs) = Some cs"
| "conditions_in _ = None"

fun map_in :: "'m cell \<Rightarrow> (string \<rightharpoonup> string) option" where
  "map_in (MapCell m) = Some m"
| "map_in _ = None"

definition status_of :: "'m store \<Rightarrow> StatusStruct \<Rightarrow> RemediationJobStatus option" where
  "status_of s p =
     Option.bind (points_to time_in None s (ps_DispatchedAt p)) (\<lambda>dispatched.
     Option.bind (points_to time_in None s (ps_CompletedAt p)) (\<lambda>completed.
     Option.bind (points_to conditions_in [] s (ps_Conditions p)) (\<lambda>conditions.
     map_option (\<lambda>merged. \<lparr>st_Phase = ps_Phase p, st_JobRef = ps_JobRef p, st_PRRef = ps_PRRef p,
         st_DispatchedAt = dispatched, st_CompletedAt = completed, st_Message = ps_Message p,
         st_RetryCount = ps_RetryCount p, st_Conditions = conditions, st_CorrelationGroupID = ps_CorrelationGroupID p,
         st_SinkRef = ps_SinkRef p, st_PRMerged = ps_PRMerged p, st_PRMergedAt = merged\<rparr>)
       (points_to time_in None s (ps_PRMergedAt p)))))"

definition job_of :: "('m store \<Rightarrow> 'm \<Rightarrow> ObjectMeta option) \<Rightarrow> 'm store \<Rightarrow> 'm JobStruct \<Rightarrow> RemediationJob option" where
  "job_of meta_of s p =
     Option.bind (meta_of s (pj_Meta p)) (\<lambda>m.
     map_option (\<lambda>st. \<lparr>rj_Meta = m, rj_Spec = pj_Spec p, rj_Status = st\<rparr>) (status_of s (pj_Status p)))"

definition items_of :: "('m store \<Rightarrow> 'm \<Rightarrow> ObjectMeta option) \<Rightarrow> 'm store \<Rightarrow> 'm JobStruct list \<Rightarrow> RemediationJob list option" where
  "items_of meta_of s js = those (map (job_of meta_of s) js)"

fun items_in :: "'m cell option \<Rightarrow> 'm JobStruct list option" where
  "items_in (Some (ItemsCell js)) = Some js"
| "items_in _ = None"

definition slice_of :: "('m store \<Rightarrow> 'm \<Rightarrow> ObjectMeta option) \<Rightarrow> 'm store \<Rightarrow> addr option \<Rightarrow> RemediationJob list option" where
  "slice_of meta_of s p =
     (case p of
        None \<Rightarrow> Some []
      | Some a \<Rightarrow> if a < limit s then Option.bind (items_in (cells s a)) (items_of meta_of s) else None)"

definition list_of :: "('m store \<Rightarrow> 'm \<Rightarrow> ObjectMeta option) \<Rightarrow> ('m store \<Rightarrow> 'l \<Rightarrow> 'v option) \<Rightarrow> 'm store \<Rightarrow> 'l ListStruct
    \<Rightarrow> ('v \<times> RemediationJob list) option" where
  "list_of meta_of list_meta_of s p =
     Option.bind (list_meta_of s (pl_ListMeta p)) (\<lambda>v. map_option (Pair v) (slice_of meta_of s (pl_Items p)))"

text \<open>The addresses that a struct reaches.\<close>

definition reach_status :: "StatusStruct \<Rightarrow> addr set" where
  "reach_status p = set_option (ps_DispatchedAt p) \<union> set_option (ps_CompletedAt p) \<union> set_option (ps_Conditions p)
     \<union> set_option (ps_PRMergedAt p)"

definition reach_job :: "('m store \<Rightarrow> 'm \<Rightarrow> addr set) \<Rightarrow> 'm store \<Rightarrow> 'm JobStruct \<Rightarrow> addr set" where
  "reach_job reach_meta s p = reach_meta s (pj_Meta p) \<union> reach_status (pj_Status p)"

definition reach_items :: "('m store \<Rightarrow> 'm \<Rightarrow> addr set) \<Rightarrow> 'm store \<Rightarrow> 'm JobStruct list \<Rightarrow> addr set" where
  "reach_items reach_meta s js = (\<Union>j \<in> set js. reach_job reach_meta s j)"

definition reach_slice :: "('m store \<Rightarrow> 'm \<Rightarrow> addr set) \<Rightarrow> 'm store \<Rightarrow> addr option \<Rightarrow> addr set" where
  "reach_slice reach_meta s p =
     (case p of
        None \<Rightarrow> {}
      | Some a \<Rightarrow> insert a (case items_in (cells s a) of None \<Rightarrow> {} | Some js \<Rightarrow> reach_items reach_meta s js))"

definition reach_list :: "('m store \<Rightarrow> 'm \<Rightarrow> addr set) \<Rightarrow> ('m store \<Rightarrow> 'l \<Rightarrow> addr set) \<Rightarrow> 'm store \<Rightarrow> 'l ListStruct \<Rightarrow> addr set" where
  "reach_list reach_meta reach_list_meta s p = reach_list_meta s (pl_ListMeta p) \<union> reach_slice reach_meta s (pl_Items p)"

section \<open>The contract of a copy\<close>

definition extends :: "'m store \<Rightarrow> 'm store \<Rightarrow> bool" where
  "extends s s' = (limit s \<le> limit s' \<and> (\<forall>a < limit s. cells s' a = cells s a))"

text \<open>A later store that agrees with an earlier one on a set of addresses.\<close>

definition agree :: "addr set \<Rightarrow> 'm store \<Rightarrow> 'm store \<Rightarrow> bool" where
  "agree A s t = (limit s \<le> limit t \<and> (\<forall>a \<in> A. cells t a = cells s a))"

text \<open>
  A copy extends the store and reaches only addresses that are new; what a struct denotes depends on
  the addresses that it reaches, and these are allocated.
\<close>

locale copier =
  fixes copy :: "'a \<Rightarrow> ('m store, 'a) state" and denotes :: "'m store \<Rightarrow> 'a \<Rightarrow> 'b option" and reach :: "'m store \<Rightarrow> 'a \<Rightarrow> addr set"
  assumes copies: "denotes s x = Some v \<Longrightarrow>
      wp (copy x) (\<lambda>y s'. extends s s' \<and> denotes s' y = Some v \<and> reach s' y \<subseteq> {limit s..<limit s'}) s"
    and local: "denotes s x = Some v \<Longrightarrow> agree (reach s x) s t \<Longrightarrow> denotes t x = Some v \<and> reach t x = reach s x"
    and allocated: "denotes s x = Some v \<Longrightarrow> reach s x \<subseteq> {..<limit s}"
begin

lemma kept:
  assumes "denotes s x = Some v" "extends s s'"
  shows "denotes s' x = Some v \<and> reach s' x = reach s x"
proof (rule local [OF assms(1)])
  show "agree (reach s x) s s'" using allocated [OF assms(1)] assms(2) unfolding agree_def extends_def by blast
qed

text \<open>The copy of an older value, made in a later store.\<close>

lemma copies_later:
  assumes "denotes s0 x = Some v" "extends s0 s"
  shows "wp (copy x) (\<lambda>y s'. extends s s' \<and> extends s0 s' \<and> denotes s' y = Some v \<and> reach s' y \<subseteq> {limit s0..<limit s'}) s"
  by (rule wp_mono [OF copies [OF conjunct1 [OF kept [OF assms]]]]) (use assms(2) in \<open>fastforce simp: extends_def\<close>)

text \<open>A copy made in an earlier store stays one.\<close>

lemma copy_kept:
  assumes "denotes s y = Some v" "reach s y \<subseteq> {n..<limit s}" "extends s s'"
  shows "denotes s' y = Some v \<and> reach s' y \<subseteq> {n..<limit s'}"
  using kept [OF assms(1,3)] assms(2,3) by (fastforce simp: extends_def)

text \<open>Copy and original are independent: writes to what one of them reaches do not change the other.\<close>

lemma independent:
  assumes "denotes s x = Some v"
  shows "wp (copy x) (\<lambda>y s'. denotes s' y = Some v \<and> reach s' x \<inter> reach s' y = {}
    \<and> (\<forall>t. agree ({..<limit s'} - reach s' x) s' t \<longrightarrow> denotes t y = Some v) \<and> (\<forall>t. agree ({..<limit s'} - reach s' y) s' t \<longrightarrow> denotes t x = Some v)) s"
proof (rule wp_mono [OF copies [OF assms]])
  fix y s' assume c: "extends s s' \<and> denotes s' y = Some v \<and> reach s' y \<subseteq> {limit s..<limit s'}"
  then have x: "denotes s' x = Some v" "reach s' x \<subseteq> {..<limit s}" using kept [OF assms] allocated [OF assms] by auto
  then have disj: "reach s' x \<inter> reach s' y = {}" using c by fastforce
  have in_limit: "reach s' x \<subseteq> {..<limit s'}" "reach s' y \<subseteq> {..<limit s'}" using allocated [of s'] x(1) c by blast+
  have "denotes t y = Some v" if "agree ({..<limit s'} - reach s' x) s' t" for t
    using local [of s' y v t] c disj in_limit that unfolding agree_def by blast
  moreover have "denotes t x = Some v" if "agree ({..<limit s'} - reach s' y) s' t" for t
    using local [OF x(1), of t] disj in_limit that unfolding agree_def by blast
  ultimately show "denotes s' y = Some v \<and> reach s' x \<inter> reach s' y = {}
      \<and> (\<forall>t. agree ({..<limit s'} - reach s' x) s' t \<longrightarrow> denotes t y = Some v) \<and> (\<forall>t. agree ({..<limit s'} - reach s' y) s' t \<longrightarrow> denotes t x = Some v)"
    using c disj by blast
qed

end

lemma extends_refl [simp]: "extends s s"
  by (simp add: extends_def)

lemma extends_trans: "extends s t \<Longrightarrow> extends t u \<Longrightarrow> extends s u"
  by (simp add: extends_def)

lemma wp_allocate [wp_simps]:
  "wp (allocate c) Q s = Q (limit s) (s\<lparr>cells := (cells s)(limit s := Some c), limit := limit s + 1\<rparr>)"
  by (simp add: allocate_def wp_def)

section \<open>Pointers\<close>

interpretation pointer: copier copy_pointer "points_to contents nil" "\<lambda>_. set_option"
  for contents :: "'m cell \<Rightarrow> 'b option" and nil :: 'b
proof
  fix s :: "'m store" and x v
  assume d: "points_to contents nil s x = Some v"
  show "wp (copy_pointer x) (\<lambda>y s'. extends s s' \<and> points_to contents nil s' y = Some v \<and> set_option y \<subseteq> {limit s..<limit s'}) s"
    using d by (auto simp: copy_pointer_def points_to_def wp_simps extends_def split: option.splits if_splits)
  show "points_to contents nil t x = Some v \<and> set_option x = set_option x" if "agree (set_option x) s t" for t
    using d that by (auto simp: points_to_def agree_def split: option.splits if_splits)
  show "set_option x \<subseteq> {..<limit s}" using d by (auto simp: points_to_def split: option.splits if_splits)
qed

section \<open>Copies of structs from copies of their fields\<close>

definition copy_both :: "('a \<Rightarrow> ('m store, 'a) state) \<Rightarrow> ('b \<Rightarrow> ('m store, 'b) state) \<Rightarrow> 'a \<times> 'b \<Rightarrow> ('m store, 'a \<times> 'b) state" where
  "copy_both c d = (\<lambda>(x, y). do { x' \<leftarrow> c x; y' \<leftarrow> d y; ret (x', y') })"

definition denote_both :: "('m store \<Rightarrow> 'a \<Rightarrow> 'v option) \<Rightarrow> ('m store \<Rightarrow> 'b \<Rightarrow> 'w option) \<Rightarrow> 'm store \<Rightarrow> 'a \<times> 'b \<Rightarrow> ('v \<times> 'w) option" where
  "denote_both d e s = (\<lambda>(x, y). Option.bind (d s x) (\<lambda>v. map_option (Pair v) (e s y)))"

definition reach_both :: "('m store \<Rightarrow> 'a \<Rightarrow> addr set) \<Rightarrow> ('m store \<Rightarrow> 'b \<Rightarrow> addr set) \<Rightarrow> 'm store \<Rightarrow> 'a \<times> 'b \<Rightarrow> addr set" where
  "reach_both r q s = (\<lambda>(x, y). r s x \<union> q s y)"

lemma denote_both_Some: "denote_both d e s (x, y) = Some (v, w) \<longleftrightarrow> d s x = Some v \<and> e s y = Some w"
  by (auto simp: denote_both_def bind_eq_Some_conv)

lemma both_copier:
  assumes c: "copier c d r" and e: "copier c' d' r'"
  shows "copier (copy_both c c') (denote_both d d') (reach_both r r')"
proof
  fix s x v assume d: "denote_both d d' s x = Some v"
  obtain x1 x2 v1 v2 where x: "x = (x1, x2)" "v = (v1, v2)" by (cases x, cases v) blast
  with d have parts: "d s x1 = Some v1" "d' s x2 = Some v2" by (simp_all add: denote_both_Some)
  show "denote_both d d' t x = Some v \<and> reach_both r r' t x = reach_both r r' s x" if "agree (reach_both r r' s x) s t" for t
    using that copier.local [OF c parts(1), of t] copier.local [OF e parts(2), of t]
    by (simp add: x denote_both_Some reach_both_def agree_def)
  show "reach_both r r' s x \<subseteq> {..<limit s}"
    using copier.allocated [OF c parts(1)] copier.allocated [OF e parts(2)] by (simp add: x reach_both_def)
  show "wp (copy_both c c' x) (\<lambda>y s'. extends s s' \<and> denote_both d d' s' y = Some v \<and> reach_both r r' s' y \<subseteq> {limit s..<limit s'}) s"
    unfolding x copy_both_def prod.case wp_bind
  proof (rule wp_mono [OF copier.copies [OF c parts(1)]])
    fix y1 s1 assume 1: "extends s s1 \<and> d s1 y1 = Some v1 \<and> r s1 y1 \<subseteq> {limit s..<limit s1}"
    have last: "extends s s2 \<and> denote_both d d' s2 (y1, y2) = Some (v1, v2) \<and> reach_both r r' s2 (y1, y2) \<subseteq> {limit s..<limit s2}"
      if "extends s1 s2 \<and> extends s s2 \<and> d' s2 y2 = Some v2 \<and> r' s2 y2 \<subseteq> {limit s..<limit s2}" for y2 s2
      using that 1 copier.copy_kept [OF c, of s1 y1 v1 "limit s" s2] by (simp add: denote_both_Some reach_both_def)
    show "wp (c' x2) (\<lambda>y2. wp (ret (y1, y2)) (\<lambda>y s'. extends s s' \<and> denote_both d d' s' y = Some (v1, v2)
        \<and> reach_both r r' s' y \<subseteq> {limit s..<limit s'})) s1"
      by (rule wp_mono [OF copier.copies_later [OF e parts(2)]]) (use 1 last in \<open>simp_all add: wp_return\<close>)
  qed
qed

text \<open>A struct is the tuple of its fields with pointers, and its other fields.\<close>

lemma struct_copier:
  assumes c: "copier c d r"
    and copy: "\<And>x. copy x = do { y \<leftarrow> c (get_ptrs x); ret (put x y) }"
    and denotes: "\<And>s x. denotes s x = map_option (build x) (d s (get_ptrs x))" and reach: "\<And>s x. reach s x = r s (get_ptrs x)"
    and struct: "\<And>x y. get_ptrs (put x y) = y" "\<And>x y. build (put x y) = build x"
  shows "copier copy denotes reach"
proof
  fix s x v assume "denotes s x = Some v"
  then obtain u where u: "d s (get_ptrs x) = Some u" "v = build x u" by (auto simp: denotes)
  show "wp (copy x) (\<lambda>y s'. extends s s' \<and> denotes s' y = Some v \<and> reach s' y \<subseteq> {limit s..<limit s'}) s"
    unfolding copy wp_bind wp_return denotes reach struct u(2)
    by (rule wp_mono [OF copier.copies [OF c u(1)]]) simp
  show "denotes t x = Some v \<and> reach t x = reach s x" if "agree (reach s x) s t" for t
    using copier.local [OF c u(1), of t] that by (simp add: denotes reach u)
  show "reach s x \<subseteq> {..<limit s}" using copier.allocated [OF c u(1)] by (simp add: reach)
qed

section \<open>A job\<close>

text \<open>The result of the chain of assignments in one record.\<close>

lemma Job_DeepCopyInto_flat:
  "Job_DeepCopyInto copy_meta src = do {
     meta \<leftarrow> copy_meta (pj_Meta src);
     dispatched \<leftarrow> copy_pointer (ps_DispatchedAt (pj_Status src));
     completed \<leftarrow> copy_pointer (ps_CompletedAt (pj_Status src));
     conditions \<leftarrow> copy_pointer (ps_Conditions (pj_Status src));
     merged \<leftarrow> copy_pointer (ps_PRMergedAt (pj_Status src));
     ret \<lparr>pj_Meta = meta, pj_Spec = pj_Spec src, pj_Status = (pj_Status src)\<lparr>ps_DispatchedAt := dispatched,
       ps_CompletedAt := completed, ps_Conditions := conditions, ps_PRMergedAt := merged\<rparr>\<rparr>
   }"
proof -
  have nil: "copy_pointer None = ret None" by (simp add: copy_pointer_def)
  obtain m sp ph jr pr d c ms rc cs gid sk mg ma where src: "src = \<lparr>pj_Meta = m, pj_Spec = sp, pj_Status =
      \<lparr>ps_Phase = ph, ps_JobRef = jr, ps_PRRef = pr, ps_DispatchedAt = d, ps_CompletedAt = c, ps_Message = ms, ps_RetryCount = rc,
       ps_Conditions = cs, ps_CorrelationGroupID = gid, ps_SinkRef = sk, ps_PRMerged = mg, ps_PRMergedAt = ma\<rparr>\<rparr>"
    by (metis JobStruct.cases StatusStruct.cases)
  show ?thesis
    unfolding Job_DeepCopyInto_def Let_def src
    by (cases d; cases c; cases cs; cases ma) (simp_all add: nil)
qed

definition job_fields :: "'m JobStruct \<Rightarrow> 'm \<times> addr option \<times> addr option \<times> addr option \<times> addr option" where
  "job_fields p = (pj_Meta p, ps_DispatchedAt (pj_Status p), ps_CompletedAt (pj_Status p), ps_Conditions (pj_Status p), ps_PRMergedAt (pj_Status p))"

lemma job_copier:
  assumes "copier copy_meta meta_of reach_meta"
  shows "copier (Job_DeepCopyInto copy_meta) (job_of meta_of) (reach_job reach_meta)"
proof (rule struct_copier [where get_ptrs = job_fields])
  show "copier (copy_both copy_meta (copy_both copy_pointer (copy_both copy_pointer (copy_both copy_pointer copy_pointer))))
      (denote_both meta_of (denote_both (points_to time_in None) (denote_both (points_to time_in None)
        (denote_both (points_to conditions_in []) (points_to time_in None)))))
      (reach_both reach_meta (reach_both (\<lambda>_. set_option) (reach_both (\<lambda>_. set_option) (reach_both (\<lambda>_. set_option) (\<lambda>_. set_option)))))"
    by (intro both_copier assms pointer.copier_axioms)
  show "Job_DeepCopyInto copy_meta x = do {
      y \<leftarrow> copy_both copy_meta (copy_both copy_pointer (copy_both copy_pointer (copy_both copy_pointer copy_pointer))) (job_fields x);
      ret ((\<lambda>x (m, d, c, cs, ma). \<lparr>pj_Meta = m, pj_Spec = pj_Spec x, pj_Status = (pj_Status x)\<lparr>ps_DispatchedAt := d,
         ps_CompletedAt := c, ps_Conditions := cs, ps_PRMergedAt := ma\<rparr>\<rparr>) x y) }" for x
    by (simp add: Job_DeepCopyInto_flat copy_both_def job_fields_def)
  show "job_of meta_of s x = map_option ((\<lambda>x (m, d, c, cs, ma). \<lparr>rj_Meta = m, rj_Spec = pj_Spec x, rj_Status =
      \<lparr>st_Phase = ps_Phase (pj_Status x), st_JobRef = ps_JobRef (pj_Status x), st_PRRef = ps_PRRef (pj_Status x),
       st_DispatchedAt = d, st_CompletedAt = c, st_Message = ps_Message (pj_Status x), st_RetryCount = ps_RetryCount (pj_Status x),
       st_Conditions = cs, st_CorrelationGroupID = ps_CorrelationGroupID (pj_Status x), st_SinkRef = ps_SinkRef (pj_Status x),
       st_PRMerged = ps_PRMerged (pj_Status x), st_PRMergedAt = ma\<rparr>\<rparr>) x)
    (denote_both meta_of (denote_both (points_to time_in None) (denote_both (points_to time_in None)
        (denote_both (points_to conditions_in []) (points_to time_in None)))) s (job_fields x))" for s x
    by (simp add: job_of_def status_of_def denote_both_def job_fields_def option.map_comp comp_def split: bind_split)
  show "reach_job reach_meta s x = reach_both reach_meta (reach_both (\<lambda>_. set_option) (reach_both (\<lambda>_. set_option)
      (reach_both (\<lambda>_. set_option) (\<lambda>_. set_option)))) s (job_fields x)" for s x
    by (simp add: reach_job_def reach_status_def reach_both_def job_fields_def Un_assoc)
qed (auto simp: job_fields_def)

section \<open>A list of jobs\<close>

lemma items_of_Cons:
  "items_of meta_of s (j # js) = Some vs \<longleftrightarrow> (\<exists>v ws. vs = v # ws \<and> job_of meta_of s j = Some v \<and> items_of meta_of s js = Some ws)"
  by (auto simp: items_of_def split: option.splits)

lemma items_local:
  assumes "copier copy_meta meta_of reach_meta"
  shows "items_of meta_of s x = Some v \<Longrightarrow> reach_items reach_meta s x \<subseteq> {..<limit s}"
    and "items_of meta_of s x = Some v \<Longrightarrow> agree (reach_items reach_meta s x) s t \<Longrightarrow>
      items_of meta_of t x = Some v \<and> reach_items reach_meta t x = reach_items reach_meta s x"
proof -
  note job = job_copier [OF assms]
  show "items_of meta_of s x = Some v \<Longrightarrow> reach_items reach_meta s x \<subseteq> {..<limit s}"
    by (induction x arbitrary: v) (auto simp: items_of_Cons reach_items_def dest!: copier.allocated [OF job])
  show "items_of meta_of s x = Some v \<Longrightarrow> agree (reach_items reach_meta s x) s t \<Longrightarrow>
      items_of meta_of t x = Some v \<and> reach_items reach_meta t x = reach_items reach_meta s x"
  proof (induction x arbitrary: v)
    case (Cons j js)
    then obtain w ws where w: "v = w # ws" "job_of meta_of s j = Some w" "items_of meta_of s js = Some ws" by (auto simp: items_of_Cons)
    with Cons.prems(2) Cons.IH [OF w(3)] copier.local [OF job w(2), of t] show ?case
      by (simp add: items_of_Cons reach_items_def agree_def)
  qed (simp_all add: items_of_def reach_items_def)
qed

lemma items_copier:
  assumes "copier copy_meta meta_of reach_meta"
  shows "copier (copy_items copy_meta) (items_of meta_of) (reach_items reach_meta)"
proof
  note job = job_copier [OF assms] and alloc = items_local(1) [OF assms] and loc = items_local(2) [OF assms]
  fix s x v
  show "items_of meta_of s x = Some v \<Longrightarrow> reach_items reach_meta s x \<subseteq> {..<limit s}" by (rule alloc)
  show "items_of meta_of s x = Some v \<Longrightarrow> agree (reach_items reach_meta s x) s t \<Longrightarrow>
      items_of meta_of t x = Some v \<and> reach_items reach_meta t x = reach_items reach_meta s x" for t by (rule loc)
  show "items_of meta_of s x = Some v \<Longrightarrow> wp (copy_items copy_meta x) (\<lambda>y s'. extends s s' \<and> items_of meta_of s' y = Some v
      \<and> reach_items reach_meta s' y \<subseteq> {limit s..<limit s'}) s"
  proof (induction x arbitrary: s v)
    case (Cons j js)
    then obtain w ws where w: "v = w # ws" "job_of meta_of s j = Some w" "items_of meta_of s js = Some ws" by (auto simp: items_of_Cons)
    show ?case
      unfolding copy_items.simps wp_bind
    proof (rule wp_mono [OF copier.copies [OF job w(2)]])
      fix y s1 assume y: "extends s s1 \<and> job_of meta_of s1 y = Some w \<and> reach_job reach_meta s1 y \<subseteq> {limit s..<limit s1}"
      have "agree (reach_items reach_meta s js) s s1" using alloc [OF w(3)] y unfolding agree_def extends_def by blast
      then have js: "items_of meta_of s1 js = Some ws" using loc [OF w(3)] by blast
      have last: "extends s s2 \<and> items_of meta_of s2 (y # ys) = Some v \<and> reach_items reach_meta s2 (y # ys) \<subseteq> {limit s..<limit s2}"
        if "extends s1 s2 \<and> items_of meta_of s2 ys = Some ws \<and> reach_items reach_meta s2 ys \<subseteq> {limit s1..<limit s2}" for ys s2
      proof -
        have "limit s \<le> limit s1" using y by (simp add: extends_def)
        with that y copier.copy_kept [OF job, of s1 y w "limit s" s2] show ?thesis
          by (fastforce simp: items_of_Cons w(1) reach_items_def intro: extends_trans [of s s1 s2])
      qed
      show "wp (copy_items copy_meta js) (\<lambda>ys. wp (ret (y # ys)) (\<lambda>y s'. extends s s' \<and> items_of meta_of s' y = Some v
          \<and> reach_items reach_meta s' y \<subseteq> {limit s..<limit s'})) s1"
        unfolding wp_return by (rule wp_mono [OF Cons.IH [OF js]]) (rule last)
    qed
  qed (simp add: items_of_def reach_items_def wp_return)
qed

lemma slice_copier:
  assumes "copier copy_meta meta_of reach_meta"
  shows "copier (copy_slice copy_meta) (slice_of meta_of) (reach_slice reach_meta)"
proof
  note items = items_copier [OF assms]
  fix s x v assume "slice_of meta_of s x = Some v"
  then consider "x = None" "v = []"
    | a js where "x = Some a" "a < limit s" "cells s a = Some (ItemsCell js)" "items_of meta_of s js = Some v"
    by (auto simp: slice_of_def bind_eq_Some_conv split: option.splits if_splits elim!: items_in.elims)
  note cases = this
  show "slice_of meta_of t x = Some v \<and> reach_slice reach_meta t x = reach_slice reach_meta s x" if t: "agree (reach_slice reach_meta s x) s t" for t
  proof (cases rule: cases)
    case (2 a js)
    with t copier.local [OF items 2(4), of t] show ?thesis by (auto simp: slice_of_def reach_slice_def agree_def)
  qed (simp add: slice_of_def reach_slice_def)
  show "reach_slice reach_meta s x \<subseteq> {..<limit s}"
  proof (cases rule: cases)
    case (2 a js)
    with copier.allocated [OF items 2(4)] show ?thesis by (simp add: reach_slice_def)
  qed (simp add: reach_slice_def)
  show "wp (copy_slice copy_meta x) (\<lambda>y s'. extends s s' \<and> slice_of meta_of s' y = Some v
      \<and> reach_slice reach_meta s' y \<subseteq> {limit s..<limit s'}) s"
  proof (cases rule: cases)
    case 1
    then show ?thesis by (simp add: copy_slice_def wp_return slice_of_def reach_slice_def)
  next
    case (2 a js)
    let ?put = "\<lambda>ys s. s\<lparr>cells := (cells s)(limit s := Some (ItemsCell ys)), limit := limit s + 1\<rparr>"
    have "extends s (?put ys s1) \<and> slice_of meta_of (?put ys s1) (Some (limit s1)) = Some v
        \<and> reach_slice reach_meta (?put ys s1) (Some (limit s1)) \<subseteq> {limit s..<limit s1 + 1}"
      if c: "extends s s1 \<and> items_of meta_of s1 ys = Some v \<and> reach_items reach_meta s1 ys \<subseteq> {limit s..<limit s1}" for ys s1
    proof -
      have e: "extends s1 (?put ys s1)" by (simp add: extends_def)
      with c copier.copy_kept [OF items, of s1 ys v "limit s" "?put ys s1"] show ?thesis
        by (auto simp: slice_of_def reach_slice_def extends_def)
    qed
    then show ?thesis
      using 2 by (auto simp: copy_slice_def wp_simps intro!: wp_mono [OF copier.copies [OF items 2(4)]])
  qed
qed

lemma list_copier:
  assumes "copier copy_meta meta_of reach_meta" "copier copy_list_meta list_meta_of reach_list_meta"
  shows "copier (List_DeepCopyInto copy_meta copy_list_meta) (list_of meta_of list_meta_of) (reach_list reach_meta reach_list_meta)"
proof (rule struct_copier [where get_ptrs = "\<lambda>l. (pl_ListMeta l, pl_Items l)" and put = "\<lambda>l (m, i). \<lparr>pl_ListMeta = m, pl_Items = i\<rparr>"])
  show "copier (copy_both copy_list_meta (copy_slice copy_meta)) (denote_both list_meta_of (slice_of meta_of))
      (reach_both reach_list_meta (reach_slice reach_meta))"
    by (intro both_copier slice_copier assms)
  show "List_DeepCopyInto copy_meta copy_list_meta l = do { y \<leftarrow> copy_both copy_list_meta (copy_slice copy_meta) (pl_ListMeta l, pl_Items l);
      ret ((\<lambda>l (m, i). \<lparr>pl_ListMeta = m, pl_Items = i\<rparr>) l y) }" for l
    by (cases l; cases "pl_Items l") (simp_all add: List_DeepCopyInto_def copy_both_def copy_slice_def)
  show "list_of meta_of list_meta_of s l = map_option ((\<lambda>l. id) l) (denote_both list_meta_of (slice_of meta_of) s (pl_ListMeta l, pl_Items l))" for s l
    by (simp add: list_of_def denote_both_def option.map_id)
qed (auto simp: reach_list_def reach_both_def)

section \<open>Metadata with two maps\<close>

text \<open>
  The deep copy of metadata that copies the maps of the labels and the annotations and takes the other
  fields over, as the reconcilers need it: an instance of the contract.
\<close>

record MetaStruct =
  pm_Values :: ObjectMeta
  pm_Labels :: "addr option"
  pm_Annotations :: "addr option"

definition copy_maps :: "MetaStruct \<Rightarrow> (MetaStruct store, MetaStruct) state" where
  "copy_maps m = do {
     labels \<leftarrow> copy_pointer (pm_Labels m);
     annotations \<leftarrow> copy_pointer (pm_Annotations m);
     ret (m\<lparr>pm_Labels := labels, pm_Annotations := annotations\<rparr>)
   }"

definition maps_of :: "MetaStruct store \<Rightarrow> MetaStruct \<Rightarrow> ObjectMeta option" where
  "maps_of s m =
     Option.bind (points_to map_in Map.empty s (pm_Labels m)) (\<lambda>labels.
     map_option (\<lambda>annotations. (pm_Values m)\<lparr>om_Labels := labels, om_Annotations := annotations\<rparr>)
       (points_to map_in Map.empty s (pm_Annotations m)))"

definition reach_maps :: "MetaStruct store \<Rightarrow> MetaStruct \<Rightarrow> addr set" where
  "reach_maps s m = set_option (pm_Labels m) \<union> set_option (pm_Annotations m)"

interpretation maps: copier copy_maps maps_of reach_maps
proof (rule struct_copier [where get_ptrs = "\<lambda>m. (pm_Labels m, pm_Annotations m)"])
  show "copier (copy_both copy_pointer copy_pointer) (denote_both (points_to map_in Map.empty) (points_to map_in Map.empty))
      (reach_both (\<lambda>_. set_option) (\<lambda>_. set_option))"
    by (intro both_copier pointer.copier_axioms)
  show "copy_maps m = do { y \<leftarrow> copy_both copy_pointer copy_pointer (pm_Labels m, pm_Annotations m);
      ret ((\<lambda>m (l, a). m\<lparr>pm_Labels := l, pm_Annotations := a\<rparr>) m y) }" for m
    by (simp add: copy_maps_def copy_both_def)
  show "maps_of s m = map_option ((\<lambda>m (l, a). (pm_Values m)\<lparr>om_Labels := l, om_Annotations := a\<rparr>) m)
      (denote_both (points_to map_in Map.empty) (points_to map_in Map.empty) s (pm_Labels m, pm_Annotations m))" for s m
    by (simp add: maps_of_def denote_both_def option.map_comp comp_def split: bind_split)
qed (auto simp: reach_maps_def reach_both_def)

interpretation job: copier "Job_DeepCopyInto copy_maps" "job_of maps_of" "reach_job reach_maps"
  by (rule job_copier) (rule maps.copier_axioms)

text \<open>The metadata of a list: values, and a pointer to the number of items that remain.\<close>

record ListMetaStruct =
  plm_ResourceVersion :: string
  plm_Continue :: string
  plm_RemainingItemCount :: "addr option"

fun count_in :: "'m cell \<Rightarrow> int option option" where
  "count_in (CountCell n) = Some (Some n)"
| "count_in _ = None"

definition copy_list_meta :: "ListMetaStruct \<Rightarrow> ('m store, ListMetaStruct) state" where
  "copy_list_meta m = do {
     remaining \<leftarrow> copy_pointer (plm_RemainingItemCount m);
     ret (m\<lparr>plm_RemainingItemCount := remaining\<rparr>)
   }"

definition list_meta_of :: "'m store \<Rightarrow> ListMetaStruct \<Rightarrow> (string \<times> string \<times> int option) option" where
  "list_meta_of s m = map_option (\<lambda>n. (plm_ResourceVersion m, plm_Continue m, n)) (points_to count_in None s (plm_RemainingItemCount m))"

definition reach_list_meta :: "'m store \<Rightarrow> ListMetaStruct \<Rightarrow> addr set" where
  "reach_list_meta s m = set_option (plm_RemainingItemCount m)"

interpretation list_meta: copier copy_list_meta list_meta_of reach_list_meta
  by (rule struct_copier [where get_ptrs = plm_RemainingItemCount and put = "\<lambda>m p. m\<lparr>plm_RemainingItemCount := p\<rparr>"
        and build = "\<lambda>m n. (plm_ResourceVersion m, plm_Continue m, n)", OF pointer.copier_axioms])
    (simp_all add: copy_list_meta_def list_meta_of_def reach_list_meta_def)

interpretation jobs: copier "List_DeepCopyInto copy_maps copy_list_meta" "list_of maps_of list_meta_of" "reach_list reach_maps reach_list_meta"
  by (rule list_copier) (rule maps.copier_axioms list_meta.copier_axioms)+

section \<open>Properties\<close>

text \<open>
  C27. The base of a patch survives the changes to the object: the deep copy of a \<open>RemediationJob\<close> denotes
  the value that the copy on values gives, it shares no address with the original, and whatever is
  then written through the pointers, slices and maps of one of the two, in any later store, the other still
  denotes the old value. Assumed is the same of the deep copy of the metadata.
\<close>

theorem patch_base_independent:
  assumes "copier copy_meta meta_of reach_meta" "job_of meta_of s j = Some v"
  shows "wp (Job_DeepCopyObject copy_meta (Some j)) (\<lambda>p s'. \<exists>j'. p = Some j'
     \<and> job_of meta_of s' j' = DeepCopyObject (Some v) w
     \<and> reach_job reach_meta s' j \<inter> reach_job reach_meta s' j' = {}
     \<and> (\<forall>t. agree ({..<limit s'} - reach_job reach_meta s' j) s' t \<longrightarrow> job_of meta_of t j' = Some v)
     \<and> (\<forall>t. agree ({..<limit s'} - reach_job reach_meta s' j') s' t \<longrightarrow> job_of meta_of t j = Some v)) s"
proof -
  have "DeepCopyInto v w = v"
    by (cases v; cases "rj_Status v") (simp add: DeepCopyInto_def Let_def split: option.split)
  then show ?thesis
    unfolding Job_DeepCopyObject_def option.case wp_bind wp_return DeepCopyObject_def
    by (intro wp_mono [OF copier.independent [OF job_copier [OF assms(1)] assms(2)]]) auto
qed

text \<open>The same of a \<open>RemediationJobList\<close> with all its items.\<close>

lemma list_copy_independent:
  assumes "copier copy_meta meta_of reach_meta" "copier copy_list list_meta reach_meta'" "list_of meta_of list_meta s l = Some v"
  shows "wp (List_DeepCopyObject copy_meta copy_list (Some l)) (\<lambda>p s'. \<exists>l'. p = Some l'
     \<and> list_of meta_of list_meta s' l' = Some v \<and> reach_list reach_meta reach_meta' s' l \<inter> reach_list reach_meta reach_meta' s' l' = {}
     \<and> (\<forall>t. agree ({..<limit s'} - reach_list reach_meta reach_meta' s' l) s' t \<longrightarrow> list_of meta_of list_meta t l' = Some v)
     \<and> (\<forall>t. agree ({..<limit s'} - reach_list reach_meta reach_meta' s' l') s' t \<longrightarrow> list_of meta_of list_meta t l = Some v)) s"
  unfolding List_DeepCopyObject_def option.case wp_bind wp_return
  by (intro wp_mono [OF copier.independent [OF list_copier [OF assms(1,2)] assms(3)]]) auto

text \<open>A job with a label, a condition and two times.\<close>

definition sample_store :: "MetaStruct store" where
  "sample_store = \<lparr>cells = (\<lambda>_. None)(0 := Some (MapCell [''app'' \<mapsto> ''web'']), 1 := Some (ConditionsCell []), 2 := Some (TimeCell 7)), limit = 3\<rparr>"

definition sample_struct :: "MetaStruct JobStruct" where
  "sample_struct = \<lparr>pj_Meta = \<lparr>pm_Values = zero_meta, pm_Labels = Some 0, pm_Annotations = None\<rparr>, pj_Spec = zero_spec,
     pj_Status = \<lparr>ps_Phase = PhaseDispatched, ps_JobRef = [], ps_PRRef = [], ps_DispatchedAt = Some 2, ps_CompletedAt = None,
       ps_Message = [], ps_RetryCount = 0, ps_Conditions = Some 1, ps_CorrelationGroupID = [],
       ps_SinkRef = st_SinkRef zero_status, ps_PRMerged = False, ps_PRMergedAt = None\<rparr>\<rparr>"

theorem patch_base_independent_witness:
  "\<exists>v. job_of maps_of sample_store sample_struct = Some v \<and> rj_Labels v ''app'' = Some ''web''
     \<and> wp (Job_DeepCopyObject copy_maps (Some sample_struct)) (\<lambda>p s'. \<exists>j'. p = Some j'
         \<and> (\<forall>m. job_of maps_of (s'\<lparr>cells := (cells s')(0 := Some (MapCell m))\<rparr>) j' = Some v)) sample_store"
proof -
  obtain v where v: "job_of maps_of sample_store sample_struct = Some v" "rj_Labels v ''app'' = Some ''web''"
    by (simp add: job_of_def maps_of_def status_of_def points_to_def sample_store_def sample_struct_def)
  have reach: "0 \<in> reach_job reach_maps s sample_struct" for s
    by (simp add: reach_job_def reach_maps_def sample_struct_def)
  have "wp (Job_DeepCopyObject copy_maps (Some sample_struct)) (\<lambda>p s'. \<exists>j'. p = Some j'
         \<and> (\<forall>m. job_of maps_of (s'\<lparr>cells := (cells s')(0 := Some (MapCell m))\<rparr>) j' = Some v)) sample_store"
  proof (rule wp_mono [OF patch_base_independent [OF maps.copier_axioms v(1), where w = v]], elim exE conjE)
    fix p s' j'
    assume "p = Some j'" and i: "\<forall>t. agree ({..<limit s'} - reach_job reach_maps s' sample_struct) s' t \<longrightarrow> job_of maps_of t j' = Some v"
    moreover have "agree ({..<limit s'} - reach_job reach_maps s' sample_struct) s' (s'\<lparr>cells := (cells s')(0 := Some (MapCell m))\<rparr>)" for m
      using reach [of s'] by (auto simp: agree_def)
    ultimately show "\<exists>j'. p = Some j' \<and> (\<forall>m. job_of maps_of (s'\<lparr>cells := (cells s')(0 := Some (MapCell m))\<rparr>) j' = Some v)" by blast
  qed
  with v show ?thesis by blast
qed

end
