(* ===== verification/Matching.thy ===== *)
theory Matching
  imports Sanitise
begin

text \<open>
  What it means that a text matches, stated without the matcher. The relation \<open>matched\<close> is the
  language of a regular expression in the textbook sense, a property of the matched text alone;
  the executable matcher \<open>ms\<close> of Go_Text, which follows the order of a backtracking search and
  cuts off empty iterations, is shown to find exactly the texts of the language. The second part
  shows that UTF-8 can be decoded in pieces.
\<close>

section \<open>The language of an expression\<close>

text \<open>\<open>matched r u c\<close>: the text \<open>u\<close> as a whole matches \<open>r\<close>, its groups capturing \<open>c\<close>.\<close>

inductive matched :: "re \<Rightarrow> tok list \<Rightarrow> caps \<Rightarrow> bool" where
  Eps: "matched Eps [] []"
| Cls: "p (fst t) \<Longrightarrow> matched (Cls p) [t] []"
| Seq: "matched a u c \<Longrightarrow> matched b v d \<Longrightarrow> matched (Seq a b) (u @ v) (c @ d)"
| AltL: "matched a u c \<Longrightarrow> matched (Alt a b) u c"
| AltR: "matched b u c \<Longrightarrow> matched (Alt a b) u c"
| StarNil: "matched (Star g a) [] []"
| StarStep: "matched a u c \<Longrightarrow> matched (Star g a) v d \<Longrightarrow> matched (Star g a) (u @ v) (c @ d)"
| Grp: "matched a u c \<Longrightarrow> matched (Grp n a) u (c @ [(n, bytes_of u)])"

inductive_simps matched_Eps [simp]: "matched Eps u c"
inductive_simps matched_Cls [simp]: "matched (Cls p) u c"
inductive_simps matched_Seq: "matched (Seq a b) u c"
inductive_simps matched_Alt [simp]: "matched (Alt a b) u c"
inductive_simps matched_Grp [simp]: "matched (Grp n a) u c"

definition in_language :: "re \<Rightarrow> tok list \<Rightarrow> bool" where
  "in_language r u = (\<exists>c. matched r u c)"

text \<open>The matches of a star: none, or one of the body that consumes something and the rest.\<close>

lemma ms_Star_iff:
  "(c, s') \<in> set (ms (Star g a) s) \<longleftrightarrow> (c = [] \<and> s' = s) \<or>
     (\<exists>c1 s1 c2. (c1, s1) \<in> set (ms a s) \<and> length s1 < length s
        \<and> (c2, s') \<in> set (ms (Star g a) s1) \<and> c = c1 @ c2)"
proof -
  let ?more = "concat (map (\<lambda>(c, s'). if length s' < length s
      then map (\<lambda>(c', s''). (c @ c', s'')) (ms (Star g a) s') else []) (ms a s))"
  have "(c, s') \<in> set ?more \<longleftrightarrow> (\<exists>c1 s1 c2. (c1, s1) \<in> set (ms a s) \<and> length s1 < length s
        \<and> (c2, s') \<in> set (ms (Star g a) s1) \<and> c = c1 @ c2)"
    by (force split: if_splits)
  moreover have "set (ms (Star g a) s) = insert ([], s) (set ?more)"
    by (subst ms.simps(5)) (simp add: Let_def)
  ultimately show ?thesis by auto
qed

text \<open>Every match that the search lists is a match, and captures what the relation says.\<close>

lemma ms_sound: "(c, s') \<in> set (ms r s) \<Longrightarrow> \<exists>u. s = u @ s' \<and> matched r u c"
proof (induction r s arbitrary: c s' rule: ms.induct)
  case (3 a b s)
  from "3.prems" obtain c1 s1 c2 where a: "(c1, s1) \<in> set (ms a s)" and b: "(c2, s') \<in> set (ms b s1)"
    and c: "c = c1 @ c2" by auto
  from "3.IH"(1) [OF a] "3.IH"(2) [OF a refl b] show ?case
    unfolding c by (metis append_assoc matched.Seq)
next
  case (4 a b s)
  then show ?case by simp blast
next
  case (5 g a s)
  from "5.prems" consider "c = []" "s' = s"
    | c1 s1 c2 where "(c1, s1) \<in> set (ms a s)" "length s1 < length s" "(c2, s') \<in> set (ms (Star g a) s1)"
        "c = c1 @ c2"
    using ms_Star_iff [THEN iffD1] by blast
  then show ?case
  proof cases
    case 2
    from "5.IH"(1) [OF 2(1)] "5.IH"(2) [OF 2(1) refl 2(2) 2(3)] show ?thesis
      unfolding 2(4) by (metis append_assoc matched.StarStep)
  qed (use matched.StarNil in blast)
next
  case (6 n a s)
  from "6.prems" obtain c1 where c1: "(c1, s') \<in> set (ms a s)"
    and c: "c = c1 @ [(n, bytes_of (take (length s - length s') s))]" by auto
  from "6.IH" [OF c1] obtain u where u: "s = u @ s'" "matched a u c1" by blast
  then show ?case unfolding c by (intro exI [of _ u]) auto
qed (auto split: list.splits if_splits)

lemma ms_head: "ms r s = (c, s') # hs \<Longrightarrow> \<exists>u. s = u @ s' \<and> matched r u c"
  using ms_sound [of c s' r s] by simp

text \<open>Every match is listed, though an empty iteration of a star may capture something else.\<close>

lemma ms_complete: "matched r u d \<Longrightarrow> \<exists>c. (c, s') \<in> set (ms r (u @ s'))"
proof (induction r u d arbitrary: s' rule: matched.induct)
  case (Seq a u c b v d)
  from Seq.IH(1) [of "v @ s'"] Seq.IH(2) [of s'] show ?case by fastforce
next
  case (StarNil g a)
  have "([], s') \<in> set (ms (Star g a) ([] @ s'))" by (rule ms_Star_iff [THEN iffD2]) simp
  then show ?case ..
next
  case (StarStep a u c g v d)
  from StarStep.IH(2) obtain c2 where c2: "(c2, s') \<in> set (ms (Star g a) (v @ s'))" by blast
  show ?case
  proof (cases "u = []")
    case False
    from StarStep.IH(1) [of "v @ s'"] obtain c1 where "(c1, v @ s') \<in> set (ms a (u @ v @ s'))" by blast
    with c2 False have "(c1 @ c2, s') \<in> set (ms (Star g a) ((u @ v) @ s'))"
      by (intro ms_Star_iff [THEN iffD2] disjI2 exI [of _ c1] exI [of _ "v @ s'"] exI [of _ c2]) auto
    then show ?thesis ..
  qed (use c2 in auto)
qed fastforce+

lemma ms_empty_iff: "ms r s = [] \<longleftrightarrow> (\<nexists>u v. s = u @ v \<and> in_language r u)"
proof -
  have "(\<exists>c s'. (c, s') \<in> set (ms r s)) \<longleftrightarrow> (\<exists>u v. s = u @ v \<and> in_language r u)"
    unfolding in_language_def using ms_sound ms_complete by metis
  moreover have "ms r s \<noteq> [] \<longleftrightarrow> (\<exists>c s'. (c, s') \<in> set (ms r s))"
    by (cases "ms r s") auto
  ultimately show ?thesis by blast
qed

lemma match_toks_iff: "match_toks r s \<longleftrightarrow> (\<exists>u v w. s = u @ v @ w \<and> in_language r v)"
proof (induction s)
  case (Cons t s)
  have "(\<exists>u v w. t # s = u @ v @ w \<and> in_language r v) \<longleftrightarrow>
    (\<exists>v w. t # s = v @ w \<and> in_language r v) \<or> (\<exists>u v w. s = u @ v @ w \<and> in_language r v)"
  proof (rule iffI)
    assume "\<exists>u v w. t # s = u @ v @ w \<and> in_language r v"
    then obtain u v w where "t # s = u @ v @ w" "in_language r v" by blast
    then show "(\<exists>v w. t # s = v @ w \<and> in_language r v) \<or> (\<exists>u v w. s = u @ v @ w \<and> in_language r v)"
      by (cases u) auto
  next
    assume "(\<exists>v w. t # s = v @ w \<and> in_language r v) \<or> (\<exists>u v w. s = u @ v @ w \<and> in_language r v)"
    then show "\<exists>u v w. t # s = u @ v @ w \<and> in_language r v"
      by (metis append_Nil append_Cons)
  qed
  with Cons show ?case by (auto simp: ms_empty_iff)
qed (auto simp: ms_empty_iff)

lemma MatchString_iff: "MatchString r s \<longleftrightarrow> (\<exists>u v w. runes s = u @ v @ w \<and> in_language r v)"
  by (simp add: MatchString_def match_toks_iff)

section \<open>Decoding in pieces\<close>

text \<open>
  UTF-8 synchronises itself: a byte that is not a continuation byte starts a token whatever
  precedes it, and the bytes of a token without decoding error are decoded alike whatever follows.
\<close>

definition lead :: "char \<Rightarrow> bool" where
  "lead c = (byte c < 128 \<or> 192 \<le> byte c)"

lemma cont_not_lead: "cont lo hi c \<Longrightarrow> 128 \<le> lo \<Longrightarrow> hi \<le> 191 \<Longrightarrow> \<not> lead c"
  by (auto simp: cont_def lead_def)

lemma DecodeRune_width: "DecodeRune (c # cs) = (r, n) \<Longrightarrow> 1 \<le> n \<and> n \<le> length (c # cs)"
  by (auto simp: DecodeRune_def Let_def split: if_splits list.splits)

lemma DecodeRune_lead: "DecodeRune (c # cs) = (r, n) \<Longrightarrow> r \<noteq> RuneError \<Longrightarrow> lead c"
  by (auto simp: DecodeRune_def Let_def lead_def split: if_splits)

lemma DecodeRune_prefix:
  "DecodeRune (c # cs) = (r, n) \<Longrightarrow> r \<noteq> RuneError \<Longrightarrow> DecodeRune (take n (c # cs) @ y) = (r, n)"
  by (simp add: DecodeRune_def Let_def split: if_split_asm list.split_asm; elim conjE; hypsubst; simp)

lemma DecodeRune_conts: "DecodeRune (c # cs) = (r, n) \<Longrightarrow> list_all (\<lambda>x. \<not> lead x) (take (n - 1) cs)"
  by (auto simp: DecodeRune_def Let_def cont_def lead_def split: if_split_asm list.split_asm)

lemma DecodeRune_append:
  assumes "y = [] \<or> lead (hd y)"
  shows "DecodeRune (c # cs @ y) = DecodeRune (c # cs)"
proof (cases "y = []")
  case False
  then obtain z zs where y: "y = z # zs" by (cases y) auto
  with assms have "\<not> cont lo hi z" if "128 \<le> lo" "hi \<le> 191" for lo hi
    using that cont_not_lead by auto
  then show ?thesis unfolding y
    by (auto simp: DecodeRune_def Let_def split: list.split)
qed simp

text \<open>A token that decodes to itself in front of any text.\<close>

definition self_contained :: "tok \<Rightarrow> bool" where
  "self_contained t = (snd t \<noteq> [] \<and> lead (hd (snd t)) \<and> (\<forall>y. runes (snd t @ y) = t # runes y))"

lemma runes_Cons:
  assumes "DecodeRune (c # cs) = (r, n)"
  shows "runes (c # cs) = (r, take n (c # cs)) # runes (drop n (c # cs))"
  using assms DecodeRune_width [OF assms] by (simp add: max_def)

lemma runes_token:
  "t \<in> set (runes s) \<Longrightarrow> \<exists>c cs n. DecodeRune (c # cs) = (fst t, n) \<and> snd t = take n (c # cs)"
proof (induction s rule: runes.induct)
  case (2 c cs)
  obtain r n where d: "DecodeRune (c # cs) = (r, n)" by fastforce
  note w = DecodeRune_width [OF d]
  from 2(2) runes_Cons [OF d] consider "t = (r, take n (c # cs))" | "t \<in> set (runes (drop n (c # cs)))"
    by (auto simp del: runes.simps)
  then show ?case
  proof cases
    case 1
    with d show ?thesis by auto
  next
    case 2
    with "2.IH" [OF d [symmetric] refl] w show ?thesis by (simp add: max_def)
  qed
qed simp

lemma runes_self_contained:
  assumes "t \<in> set (runes s)" "fst t \<noteq> RuneError"
  shows "self_contained t"
proof -
  from runes_token [OF assms(1)] obtain c cs n
    where d: "DecodeRune (c # cs) = (fst t, n)" and t: "snd t = take n (c # cs)" by blast
  from DecodeRune_width [OF d] obtain n' where n: "n = Suc n'" by (cases n) auto
  have "runes (snd t @ y) = t # runes y" for y
  proof -
    from DecodeRune_prefix [OF d assms(2)] have "DecodeRune (c # take n' cs @ y) = (fst t, n)" by (simp add: n)
    from runes_Cons [OF this] DecodeRune_width [OF d] show ?thesis by (simp add: n t prod_eq_iff)
  qed
  with DecodeRune_lead [OF d assms(2)] show ?thesis by (simp add: self_contained_def t n)
qed

text \<open>A code point below 128 is one byte.\<close>

definition token :: "tok \<Rightarrow> bool" where
  "token t = (\<exists>s. t \<in> set (runes s))"

lemma list_all_token_runes [simp]: "list_all token (runes s)"
  by (auto simp: list_all_iff token_def)

lemma DecodeRune_ascii: "DecodeRune (c # cs) = (r, n) \<Longrightarrow> r < 128 \<Longrightarrow> n = 1 \<and> r = byte c"
  by (auto simp: DecodeRune_def Let_def RuneError_def cont_def split: if_split_asm list.split_asm)

lemma token_ascii:
  assumes "token t" "fst t = byte c" "byte c < 128"
  shows "snd t = [c]"
proof -
  from assms(1) runes_token obtain c' cs n
    where d: "DecodeRune (c' # cs) = (fst t, n)" and t: "snd t = take n (c' # cs)"
    unfolding token_def by blast
  from DecodeRune_ascii [OF d] assms(2,3) have "n = 1" "byte c = byte c'" by auto
  then show ?thesis by (simp add: t byte_def)
qed

text \<open>An ASCII byte occurs only in the token of its own code point.\<close>

lemma runes_ascii_byte:
  assumes "t \<in> set (runes s)" "x \<in> set (snd t)" "byte x < 128"
  shows "fst t = byte x"
proof -
  from runes_token [OF assms(1)] obtain c cs n
    where d: "DecodeRune (c # cs) = (fst t, n)" and t: "snd t = take n (c # cs)" by blast
  from DecodeRune_width [OF d] obtain n' where n: "n = Suc n'" by (cases n) auto
  from DecodeRune_conts [OF d] assms(3) have "x \<notin> set (take n' cs)"
    by (auto simp: n list_all_iff lead_def)
  with assms(2) have "x = c" by (simp add: t n)
  with d assms(3) show ?thesis by (simp add: DecodeRune_def Let_def)
qed

lemma runes_bytes_of:
  "list_all self_contained v \<Longrightarrow> runes (bytes_of v @ y) = v @ runes y"
  by (induction v) (auto simp: bytes_of_def self_contained_def)

lemma runes_append:
  assumes "y = [] \<or> lead (hd y)"
  shows "runes (x @ y) = runes x @ runes y"
proof (induction x rule: runes.induct)
  case (2 c cs)
  obtain r n where d: "DecodeRune (c # cs) = (r, n)" by fastforce
  note w = DecodeRune_width [OF d]
  have d': "DecodeRune (c # cs @ y) = (r, n)" using DecodeRune_append [OF assms] d by simp
  from 2 [OF d [symmetric] refl] w
  have "runes (drop n (c # cs) @ y) = runes (drop n (c # cs)) @ runes y" by (simp add: max_def)
  with runes_Cons [OF d] runes_Cons [OF d'] w show ?case by (cases n) auto
qed simp

lemma runes_infix:
  assumes "v \<noteq> []" "list_all self_contained v"
  shows "runes (x @ bytes_of v @ y) = runes x @ v @ runes y"
proof -
  from assms have "lead (hd (bytes_of v @ y))"
    by (cases v) (auto simp: self_contained_def bytes_of_def)
  then show ?thesis using runes_append [of "bytes_of v @ y" x] runes_bytes_of [OF assms(2)] by simp
qed

text \<open>A list of tokens as decoding makes them; its suffixes are such lists too.\<close>

definition decoded :: "tok list \<Rightarrow> bool" where
  "decoded s = (runes (bytes_of s) = s)"

lemma decoded_runes [simp]: "decoded (runes s)"
  by (simp add: decoded_def bytes_of_runes)

lemma decoded_Cons:
  assumes "decoded (t # s)"
  shows "decoded s" "snd t \<noteq> []" "list_all (\<lambda>x. \<not> lead x) (tl (snd t))"
proof -
  from assms have run: "runes (bytes_of (t # s)) = t # s" by (simp add: decoded_def)
  then obtain c cs where b: "bytes_of (t # s) = c # cs" by (cases "bytes_of (t # s)") auto
  obtain r n where d: "DecodeRune (c # cs) = (r, n)" by fastforce
  note w = DecodeRune_width [OF d]
  from run runes_Cons [OF d] have t: "t = (r, take n (c # cs))" and s: "s = runes (drop n (c # cs))"
    by (simp_all add: b)
  show "decoded s" unfolding s by simp
  show "snd t \<noteq> []" using w by (auto simp: t)
  show "list_all (\<lambda>x. \<not> lead x) (tl (snd t))"
    using DecodeRune_conts [OF d] w by (cases n) (auto simp: t)
qed

lemma decoded_token: "decoded s \<Longrightarrow> list_all token s"
  unfolding decoded_def by (metis list_all_token_runes)

lemma decoded_append: "decoded (u @ s) \<Longrightarrow> decoded s"
  by (induction u) (auto dest: decoded_Cons(1))

end
