(* ===== verification/Delivery.thy ===== *)
theory Delivery
  imports System
begin

text \<open>
  The watcher from a finding to its agent, over one cluster. The locale \<open>responsive_server\<close> states what an
  API server does that answers every call at once and to which nobody else writes meanwhile: reads
  show the stored objects, creations of free names and patches of the current version succeed. Under
  this contract four reconciles, two of a source and two of the controller, with time passing between
  them, take a persistent finding to a stored agent job. The server in memory satisfies the contract,
  and a server inside the shared state of the watcher does if the server itself does.
\<close>

section \<open>A responsive server\<close>

text \<open>The worlds in which the server is at rest with the objects \<open>a\<close>.\<close>

definition rests :: "('w \<Rightarrow> objects) \<Rightarrow> ('w \<Rightarrow> bool) \<Rightarrow> objects \<Rightarrow> 'w \<Rightarrow> bool" where
  "rests view calm a w = (calm w \<and> view w = a)"

definition with_rjob :: "RemediationJob \<Rightarrow> objects \<Rightarrow> objects" where
  "with_rjob j a = a\<lparr>ob_rjobs := ob_rjobs a @ [j], ob_history := ob_history a @ [j]\<rparr>"

definition with_job :: "Job \<Rightarrow> objects \<Rightarrow> objects" where
  "with_job j a = a\<lparr>ob_jobs := ob_jobs a @ [j]\<rparr>"

locale responsive_server =
  fixes K :: "'w kube" and view :: "'w \<Rightarrow> objects" and calm :: "'w \<Rightarrow> bool" and tick :: "time \<Rightarrow> 'w \<Rightarrow> 'w"
  assumes clock: "answers_in (rests view calm a) (k_now K) (ob_clock a)"
    and get: "find (\<lambda>x. rj_key x = (ns, name)) (ob_rjobs a) = Some j \<Longrightarrow> answers_in (rests view calm a) (k_get_rjob K ns name) (Inr j)"
    and listed: "answers_in (rests view calm a) (k_list_rjobs K ns sel)
          (Inr (filter (\<lambda>x. rj_Namespace x = ns \<and> selector_matches sel (rj_Labels x)) (ob_rjobs a)))"
    and listed_jobs: "answers_in (rests view calm a) (k_list_jobs K ns sel)
          (Inr (filter (\<lambda>x. om_Namespace (jb_Meta x) = ns \<and> selector_matches sel (om_Labels (jb_Meta x))) (ob_jobs a)))"
    and created: "rj_key j \<notin> rj_key ` set (ob_rjobs a) \<Longrightarrow> \<exists>m. assigned (rj_Meta j) m \<and> om_CreationTimestamp m = ob_clock a
          \<and> responds (rests view calm a) (k_create_rjob K j) None
              (rests view calm (with_rjob \<lparr>rj_Meta = m, rj_Spec = rj_Spec j, rj_Status = zero_status\<rparr> a))"
    and created_job: "jb_key job \<notin> jb_key ` set (ob_jobs a) \<Longrightarrow> \<exists>m. assigned (jb_Meta job) m
          \<and> responds (rests view calm a) (k_create_job K job) None (rests view calm (with_job (job\<lparr>jb_Meta := m\<rparr>) a))"
    and patched: "distinct (map rj_key (ob_rjobs a)) \<Longrightarrow> j \<in> set (ob_rjobs a) \<Longrightarrow> rj_Meta n = rj_Meta j \<Longrightarrow> rj_Spec n = rj_Spec j \<Longrightarrow>
          responds (rests view calm a) (k_patch_status K j n) (Inr n) (rests view calm (replace_rjob (\<lambda>_. n) (rj_key j) a))"
    and ticked: "calm w \<Longrightarrow> calm (tick t w) \<and> view (tick t w) = (view w)\<lparr>ob_clock := t\<rparr>"

text \<open>The server in memory without other writers.\<close>

lemma mem_call_responds:
  "h a = (x, b) \<Longrightarrow> responds (rests fst (\<lambda>w. snd w = []) a) (mem_call R h) x (rests fst (\<lambda>w. snd w = []) b)"
  by (auto simp: responds_def rests_def mem_call_def others_act_def split: list.split)

lemma mem_read_responds: "answers_in (rests fst (\<lambda>w. snd w = []) a) (mem_read R q) (q a)"
  unfolding mem_read_def by (rule mem_call_responds) simp

lemma merge_status_current: "merge_status b n b = n"
  by (simp add: merge_status_def pick_field_def)

lemma replace_rjob_unique:
  assumes "distinct (map rj_key (ob_rjobs a))" "j \<in> set (ob_rjobs a)" "f j = g j"
  shows "replace_rjob f (rj_key j) a = replace_rjob g (rj_key j) a"
proof -
  have "f x = g x" if "x \<in> set (ob_rjobs a)" "rj_key x = rj_key j" for x
    using distinct_key_unique [OF assms(1) that(1) assms(2) that(2)] assms(3) by simp
  then show ?thesis by (auto simp: replace_rjob_def)
qed

lemma find_unique: "distinct (map f xs) \<Longrightarrow> x \<in> set xs \<Longrightarrow> find (\<lambda>y. f y = f x) xs = Some x"
  by (induction xs) (auto simp: rev_image_eqI)

interpretation memory_rests: responsive_server "memory_server R" fst "\<lambda>w. snd w = []" "\<lambda>t w. ((fst w)\<lparr>ob_clock := t\<rparr>, snd w)" for R
proof (unfold_locales, goal_cases)
  case (1 a)
  then show ?case by (simp add: memory_server_def mem_read_responds)
next
  case (2 ns name a j)
  then show ?case using mem_read_responds [of a R "\<lambda>a. found name (find (\<lambda>x. rj_key x = (ns, name)) (ob_rjobs a))"]
    by (simp add: memory_server_def found_def)
next
  case (3 a ns sel)
  show ?case unfolding memory_server_def kube.simps by (rule mem_read_responds)
next
  case (4 a ns sel)
  show ?case unfolding memory_server_def kube.simps by (rule mem_read_responds)
next
  case (5 j a)
  then show ?case
    by (intro exI [of _ "(rj_Meta j)\<lparr>om_UID := ''uid-'' @ show_nat (length (ob_history a)), om_CreationTimestamp := ob_clock a\<rparr>"])
      (simp add: memory_server_def assigned_def mem_call_responds mem_create_def with_rjob_def Let_def)
next
  case (6 job a)
  then show ?case
    by (intro exI [of _ "(jb_Meta job)\<lparr>om_CreationTimestamp := ob_clock a\<rparr>"])
      (simp add: memory_server_def assigned_def mem_call_responds mem_create_job_def with_job_def)
next
  case (7 a j n)
  let ?f = "\<lambda>x. x\<lparr>rj_Status := merge_status (rj_Status j) (rj_Status n) (rj_Status x)\<rparr>"
  have f: "?f j = n" using 7 by (simp add: merge_status_current RemediationJob.equality)
  have k: "rj_key n = rj_key j" using 7 by (simp add: rj_key_def)
  have "mem_patch ?f n a = (Inr n, replace_rjob (\<lambda>_. n) (rj_key j) a)"
    unfolding mem_patch_def k find_unique [OF 7(1,2)] using f replace_rjob_unique [OF 7(1,2), of ?f "\<lambda>_. n"] by simp
  then show ?case by (simp add: memory_server_def mem_call_responds)
next
  case (8 w t)
  then show ?case by simp
qed

section \<open>The way of a finding\<close>

text \<open>A cluster in which no job has taken the names that the fingerprint \<open>fp\<close> stands for.\<close>

definition vacant :: "string \<Rightarrow> string \<Rightarrow> objects \<Rightarrow> bool" where
  "vacant ns fp a =
     (tidy ns a \<and> list_all (\<lambda>j. take 12 (sp_Fingerprint (rj_Spec j)) \<noteq> take 12 fp) (ob_rjobs a)
      \<and> list_all (\<lambda>job. jb_key job \<noteq> (ns, ''mechanic-agent-'' @ take 12 fp)) (ob_jobs a))"

text \<open>The object goes on failing in a namespace that is not skipped.\<close>

definition failing :: "('w \<Rightarrow> objects) \<Rightarrow> ('w \<Rightarrow> bool) \<Rightarrow> ('w, 'o) source_reconciler \<Rightarrow> string \<Rightarrow> string \<Rightarrow> 'o \<Rightarrow> Finding \<Rightarrow> bool" where
  "failing view calm r name ns obj f =
     (\<forall>a. answers_in (rests view calm a) (pr_Get r name ns) (Inr obj)
        \<and> answers_in (rests view calm a) (pr_ExtractFinding r obj) (Inr (Some f))
        \<and> (f_Namespace f = [] \<or> (\<exists>as. answers_in (rests view calm a) (k_get_namespace (pr_Client r) (f_Namespace f)) (Inr as)
              \<and> (\<forall>t. \<not> ShouldSkip as t))))"

text \<open>The readiness checks of the source pass.\<close>

definition ready :: "('w \<Rightarrow> objects) \<Rightarrow> ('w \<Rightarrow> bool) \<Rightarrow> ('w, 'o) source_reconciler \<Rightarrow> bool" where
  "ready view calm r = (\<forall>a check. pr_ReadinessChecker r = Some check \<longrightarrow> answers_in (rests view calm a) check None)"

text \<open>The finding is one that the configuration lets through.\<close>

definition eligible :: "('w, 'o) source_reconciler \<Rightarrow> 'o \<Rightarrow> Finding \<Rightarrow> string \<Rightarrow> bool" where
  "eligible r obj f fp =
     (FindingFingerprint f = Inr fp \<and> admissible (pr_Cfg r) f \<and> (f_ChainDepth f \<le> 0 \<or> pr_CircuitBreaker r = None)
      \<and> mget (pr_Annotations r obj) AnnotationPriority \<noteq> ''critical'')"

text \<open>
  Four reconciles: the object is visited, visited again at \<open>u\<close>, and the \<open>RemediationJob\<close> that the second
  visit is to create is reconciled at once and again at \<open>v\<close>. The results, and the world at the end.
\<close>

definition deliver :: "(time \<Rightarrow> 'w \<Rightarrow> 'w) \<Rightarrow> ('w, 'o) source_reconciler \<Rightarrow> 'w reconciler \<Rightarrow> string \<Rightarrow> string \<Rightarrow> string \<Rightarrow>
    time \<Rightarrow> time \<Rightarrow> 'w psys \<Rightarrow> reconcile_result list \<times> 'w" where
  "deliver tick r ctl name ns fp u v s =
     (let (x, s1) = run_state (Reconcile_source r name ns) s;
          (y, s2) = run_state (Reconcile_source r name ns) (s1\<lparr>world := tick u (world s1)\<rparr>);
          job = Reconcile ctl (cfg_AgentNamespace (rc_Cfg ctl)) (''mechanic-'' @ take 12 fp);
          (p, s3) = run_state job \<lparr>world = world s2, trace = []\<rparr>;
          (q, s4) = run_state job \<lparr>world = tick v (world s3), trace = []\<rparr>
      in ([x, y, p, q], world s4))"

lemma vacant_clock [simp]: "vacant ns fp (a\<lparr>ob_clock := t\<rparr>) = vacant ns fp a"
  by (simp add: vacant_def tidy_def)

lemma vacant_rjobs:
  assumes "vacant ns fp a"
  shows "(ns, ''mechanic-'' @ take 12 fp) \<notin> rj_key ` set (ob_rjobs a)"
    "filter (\<lambda>x. rj_Namespace x = ns \<and> selector_matches [(fingerprint_label, take 12 fp)] (rj_Labels x)) (ob_rjobs a) = []"
  using assms by (auto simp: vacant_def tidy_def list_all_iff registered_def rj_key_def Let_def filter_empty_conv selector_matches_def)

lemma vacant_jobs:
  assumes "vacant ns fp a"
  shows "(ns, ''mechanic-agent-'' @ take 12 fp) \<notin> jb_key ` set (ob_jobs a)"
    "filter (\<lambda>x. om_Namespace (jb_Meta x) = ns
       \<and> selector_matches [(''remediation.mechanic.io/remediation-job'', ''mechanic-'' @ take 12 fp)] (om_Labels (jb_Meta x))) (ob_jobs a) = []"
  using assms
  by (auto simp: vacant_def tidy_def list_all_iff agent_job_def registered_job_def jb_key_def filter_empty_conv selector_matches_def)

lemma replace_last:
  assumes "ob_rjobs b = xs @ [j]" "rj_key j \<notin> rj_key ` set xs"
  shows "ob_rjobs (replace_rjob (\<lambda>_. n) (rj_key j) b) = xs @ [n]"
proof -
  have "map (\<lambda>x. if rj_key x = rj_key j then n else x) xs = xs"
    using assms(2) by (intro map_idI) (metis image_eqI)
  then show ?thesis by (simp add: replace_rjob_def assms(1))
qed

lemma find_last:
  assumes "k \<notin> rj_key ` set xs" "rj_key j = k"
  shows "find (\<lambda>x. rj_key x = k) (xs @ [j]) = Some j"
  using assms by (induction xs) auto

text \<open>No rule of the correlator relates the job to a pending one of the list.\<close>

definition alone :: "'w reconciler \<Rightarrow> ('w \<Rightarrow> bool) \<Rightarrow> RemediationJob list \<Rightarrow> RemediationJob \<Rightarrow> bool" where
  "alone ctl I xs j = (\<forall>rules ps. rc_Correlator ctl = Some rules \<longrightarrow> set ps \<subseteq> {x \<in> set xs. rj_Phase x = PhasePending} \<longrightarrow>
     answers_in I (Evaluate rules j ps) (Inr None))"

context responsive_server
begin

lemma unobstructed_at_rest:
  assumes "failing view calm r name ns obj f" "ready view calm r" "eligible r obj f fp" "pr_Client r = K"
    and "vacant (cfg_AgentNamespace (pr_Cfg r)) fp a" "\<not> list_ex (supersedes f) (ob_rjobs a)"
  shows "unobstructed (rests view calm a) (ob_clock a) r name ns obj f fp"
proof -
  let ?ns = "cfg_AgentNamespace (pr_Cfg r)"
  have l: "answers_in (rests view calm a) (k_list_rjobs K ?ns [(fingerprint_label, take 12 fp)]) (Inr [])"
    using listed [of a ?ns "[(fingerprint_label, take 12 fp)]"] vacant_rjobs(2) [OF assms(5)] by simp
  have "\<not> list_ex (supersedes f) (filter P (ob_rjobs a))" for P using assms(6) by (auto simp: list_ex_iff)
  with listed [of a ?ns watcher_labels]
  have "\<exists>ps. answers_in (rests view calm a) (k_list_rjobs K ?ns watcher_labels) (Inr ps) \<and> \<not> list_ex (supersedes f) ps" by blast
  moreover have "\<exists>js. answers_in (rests view calm a) (k_list_rjobs K ?ns [(fingerprint_label, take 12 fp)]) (Inr js)
      \<and> list_all (\<lambda>j. sp_Fingerprint (rj_Spec j) \<noteq> fp) js"
    using l by (intro exI [of _ "[]"]) simp
  ultimately show ?thesis
    unfolding unobstructed_def Let_def assms(4)
    using assms(1) [unfolded failing_def, THEN spec [of _ a]] assms(2-4) clock [of a] by (auto simp: ready_def eligible_def)
qed

text \<open>The first reconcile of a new job makes it pending.\<close>

lemma new_job_pending:
  assumes "rc_Client ctl = K" "ob_rjobs b = xs @ [j]" "rj_key j = (ns, name)" "(ns, name) \<notin> rj_key ` set xs"
    and "distinct (map rj_key xs)" "rj_Status j = zero_status" "rests view calm b w"
  shows "wp (Reconcile ctl ns name) (\<lambda>res s'. res = (Requeue, None)
    \<and> rests view calm (replace_rjob (\<lambda>_. set_phase PhasePending j) (rj_key j) b) (world s')) \<lparr>world = w, trace = []\<rparr>"
proof -
  have g: "answers_in (rests view calm b) (k_get_rjob K ns name) (Inr j)"
    by (rule get) (simp add: assms(2) find_last [OF assms(4,3)])
  have p: "responds (rests view calm b) (k_patch_status K j (set_phase PhasePending j)) (Inr (set_phase PhasePending j))
      (rests view calm (replace_rjob (\<lambda>_. set_phase PhasePending j) (rj_key j) b))"
    by (rule patched) (use assms in auto)
  have "rj_SinkURL j = []" "rj_Phase j = PhaseNone" using assms(6) by (simp_all add: zero_status_def)
  then show ?thesis
    using assms(7)
    by (auto simp: Reconcile_def record_pr_def init_phase_def assms(1) wp_simps dest!: respondsD [OF g] respondsD [OF p])
qed

text \<open>The second one dispatches it.\<close>

lemma pending_job_delivered:
  assumes "rc_Client ctl = K" "cfg_AgentNamespace (rc_Cfg ctl) = ns" "rests view calm b w"
    and "ob_rjobs b = xs @ [p]" "rj_key p = (ns, name)" "(ns, name) \<notin> rj_key ` set xs" "distinct (map rj_key xs)"
    and "rj_Phase p = PhasePending" "rj_SinkURL p = []" "\<not> injection_suppress ctl p" "st_CorrelationGroupID (rj_Status p) = []"
    and "seconds (cfg_CorrelationWindowSeconds (rc_Cfg ctl)) \<le> time_sub (ob_clock b) (rj_Created p)"
    and "alone ctl (rests view calm b) xs p" "rc_Build ctl p [] = Inr job" "jb_key job \<notin> jb_key ` set (ob_jobs b)"
    and "filter (\<lambda>x. om_Namespace (jb_Meta x) = ns
       \<and> selector_matches [(''remediation.mechanic.io/remediation-job'', name)] (om_Labels (jb_Meta x))) (ob_jobs b) = []"
    and "int (length (filter (\<lambda>x. om_Namespace (jb_Meta x) = ns \<and> selector_matches managed_by (om_Labels (jb_Meta x))) (ob_jobs b)))
       < cfg_MaxConcurrentJobs (rc_Cfg ctl)"
  shows "wp (Reconcile ctl ns name) (\<lambda>res s'. res = (Done, None) \<and> (\<exists>n m es. dispatch_recorded p job n es \<and> assigned (jb_Meta job) m
    \<and> rests view calm (replace_rjob (\<lambda>_. n) (rj_key p) (with_job (job\<lparr>jb_Meta := m\<rparr>) b)) (world s'))) \<lparr>world = w, trace = []\<rparr>"
proof -
  let ?I = "rests view calm b"
  from created_job [OF assms(15)] obtain m where m: "assigned (jb_Meta job) m"
      "responds ?I (k_create_job K job) None (rests view calm (with_job (job\<lparr>jb_Meta := m\<rparr>) b))" by blast
  let ?b = "with_job (job\<lparr>jb_Meta := m\<rparr>) b"
  have dist: "distinct (map rj_key (ob_rjobs b))" using assms(4-7) by simp
  have get: "answers_in ?I (k_get_rjob K ns name) (Inr p)"
    by (rule get) (simp add: assms(4) find_last [OF assms(6,5)])
  have acc: "accepts_status (rests view calm ?b) (\<lambda>n. rests view calm (replace_rjob (\<lambda>_. n) (rj_key p) ?b)) K p"
    unfolding accepts_status_def using dist assms(4) by (intro allI impI patched) (auto simp: with_job_def)
  have "uncorrelated ?I (ob_clock b) ctl p"
  proof (cases "rc_Correlator ctl")
    case (Some rules)
    let ?items = "filter (\<lambda>x. rj_Namespace x = ns \<and> selector_matches managed_by (rj_Labels x)) (ob_rjobs b)"
    have "set (filter (\<lambda>x. rj_UID x \<noteq> rj_UID p \<and> rj_Phase x = PhasePending) ?items) \<subseteq> {x \<in> set xs. rj_Phase x = PhasePending}"
      using assms(4) by auto
    with assms(13) Some have "answers_in ?I (Evaluate rules p (filter (\<lambda>x. rj_UID x \<noteq> rj_UID p \<and> rj_Phase x = PhasePending) ?items)) (Inr None)"
      unfolding alone_def by blast
    with Some assms(1,2,11,12) listed [of b ns managed_by] show ?thesis
      unfolding uncorrelated_def by (auto intro!: exI [of _ ?items])
  qed (simp add: uncorrelated_def)
  then have "dispatchable ?I (rests view calm ?b) (\<lambda>n. rests view calm (replace_rjob (\<lambda>_. n) (rj_key p) ?b)) (ob_clock b) ctl p job"
    unfolding dispatchable_def Let_def assms(1,2)
    using assms(5,8-10,14,17) clock [of b] listed_jobs [of b ns managed_by] m(2) acc answers_keeps [OF listed] answers_keeps [OF clock]
      listed_jobs [of b ns "[(''remediation.mechanic.io/remediation-job'', name)]"]
    by (auto simp: assms(16) rj_key_def)
  from pending_reconcile [OF get [folded assms(1)] this, of "\<lparr>world = w, trace = []\<rparr>"] assms(3) m(1) show ?thesis
    by (auto elim!: wp_mono)
qed

text \<open>The two visits of the source store the finding's \<open>RemediationJob\<close>.\<close>

lemma finding_stored:
  fixes r :: "('w, 'o) source_reconciler"
  assumes "pr_Client r = K" "failing view calm r name ns obj f" "ready view calm r" "eligible r obj f fp" "range_ok (pr_range r)" "windowed (pr_Cfg r)"
    and "unsighted (pr_Cfg r) fp s" "rests view calm a (world s)"
    and "vacant (cfg_AgentNamespace (pr_Cfg r)) fp a" "\<not> list_ex (supersedes f) (ob_rjobs a)"
    and "ob_clock a + cfg_StabilisationWindow (pr_Cfg r) \<le> u" "u \<le> ob_clock a + 2 * cfg_StabilisationWindow (pr_Cfg r)"
  shows "\<exists>s1 s2 m. run_state (Reconcile_source r name ns) s = ((RequeueAfter (cfg_StabilisationWindow (pr_Cfg r)), None), s1)
    \<and> run_state (Reconcile_source r name ns) (s1\<lparr>world := tick u (world s1)\<rparr>) = ((Done, None), s2)
    \<and> assigned (rj_Meta (new_rjob r name ns f fp)) m \<and> om_CreationTimestamp m = u
    \<and> rests view calm (with_rjob \<lparr>rj_Meta = m, rj_Spec = rj_Spec (new_rjob r name ns f fp), rj_Status = zero_status\<rparr>
        (a\<lparr>ob_clock := u\<rparr>)) (world s2)"
proof -
  let ?J = "new_rjob r name ns f fp" and ?a = "a\<lparr>ob_clock := u\<rparr>"
  have free: "rj_key ?J \<notin> rj_key ` set (ob_rjobs a)"
    using vacant_rjobs(1) [OF assms(9)] by (simp add: rj_key_def new_rjob_def Let_def)
  have un: "unobstructed (rests view calm b) (ob_clock b) r name ns obj f fp" if "b = a \<or> b = ?a" for b
    by (rule unobstructed_at_rest [OF assms(2-4,1)]) (use that assms(9,10) in auto)
  obtain x s1 where 1: "run_state (Reconcile_source r name ns) s = (x, s1)" by fastforce
  from wp_run [OF first_visit [OF un [of a] assms(8,5,7,6)] this]
  have x: "x = (RequeueAfter (cfg_StabilisationWindow (pr_Cfg r)), None)" "rests view calm a (world s1)"
      "sighted (pr_Cfg r) fp (ob_clock a) s1" by auto
  let ?s1 = "s1\<lparr>world := tick u (world s1)\<rparr>"
  have r1: "rests view calm ?a (world ?s1)" using x(2) ticked [of "world s1" u] by (simp add: rests_def)
  from created [of ?J ?a] free obtain m where m: "assigned (rj_Meta ?J) m" "om_CreationTimestamp m = u"
      "responds (rests view calm ?a) (k_create_rjob K ?J) None
         (rests view calm (with_rjob \<lparr>rj_Meta = m, rj_Spec = rj_Spec ?J, rj_Status = zero_status\<rparr> ?a))" by auto
  obtain y s2 where 2: "run_state (Reconcile_source r name ns) ?s1 = (y, s2)" by fastforce
  from wp_run [OF second_visit [OF un [of ?a] r1 _ assms(6), of "ob_clock a"] this] x(3) assms(1,11,12) m(3)
  have "y = (Done, None)" "rests view calm (with_rjob \<lparr>rj_Meta = m, rj_Spec = rj_Spec ?J, rj_Status = zero_status\<rparr> ?a) (world s2)"
    by (auto simp: sighted_def)
  with 1 2 x(1) m(1,2) show ?thesis by blast
qed

text \<open>The two reconciles of the controller give it its agent job.\<close>

lemma job_served:
  assumes "rc_Client ctl = K" "rc_Build ctl = (\<lambda>j. Build quantity bc (Some j))" "quantities_ok quantity bc"
    and "bc_AgentNamespace bc = cfg_AgentNamespace (rc_Cfg ctl)" "vacant (cfg_AgentNamespace (rc_Cfg ctl)) fp a"
    and "sp_Fingerprint (rj_Spec j) = fp" "12 \<le> length fp" "rj_key j = (cfg_AgentNamespace (rc_Cfg ctl), ''mechanic-'' @ take 12 fp)"
    and "rj_Status j = zero_status" "\<not> injection_suppress ctl j"
    and "seconds (cfg_CorrelationWindowSeconds (rc_Cfg ctl)) \<le> time_sub v (rj_Created j)"
    and "\<And>b i. rj_Spec i = rj_Spec j \<Longrightarrow> alone ctl (rests view calm b) (ob_rjobs a) i"
    and "int (length (filter (\<lambda>x. om_Namespace (jb_Meta x) = cfg_AgentNamespace (rc_Cfg ctl)
          \<and> selector_matches managed_by (om_Labels (jb_Meta x))) (ob_jobs a))) < cfg_MaxConcurrentJobs (rc_Cfg ctl)"
    and "rests view calm (with_rjob j a) w"
  shows "\<exists>s1 s2 n job. run_state (Reconcile ctl (cfg_AgentNamespace (rc_Cfg ctl)) (''mechanic-'' @ take 12 fp)) \<lparr>world = w, trace = []\<rparr>
        = ((Requeue, None), s1)
    \<and> run_state (Reconcile ctl (cfg_AgentNamespace (rc_Cfg ctl)) (''mechanic-'' @ take 12 fp)) \<lparr>world = tick v (world s1), trace = []\<rparr>
        = ((Done, None), s2)
    \<and> calm (world s2) \<and> ob_rjobs (view (world s2)) = ob_rjobs a @ [n] \<and> ob_jobs (view (world s2)) = ob_jobs a @ [job]
    \<and> rj_Spec n = rj_Spec j \<and> rj_Phase n = PhaseDispatched \<and> st_JobRef (rj_Status n) = om_Name (jb_Meta job)
    \<and> om_Name (jb_Meta job) = ''mechanic-agent-'' @ take 12 fp \<and> selector_matches (owned_selector n) (om_Labels (jb_Meta job))"
proof -
  let ?ns = "cfg_AgentNamespace (rc_Cfg ctl)" and ?n = "''mechanic-'' @ take 12 fp" and ?p = "set_phase PhasePending j"
  have free: "(?ns, ?n) \<notin> rj_key ` set (ob_rjobs a)" by (rule vacant_rjobs(1) [OF assms(5)])
  have dist: "distinct (map rj_key (ob_rjobs a))" using assms(5) by (simp add: vacant_def tidy_def)
  obtain x s1 where 1: "run_state (Reconcile ctl ?ns ?n) \<lparr>world = w, trace = []\<rparr> = (x, s1)" by fastforce
  let ?b = "replace_rjob (\<lambda>_. ?p) (rj_key j) (with_rjob j a)"
  have "ob_rjobs (with_rjob j a) = ob_rjobs a @ [j]" by (simp add: with_rjob_def)
  from wp_run [OF new_job_pending [OF assms(1) this assms(8) free dist assms(9,14)] 1]
  have x: "x = (Requeue, None)" "rests view calm ?b (world s1)" by auto
  let ?c = "?b\<lparr>ob_clock := v\<rparr>" and ?w = "tick v (world s1)"
  have c: "rests view calm ?c ?w" using x(2) ticked [of "world s1" v] by (simp add: rests_def)
  have rj: "ob_rjobs ?c = ob_rjobs a @ [?p]" using replace_last [of "with_rjob j a" "ob_rjobs a" j ?p] free assms(8) by (simp add: with_rjob_def)
  have jb: "ob_jobs ?c = ob_jobs a" by (simp add: replace_rjob_def with_rjob_def)
  have pk: "rj_key ?p = (?ns, ?n)" using assms(8) by (simp add: rj_key_def)
  have corr: "st_CorrelationGroupID (rj_Status ?p) = []" using assms(9) by (simp add: set_phase_def zero_status_def)
  obtain job where job: "rc_Build ctl ?p [] = Inr job" "jb_Meta job = job_meta bc ?p"
    using assms(2,3,6,7) by (simp add: Build_def)
  have name: "om_Name (jb_Meta job) = ''mechanic-agent-'' @ take 12 fp" "jb_key job = (?ns, ''mechanic-agent-'' @ take 12 fp)"
    using assms(4,6) by (simp_all add: job(2) job_meta_def jb_key_def Let_def)
  obtain y s2 where 2: "run_state (Reconcile ctl ?ns ?n) \<lparr>world = ?w, trace = []\<rparr> = (y, s2)" by fastforce
  have "wp (Reconcile ctl ?ns ?n) (\<lambda>res s'. res = (Done, None) \<and> (\<exists>n m es. dispatch_recorded ?p job n es \<and> assigned (jb_Meta job) m
    \<and> rests view calm (replace_rjob (\<lambda>_. n) (rj_key ?p) (with_job (job\<lparr>jb_Meta := m\<rparr>) ?c)) (world s'))) \<lparr>world = ?w, trace = []\<rparr>"
    by (rule pending_job_delivered [OF assms(1) refl c rj pk free dist])
      (use assms(9-13) job name vacant_jobs [OF assms(5)] in \<open>simp_all add: jb injection_suppress_def zero_status_def corr\<close>)
  from wp_run [OF this 2] obtain n m es where y: "y = (Done, None)" "dispatch_recorded ?p job n es" "assigned (jb_Meta job) m"
      "rests view calm (replace_rjob (\<lambda>_. n) (rj_key ?p) (with_job (job\<lparr>jb_Meta := m\<rparr>) ?c)) (world s2)" by auto
  let ?d = "with_job (job\<lparr>jb_Meta := m\<rparr>) ?c"
  have d: "ob_rjobs ?d = ob_rjobs a @ [?p]" "ob_jobs ?d = ob_jobs a @ [job\<lparr>jb_Meta := m\<rparr>]"
    unfolding with_job_def using rj jb by simp_all
  have "calm (world s2)" "ob_rjobs (view (world s2)) = ob_rjobs a @ [n]"
      "ob_jobs (view (world s2)) = ob_jobs a @ [job\<lparr>jb_Meta := m\<rparr>]"
    using y(4) replace_last [OF d(1), of n] d(2) free unfolding pk by (simp_all add: rests_def replace_rjob_def)
  moreover have "selector_matches (owned_selector n) (om_Labels (jb_Meta job))"
    using y(2) by (simp add: job(2) dispatch_recorded_def owned_selector_def selector_matches_def job_meta_def Let_def)
  moreover have "rj_Spec n = rj_Spec j" "rj_Phase n = PhaseDispatched" "st_JobRef (rj_Status n) = om_Name (jb_Meta job)"
      "om_Name m = om_Name (jb_Meta job)" "om_Labels m = om_Labels (jb_Meta job)"
    using y(2,3) by (simp_all add: dispatch_recorded_def assigned_def)
  ultimately show ?thesis
    using 1 2 x(1) y(1) name(1)
    by (intro exI [of _ s1] exI [of _ s2] exI [of _ n] exI [of _ "job\<lparr>jb_Meta := m\<rparr>"]) simp
qed

text \<open>All four reconciles.\<close>

lemma delivered:
  fixes r :: "('w, 'o) source_reconciler"
  assumes "pr_Client r = K" "rc_Client ctl = K" "rc_Cfg ctl = pr_Cfg r" "rc_Build ctl = (\<lambda>j. Build quantity bc (Some j))"
    and "quantities_ok quantity bc" "bc_AgentNamespace bc = cfg_AgentNamespace (pr_Cfg r)"
    and "failing view calm r name ns obj f" "ready view calm r" "eligible r obj f fp" "range_ok (pr_range r)" "windowed (pr_Cfg r)"
    and "unsighted (pr_Cfg r) fp s" "rests view calm a (world s)"
    and "vacant (cfg_AgentNamespace (pr_Cfg r)) fp a" "\<not> list_ex (supersedes f) (ob_rjobs a)"
    and "ob_clock a + cfg_StabilisationWindow (pr_Cfg r) \<le> u" "u \<le> ob_clock a + 2 * cfg_StabilisationWindow (pr_Cfg r)"
    and "seconds (cfg_CorrelationWindowSeconds (pr_Cfg r)) \<le> time_sub v u"
    and "\<And>b i. rj_Spec i = rj_Spec (new_rjob r name ns f fp) \<Longrightarrow> alone ctl (rests view calm b) (ob_rjobs a) i"
    and "int (length (filter (\<lambda>x. om_Namespace (jb_Meta x) = cfg_AgentNamespace (pr_Cfg r)
          \<and> selector_matches managed_by (om_Labels (jb_Meta x))) (ob_jobs a))) < cfg_MaxConcurrentJobs (pr_Cfg r)"
  shows "\<exists>w n job. deliver tick r ctl name ns fp u v s =
       ([(RequeueAfter (cfg_StabilisationWindow (pr_Cfg r)), None), (Done, None), (Requeue, None), (Done, None)], w)
     \<and> calm w \<and> ob_rjobs (view w) = ob_rjobs a @ [n] \<and> ob_jobs (view w) = ob_jobs a @ [job]
     \<and> rj_Spec n = rj_Spec (new_rjob r name ns f fp) \<and> rj_Phase n = PhaseDispatched \<and> st_JobRef (rj_Status n) = om_Name (jb_Meta job)
     \<and> om_Name (jb_Meta job) = ''mechanic-agent-'' @ take 12 fp \<and> selector_matches (owned_selector n) (om_Labels (jb_Meta job))"
proof -
  let ?J = "new_rjob r name ns f fp"
  from finding_stored [OF assms(1,7-17)] obtain s1 s2 m where st:
      "run_state (Reconcile_source r name ns) s = ((RequeueAfter (cfg_StabilisationWindow (pr_Cfg r)), None), s1)"
      "run_state (Reconcile_source r name ns) (s1\<lparr>world := tick u (world s1)\<rparr>) = ((Done, None), s2)"
      "assigned (rj_Meta ?J) m" "om_CreationTimestamp m = u"
      "rests view calm (with_rjob \<lparr>rj_Meta = m, rj_Spec = rj_Spec ?J, rj_Status = zero_status\<rparr> (a\<lparr>ob_clock := u\<rparr>)) (world s2)"
    by blast
  let ?j = "\<lparr>rj_Meta = m, rj_Spec = rj_Spec ?J, rj_Status = zero_status\<rparr>"
  have fp: "12 \<le> length fp" using assms(9) by (auto simp: eligible_def FindingFingerprint_def split: option.splits)
  have inj: "\<not> injection_suppress ctl ?j"
    using assms(3,9) by (auto simp: injection_suppress_def eligible_def admissible_def new_rjob_def Let_def)
  have key: "rj_key ?j = (cfg_AgentNamespace (rc_Cfg ctl), ''mechanic-'' @ take 12 fp)" "sp_Fingerprint (rj_Spec ?j) = fp"
    using st(3) assms(3) by (simp_all add: assigned_def rj_key_def new_rjob_def Let_def)
  from job_served [OF assms(2,4,5), of fp "a\<lparr>ob_clock := u\<rparr>" ?j v "world s2"] assms(3,6,14,18-20) fp inj key st(4,5)
  obtain s3 s4 n job where "run_state (Reconcile ctl (cfg_AgentNamespace (rc_Cfg ctl)) (''mechanic-'' @ take 12 fp)) \<lparr>world = world s2, trace = []\<rparr>
        = ((Requeue, None), s3)"
    "run_state (Reconcile ctl (cfg_AgentNamespace (rc_Cfg ctl)) (''mechanic-'' @ take 12 fp)) \<lparr>world = tick v (world s3), trace = []\<rparr>
        = ((Done, None), s4)"
    "calm (world s4)" "ob_rjobs (view (world s4)) = ob_rjobs a @ [n]" "ob_jobs (view (world s4)) = ob_jobs a @ [job]"
    "rj_Spec n = rj_Spec ?J" "rj_Phase n = PhaseDispatched" "st_JobRef (rj_Status n) = om_Name (jb_Meta job)"
    "om_Name (jb_Meta job) = ''mechanic-agent-'' @ take 12 fp" "selector_matches (owned_selector n) (om_Labels (jb_Meta job))"
    by auto
  with st(1,2) show ?thesis
    unfolding deliver_def Let_def by (intro exI [of _ "world s4"] exI [of _ n] exI [of _ job]) simp
qed

end

section \<open>The running watcher\<close>

text \<open>The contract lifted to the shared state of the watcher, whose readiness caches hold no failure.\<close>

definition healthy :: "('w, 'h) watcher \<Rightarrow> bool" where
  "healthy s = (cc_lastErr (wt_SinkCache s) = None \<and> cc_lastErr (wt_LLMCache s) = None)"

definition view_of :: "('w \<Rightarrow> objects) \<Rightarrow> ('w, 'h) watcher \<Rightarrow> objects" where
  "view_of view s = view (wt_Cluster s)"

definition calm_of :: "('w \<Rightarrow> bool) \<Rightarrow> ('w, 'h) watcher \<Rightarrow> bool" where
  "calm_of calm s = (calm (wt_Cluster s) \<and> healthy s)"

definition tick_of :: "(time \<Rightarrow> 'w \<Rightarrow> 'w) \<Rightarrow> time \<Rightarrow> ('w, 'h) watcher \<Rightarrow> ('w, 'h) watcher" where
  "tick_of tick t s = s\<lparr>wt_Cluster := tick t (wt_Cluster s)\<rparr>"

lemma lift_responds:
  "responds (rests view calm a) c x (rests view calm b) \<Longrightarrow>
     responds (rests (view_of view) (calm_of calm) a) (on_cluster c) x (rests (view_of view) (calm_of calm) b)"
  by (auto simp: responds_def rests_def view_of_def calm_of_def healthy_def on_cluster_def split: prod.split)

lemma lift_responsive:
  assumes "responsive_server K view calm tick"
  shows "responsive_server (lift_kube K) (view_of view) (calm_of calm) (tick_of tick)"
proof -
  note laws = responsive_server.clock [OF assms] responsive_server.get [OF assms] responsive_server.listed [OF assms]
    responsive_server.listed_jobs [OF assms] responsive_server.patched [OF assms]
  show ?thesis
  proof (unfold_locales, unfold lift_kube_def kube.simps, goal_cases)
    case (5 j a)
    with responsive_server.created [OF assms] show ?case by (metis lift_responds)
  next
    case (6 job a)
    with responsive_server.created_job [OF assms] show ?case by (metis lift_responds)
  next
    case (8 w t)
    with responsive_server.ticked [OF assms] show ?case
      by (simp add: calm_of_def view_of_def tick_of_def healthy_def)
  qed (intro lift_responds laws; assumption)+
qed

text \<open>The secrets are there and the context is alive, so the combined check passes.\<close>

definition secrets_ready :: "('w \<Rightarrow> objects) \<Rightarrow> ('w \<Rightarrow> bool) \<Rightarrow> ('w, 'h) platform \<Rightarrow> Config \<Rightarrow> bool" where
  "secrets_ready view calm P cfg =
     (\<forall>a. answers_in (rests view calm a) (pf_CtxErr P) None
        \<and> (\<exists>d. answers_in (rests view calm a) (pf_GetSecret P (cfg_AgentNamespace cfg) githubAppSecretName) (Inr d)
              \<and> missing_key requiredGitHubAppKeys d = None)
        \<and> (\<exists>d. answers_in (rests view calm a) (pf_GetSecret P (cfg_AgentNamespace cfg) (llmSecretName (cfg_AgentType cfg))) (Inr d)
              \<and> missing_key requiredLLMKeys d = None))"

lemma cached_passes:
  assumes "answers_in (rests view calm a) clk t" "answers_in (rests view calm a) c None" "cc_lastErr cc = None"
    and "rests view calm a w"
  shows "wp (Cached_Check clk c cc) (\<lambda>(e, cc') w'. e = None \<and> cc_lastErr cc' = None \<and> rests view calm a w') w"
  using assms(3,4)
  by (auto simp: Cached_Check_def cache_lookup_def cache_store_def wp_simps wp_all [of clk] wp_all [of c]
      dest!: respondsD [OF assms(1)] respondsD [OF assms(2)] split: option.split)

lemma caches_pass:
  assumes "answers_in (rests view calm a) clk t" "answers_in (rests view calm a) c None"
  shows "answers_in (rests (view_of view) (calm_of calm) a) (on_sink_cache clk c) None"
    "answers_in (rests (view_of view) (calm_of calm) a) (on_llm_cache clk c) None"
proof -
  have "e = None \<and> cc_lastErr cc' = None \<and> calm w' \<and> view w' = a"
    if "run_state (Cached_Check clk c cc) w = ((e, cc'), w')" "cc_lastErr cc = None" "calm w" "view w = a" for cc w e cc' w'
    using wp_run [OF cached_passes [OF assms that(2)] that(1)] that(3,4) by (simp add: rests_def)
  then show "answers_in (rests (view_of view) (calm_of calm) a) (on_sink_cache clk c) None"
    "answers_in (rests (view_of view) (calm_of calm) a) (on_llm_cache clk c) None"
    by (auto simp: responds_def rests_def view_of_def calm_of_def healthy_def on_sink_cache_def on_llm_cache_def split: prod.split)
qed

lemma combined_passes:
  assumes "secrets_ready view calm P cfg" "answers_in (rests view calm a) clk t"
  shows "answers_in (rests (view_of view) (calm_of calm) a)
    (ck_Check (combinedChecker clk (pf_GetSecret P) (on_cluster (pf_CtxErr P)) cfg)) None"
proof -
  let ?I = "rests (view_of view) (calm_of calm) a"
  from assms(1) obtain d e where ctx: "answers_in (rests view calm a) (pf_CtxErr P) None"
    and d: "answers_in (rests view calm a) (pf_GetSecret P (cfg_AgentNamespace cfg) githubAppSecretName) (Inr d)" "missing_key requiredGitHubAppKeys d = None"
    and e: "answers_in (rests view calm a) (pf_GetSecret P (cfg_AgentNamespace cfg) (llmSecretName (cfg_AgentType cfg))) (Inr e)"
      "missing_key requiredLLMKeys e = None"
    unfolding secrets_ready_def by blast
  have gh: "answers_in (rests view calm a) (GitHubApp_Check (pf_GetSecret P) (cfg_AgentNamespace cfg)) None"
    using d by (auto simp: responds_def GitHubApp_Check_def split: prod.splits)
  have llm: "answers_in (rests view calm a) (OpenAI_Check (pf_GetSecret P) (cfg_AgentNamespace cfg) (cfg_AgentType cfg)) None"
    using e by (auto simp: responds_def OpenAI_Check_def split: prod.splits)
  have all: "answers_in ?I (All_Check ctxErr cs) None" if "answers_in ?I ctxErr None" "list_all (\<lambda>c. answers_in ?I c None) cs" for ctxErr cs
  proof -
    have "answers_in ?I (all_loop ctxErr cs) []" using that(2)
      by (induction cs) (use that(1) in \<open>auto intro!: responds_bind\<close>)
    then show ?thesis unfolding All_Check_def by (rule responds_bind) (simp add: JoinErrors_def)
  qed
  show ?thesis
    unfolding combinedChecker_def All_Checker_def Let_def Checker.simps
    by (rule all [OF lift_responds [OF ctx]])
      (simp add: checker_defs caches_pass(1) [OF assms(2) gh] caches_pass(2) [OF assms(2) llm])
qed

text \<open>The built-in rules find nothing for a job without peers, unless a single pod is enough for the node rule.\<close>

lemma no_peers:
  assumes "buildCorrelator K off t = Inr (Some rules)" "2 \<le> t"
  shows "Evaluate rules j [] = ret (Inr None)"
proof -
  have "qualifyingNodes t [j] = []"
    using assms(2) by (auto simp: qualifyingNodes_def nodes_counted_def)
  then have "MultiPodSameNode_Evaluate K t j [] = ret (Inr NoMatch)" using assms(2) by (simp add: MultiPodSameNode_Evaluate_def)
  then show ?thesis
    using assms by (auto simp: buildCorrelator_def PVCPod_Evaluate_def evaluatePodCandidate_def evaluatePVCCandidate_def
        SameNamespaceParent_Evaluate_def NoMatch_def Let_def split: if_splits)
qed

lemma alone_without_pending:
  assumes "main_setup P = Inr (cfg, ctl, srcs)" "2 \<le> cfg_MultiPodThreshold cfg" "list_all (\<lambda>x. rj_Phase x \<noteq> PhasePending) xs"
  shows "alone ctl I xs j"
proof -
  have "ps = []" if "set ps \<subseteq> {x \<in> set xs. rj_Phase x = PhasePending}" for ps
    using assms(3) that by (cases ps) (auto simp: list_all_iff)
  moreover have "Evaluate rules j [] = ret (Inr None)" if "rc_Correlator ctl = Some rules" for rules
    using no_peers [OF started_correlator [OF assms(1), unfolded that] assms(2)] .
  ultimately show ?thesis unfolding alone_def by (metis responds_ret(1))
qed

lemma source_parts:
  assumes "main_setup P = Inr (cfg, ctl, srcs)" "r \<in> set srcs"
  shows "pr_Client r = lift_kube (pf_Kube P)" "pr_Cfg r = cfg" "pr_range r = pf_Range P"
    "pr_ReadinessChecker r = Some (ck_Check (combinedChecker (k_now (pf_Kube P)) (pf_GetSecret P) (on_cluster (pf_CtxErr P)) cfg))"
    "rc_Client ctl = lift_kube (pf_Kube P)" "rc_Cfg ctl = cfg" "rc_Build ctl = (\<lambda>j. Build (pf_Quantity P) (builder_config cfg) (Some j))"
    "quantities_ok (pf_Quantity P) (builder_config cfg)"
proof -
  obtain redactor corr tp providers where p: "config_ok cfg" "settings_valid (pf_Compile P) (pf_Quantity P) cfg"
      "ctl = controller_of P cfg (builder_config cfg) corr" "srcs = map (source_reconciler_of P cfg tp) providers"
    using main_setup_parts [OF assms(1)] by metis
  then show "pr_Client r = lift_kube (pf_Kube P)" "pr_Cfg r = cfg" "pr_range r = pf_Range P"
      "pr_ReadinessChecker r = Some (ck_Check (combinedChecker (k_now (pf_Kube P)) (pf_GetSecret P) (on_cluster (pf_CtxErr P)) cfg))"
      "rc_Client ctl = lift_kube (pf_Kube P)" "rc_Cfg ctl = cfg" "rc_Build ctl = (\<lambda>j. Build (pf_Quantity P) (builder_config cfg) (Some j))"
      "quantities_ok (pf_Quantity P) (builder_config cfg)"
    using assms(2) builder_of_valid(2) [OF p(1,2)] by (auto simp: source_reconciler_of_def controller_of_def)
qed

section \<open>Property\<close>

text \<open>
  C4. A persistent finding gets its agent, through the whole program: in a watcher that \<open>main\<close> has
  set up on an API server that answers (the contract \<open>responsive_server\<close>), with the secrets in place,
  let an object keep failing with a finding that the configuration admits. Let the fingerprint be new to
  the source and to the cluster, no stored object stand for a parent of the finding, the number of
  agent jobs be below the limit, and no correlation rule relate the new job to a pending one. Then the
  first visit asks to be called again after the stabilisation window; a second visit at \<open>u\<close>, at least
  one and at most two windows later, stores the \<open>RemediationJob\<close>; its first reconcile makes it pending
  and the one at \<open>v\<close>, after the correlation window, starts the agent. At the end the cluster has exactly
  one \<open>RemediationJob\<close> and one agent job more: the record names the job, is in phase \<open>Dispatched\<close>
  and carries the finding, and the job carries the label by which the controller finds it again.
\<close>

theorem finding_gets_agent:
  fixes P :: "('w, 'h) platform"
  assumes "main_setup P = Inr (cfg, ctl, srcs)" "r \<in> set srcs"
    and "responsive_server (pf_Kube P) view calm tick" "secrets_ready view calm P cfg" "range_ok (pf_Range P)" "windowed cfg"
    and "failing (view_of view) (calm_of calm) r name ns obj f" "eligible r obj f fp"
    and "unsighted cfg fp s" "rests (view_of view) (calm_of calm) a (world s)"
    and "vacant (cfg_AgentNamespace cfg) fp a" "\<not> list_ex (supersedes f) (ob_rjobs a)"
    and "ob_clock a + cfg_StabilisationWindow cfg \<le> u" "u \<le> ob_clock a + 2 * cfg_StabilisationWindow cfg"
    and "seconds (cfg_CorrelationWindowSeconds cfg) \<le> time_sub v u"
    and "\<And>b i. rj_Spec i = rj_Spec (new_rjob r name ns f fp) \<Longrightarrow> alone ctl (rests (view_of view) (calm_of calm) b) (ob_rjobs a) i"
    and "int (length (filter (\<lambda>x. om_Namespace (jb_Meta x) = cfg_AgentNamespace cfg
          \<and> selector_matches managed_by (om_Labels (jb_Meta x))) (ob_jobs a))) < cfg_MaxConcurrentJobs cfg"
  shows "\<exists>w n job. deliver (tick_of tick) r ctl name ns fp u v s =
       ([(RequeueAfter (cfg_StabilisationWindow cfg), None), (Done, None), (Requeue, None), (Done, None)], w)
     \<and> ob_rjobs (view (wt_Cluster w)) = ob_rjobs a @ [n] \<and> ob_jobs (view (wt_Cluster w)) = ob_jobs a @ [job]
     \<and> rj_Spec n = rj_Spec (new_rjob r name ns f fp) \<and> rj_Phase n = PhaseDispatched \<and> st_JobRef (rj_Status n) = om_Name (jb_Meta job)
     \<and> om_Name (jb_Meta job) = ''mechanic-agent-'' @ take 12 fp \<and> selector_matches (owned_selector n) (om_Labels (jb_Meta job))"
proof -
  note parts = source_parts [OF assms(1,2)]
  have rs: "responsive_server (lift_kube (pf_Kube P) :: ('w, 'h) watcher kube) (view_of view) (calm_of calm) (tick_of tick)"
    by (rule lift_responsive [OF assms(3)])
  have rd: "ready (view_of view) (calm_of calm) r"
    unfolding ready_def parts(4) using combined_passes [OF assms(4) responsive_server.clock [OF assms(3)]] by auto
  have ns: "bc_AgentNamespace (builder_config cfg) = cfg_AgentNamespace (pr_Cfg r)" by (simp add: builder_config_def parts(2))
  have cfg: "rc_Cfg ctl = pr_Cfg r" by (simp add: parts)
  from responsive_server.delivered [OF rs parts(1,5) cfg parts(7,8) ns assms(7) rd assms(8), unfolded parts(2,3), OF assms(5,6,9-17)]
  show ?thesis by (auto simp: view_of_def)
qed

text \<open>The server in memory with the secrets in place, and the pod that keeps crashing.\<close>

definition ready_platform :: "(cluster, unit) platform" where
  "ready_platform = registry_platform\<lparr>pf_GetSecret := (\<lambda>ns name. ret (Inr (\<lambda>_. Some ''x'')))\<rparr>"

definition web_found :: Finding where
  "web_found = (finding_of ''Pod'' (po_Meta (web_pod ''1'')) ''Pod/web-6d-1'' [''container app: CrashLoopBackOff'']
     (computePodSeverity (web_pod ''1'')))\<lparr>f_NodeName := ''node-1''\<rparr>"

definition no_objects :: objects where
  "no_objects = \<lparr>ob_rjobs = [], ob_jobs = [], ob_history = [], ob_clock = 0\<rparr>"

lemma ready_started:
  "\<exists>ctl p srcs. main_setup ready_platform = Inr (sample_settings, ctl, source_reconciler_of ready_platform sample_settings None p # srcs)
     \<and> pv_ExtractFinding p = pod_ExtractFinding (native_client ready_platform \<lparr>rd_rules = builtinRules\<rparr>)"
  using sample_platform_env
  by (auto simp: main_setup_def buildCorrelator_def ready_platform_def registry_platform_def memory_platform_def sample_settings_def
      default_config_def zero_config_def sample_platform_def NewRedactor_def NewBuilder_def builder_config_def wrap32_def enabledProviders_Some)

lemma web_failing:
  assumes "r = source_reconciler_of ready_platform cfg tp p"
    "pv_ExtractFinding p = pod_ExtractFinding (native_client ready_platform red)"
  shows "failing (view_of fst) (calm_of (\<lambda>w. snd w = [])) r name ns (KPod (web_pod ''1'')) web_found"
proof -
  let ?I = "rests (view_of fst) (calm_of (\<lambda>w. snd w = []))" and ?c = "native_client ready_platform red"
  have clk: "answers_in (?I a) (k_now (nv_Kube ?c)) (ob_clock a)" for a
    using lift_responds [OF mem_read_responds, of a "tidily ''mechanic''" ob_clock]
    by (simp add: native_client_def lift_native_def lift_kube_def ready_platform_def registry_platform_def memory_platform_def memory_server_def)
  have parent: "answers_in (?I a) (getParent ?c (po_Meta (web_pod ''1'')) ''Pod'') ''Pod/web-6d-1''" for a
    by (simp add: getParent_def web_pod_def maxTraversalDepth_def eval_nat_numeral native_client_def lift_native_def ready_platform_def
        registry_platform_def memory_platform_def kindToGV_def node_text_def)
      (auto simp: responds_def on_cluster_def rests_def view_of_def calm_of_def healthy_def)
  have skip: "\<not> ShouldSkip (om_Annotations (object_meta (KPod (web_pod ''1'')))) t" for t
    by (simp add: ShouldSkip_def web_pod_def zero_meta_def mget_def)
  have "answers_in (?I a) (pod_ExtractFinding ?c (KPod (web_pod ''1''))) (Inr (Some web_found))" for a
    unfolding pod_ExtractFinding_def guarded_def
    by (rule responds_bind [OF clk], simp add: web_errors skip del: object_meta.simps, rule responds_bind [OF parent])
      (simp add: web_found_def web_pod_def)
  moreover have "\<exists>as. answers_in (?I a) (on_cluster (k_get_namespace (memory_server R) n)) (Inr as) \<and> (\<forall>t. \<not> ShouldSkip as t)" for R n a
    using lift_responds [OF mem_read_responds, of a R "\<lambda>_. Inr Map.empty"]
    by (intro exI [of _ Map.empty]) (simp add: memory_server_def ShouldSkip_def mget_def)
  moreover have "answers_in (?I a) (on_cluster (ret x)) x" for x :: "api_error + kobject" and a
    by (rule lift_responds) simp
  ultimately show ?thesis
    unfolding failing_def assms(1) using assms(2)
    by (auto simp: source_reconciler_of_def lift_kube_def ready_platform_def registry_platform_def memory_platform_def)
qed

lemma web_eligible:
  assumes "FindingFingerprint web_found = Inr fp"
  shows "eligible (source_reconciler_of P sample_settings tp p) (KPod (web_pod ''1'')) web_found fp"
proof -
  have "SeverityLevel ''low'' = 1" using SeverityLevel_simps(4) by (simp add: SeverityLow_def)
  moreover have "f_Namespace web_found = ''default''" "f_ChainDepth web_found = 0" by (simp_all add: web_found_def finding_of_def web_pod_def)
  moreover have "mget (om_Annotations (po_Meta (web_pod ''1''))) AnnotationPriority \<noteq> ''critical''"
    by (simp add: web_pod_def zero_meta_def mget_def)
  ultimately show ?thesis
    using assms
    by (simp add: eligible_def admissible_def source_reconciler_of_def sample_settings_def default_config_def zero_config_def
        MeetsSeverityThreshold_def Let_def)
qed

theorem finding_gets_agent_witness:
  "\<exists>ctl r srcs fp w n job. main_setup ready_platform = Inr (sample_settings, ctl, r # srcs) \<and> FindingFingerprint web_found = Inr fp
     \<and> deliver (tick_of (\<lambda>t w. ((fst w)\<lparr>ob_clock := t\<rparr>, snd w))) r ctl ''web-6d-1'' ''default'' fp (120 * Second) (150 * Second)
         \<lparr>world = initial sample_settings (no_objects, []) (), trace = [], firstSeen = firstSeen fresh_state, initOnce = False\<rparr>
       = ([(RequeueAfter (120 * Second), None), (Done, None), (Requeue, None), (Done, None)], w)
     \<and> ob_rjobs (fst (wt_Cluster w)) = [n] \<and> ob_jobs (fst (wt_Cluster w)) = [job] \<and> rj_Phase n = PhaseDispatched
     \<and> om_Name (jb_Meta job) = ''mechanic-agent-'' @ take 12 fp"
proof -
  obtain fp where fp: "FindingFingerprint web_found = Inr fp"
    using errors_decode [of web_found "[''container app: CrashLoopBackOff'']"]
    by (auto simp: FindingFingerprint_def) (simp add: web_found_def finding_of_def)
  obtain ctl p srcs where m: "main_setup ready_platform = Inr (sample_settings, ctl, source_reconciler_of ready_platform sample_settings None p # srcs)"
    and p: "pv_ExtractFinding p = pod_ExtractFinding (native_client ready_platform \<lparr>rd_rules = builtinRules\<rparr>)"
    using ready_started by blast
  let ?r = "source_reconciler_of ready_platform sample_settings None p"
  let ?s = "\<lparr>world = initial sample_settings (no_objects, []) (), trace = [], firstSeen = firstSeen fresh_state, initOnce = False\<rparr>"
  note cfg = sample_settings_def default_config_def zero_config_def
  have server: "responsive_server (pf_Kube ready_platform) fst (\<lambda>w. snd w = []) (\<lambda>t w. ((fst w)\<lparr>ob_clock := t\<rparr>, snd w))"
    using memory_rests.responsive_server_axioms by (simp add: ready_platform_def registry_platform_def memory_platform_def)
  have secrets: "secrets_ready fst (\<lambda>w. snd w = []) ready_platform sample_settings"
    by (auto simp: secrets_ready_def ready_platform_def registry_platform_def memory_platform_def missing_key_None
        intro!: exI [of _ "\<lambda>_. Some ''x''"])
  have start: "range_ok (pf_Range ready_platform)" "windowed sample_settings" "unsighted sample_settings fp ?s"
      "rests (view_of fst) (calm_of (\<lambda>w. snd w = [])) no_objects (world ?s)"
    by (simp_all add: range_ok_def ready_platform_def registry_platform_def memory_platform_def windowed_def cfg Second_def maxDuration_def
        unsighted_def rests_def view_of_def calm_of_def healthy_def initial_def NewCachedChecker_def)
  have cluster: "vacant (cfg_AgentNamespace sample_settings) fp no_objects" "\<not> list_ex (supersedes web_found) (ob_rjobs no_objects)"
      "ob_clock no_objects + cfg_StabilisationWindow sample_settings \<le> 120 * Second"
      "120 * Second \<le> ob_clock no_objects + 2 * cfg_StabilisationWindow sample_settings"
      "seconds (cfg_CorrelationWindowSeconds sample_settings) \<le> time_sub (150 * Second) (120 * Second)"
      "2 \<le> cfg_MultiPodThreshold sample_settings"
    by (simp_all add: vacant_def tidy_def no_objects_def cfg seconds_small Second_def time_sub_def
        maxDuration_def minDuration_def)
  have al: "alone ctl I (ob_rjobs no_objects) i" for I i
    by (rule alone_without_pending [OF m cluster(6)]) (simp add: no_objects_def)
  have "cfg_StabilisationWindow sample_settings = 120 * Second" "ob_rjobs no_objects = []" "ob_jobs no_objects = []"
      "0 < cfg_MaxConcurrentJobs sample_settings"
    by (simp_all add: cfg no_objects_def)
  with finding_gets_agent [OF m list.set_intros(1) server secrets start(1,2) web_failing [OF refl p] web_eligible [OF fp] start(3,4)
      cluster(1-5) al, of "''web-6d-1''" "''default''"] m fp
  show ?thesis by fastforce
qed

end
