(* ===== verification/Api_Scheme.thy ===== *)
theory Api_Scheme
  imports Kube
begin

text \<open>
  The registration of the API group: \<open>src/api/v1alpha1/groupversion_info.go\<close> and the head of
  \<open>src/api/v1alpha1/remediationjob_types.go\<close>. A scheme of \<open>k8s.io/apimachinery\<close> is a value of an
  arbitrary type with the two operations that the code calls.
\<close>

record group_version =
  gv_Group :: string
  gv_Version :: string

definition GroupVersion :: group_version where
  "GroupVersion = \<lparr>gv_Group = ''remediation.mechanic.io'', gv_Version = ''v1alpha1''\<rparr>"

definition remediationGroupVersion :: group_version where
  "remediationGroupVersion = \<lparr>gv_Group = ''remediation.mechanic.io'', gv_Version = ''v1alpha1''\<rparr>"

record 's scheme =
  sc_New :: 's
  sc_AddKnownTypes :: "group_version \<Rightarrow> string list \<Rightarrow> 's \<Rightarrow> 's"
  sc_AddToGroupVersion :: "group_version \<Rightarrow> 's \<Rightarrow> 's"

text \<open>The error that \<open>addRemediationTypes\<close> returns, and the scheme it leaves.\<close>

definition addRemediationTypes :: "'s scheme \<Rightarrow> 's \<Rightarrow> go_error option \<times> 's" where
  "addRemediationTypes S s =
     (let s1 = sc_AddKnownTypes S remediationGroupVersion [''RemediationJob'', ''RemediationJobList''] s;
          s2 = sc_AddToGroupVersion S remediationGroupVersion s1
      in (None, s2))"

definition NewScheme :: "'s scheme \<Rightarrow> go_error + 's" where
  "NewScheme S =
     (case addRemediationTypes S (sc_New S) of
        (Some e, _) \<Rightarrow> Inl (GoPanic ''failed to register scheme'')
      | (None, s) \<Rightarrow> Inr s)"

section \<open>Lemmas\<close>

text \<open>
  What \<open>k8s.io/apimachinery\<close> documents: a type that was added is known under its group and version, and
  no later registration forgets one.
\<close>

definition registers :: "'s scheme \<Rightarrow> ('s \<Rightarrow> (group_version \<times> string) set) \<Rightarrow> bool" where
  "registers S known =
     ((\<forall>gv kinds s. known s \<union> Pair gv ` set kinds \<subseteq> known (sc_AddKnownTypes S gv kinds s))
      \<and> (\<forall>gv s. known s \<subseteq> known (sc_AddToGroupVersion S gv s)))"

text \<open>
  The group that the code generator reads from the package is the one the types are registered under, and
  the registration never fails, so \<open>NewScheme\<close> does not panic.
\<close>

lemma same_group_version: "GroupVersion = remediationGroupVersion"
  by (simp add: GroupVersion_def remediationGroupVersion_def)

lemma types_registered:
  assumes "registers S known"
  shows "\<exists>s'. addRemediationTypes S s = (None, s') \<and> known s \<subseteq> known s'
    \<and> {(GroupVersion, ''RemediationJob''), (GroupVersion, ''RemediationJobList'')} \<subseteq> known s'"
proof -
  let ?s1 = "sc_AddKnownTypes S remediationGroupVersion [''RemediationJob'', ''RemediationJobList''] s"
  have "known s \<union> Pair remediationGroupVersion ` set [''RemediationJob'', ''RemediationJobList''] \<subseteq> known ?s1"
      "known ?s1 \<subseteq> known (sc_AddToGroupVersion S remediationGroupVersion ?s1)"
    using assms unfolding registers_def by blast+
  then show ?thesis unfolding addRemediationTypes_def Let_def same_group_version by auto
qed

lemma NewScheme_total: "\<exists>s. NewScheme S = Inr s"
  by (simp add: NewScheme_def addRemediationTypes_def Let_def)

end
