(* ===== verification/Program.thy ===== *)
theory Program
  imports Watcher Api_Scheme
begin

text \<open>
  \<open>main\<close> of \<open>src/cmd/watcher/main.go\<close> as a whole, and the two \<open>SetupWithManager\<close> methods. The manager
  of controller-runtime is a parameter: a record of the calls that \<open>main\<close> makes. Every way out of the
  program is a value: the version, a fatal error with the text that is logged, or the end of a run of
  the manager.
\<close>

section \<open>The manager\<close>

text \<open>What a controller is registered for: the kind it watches, and the kinds whose owners it watches.\<close>

record registration =
  reg_For :: string
  reg_Owns :: "string list"

record ('w, 's) manager =
  mg_Scheme :: "'s scheme"
  mg_AddClientGo :: "'s \<Rightarrow> go_error + 's"
  mg_AddBatch :: "'s \<Rightarrow> go_error + 's"
  mg_GetConfig :: "go_error + unit"  \<comment> \<open>\<open>GetConfigOrDie\<close>\<close>
  mg_New :: "'s \<Rightarrow> CacheOptions \<Rightarrow> nat \<Rightarrow> ('w, string option) state"
  mg_Complete :: "registration \<Rightarrow> ('w, go_error option) state"
  mg_AddHealthzCheck :: "string \<Rightarrow> ('w, go_error option) state"
  mg_AddReadyzCheck :: "string \<Rightarrow> ('w, go_error option) state"
  mg_Start :: "('w, go_error option) state"

definition RemediationJob_SetupWithManager :: "('w, 's) manager \<Rightarrow> ('w, go_error option) state" where
  "RemediationJob_SetupWithManager M = mg_Complete M \<lparr>reg_For = ''RemediationJob'', reg_Owns = [''Job'']\<rparr>"

definition SourceProvider_SetupWithManager :: "('w, 's) manager \<Rightarrow> 'v SourceProvider \<Rightarrow> ('w, go_error option) state" where
  "SourceProvider_SetupWithManager M p = mg_Complete M \<lparr>reg_For = pv_ObjectType p, reg_Owns = []\<rparr>"

section \<open>The program\<close>

datatype 'a outcome = PrintVersion string | Fatal go_error | Ran 'a

text \<open>A call whose error is fatal, and what follows it.\<close>

definition fatal_on :: "string \<Rightarrow> ('w, go_error option) state \<Rightarrow> ('w, 'a outcome) state \<Rightarrow> ('w, 'a outcome) state" where
  "fatal_on msg c next = do { e \<leftarrow> c; case e of Some err \<Rightarrow> ret (Fatal (Wrap msg err)) | None \<Rightarrow> next }"

definition fatal_in :: "(go_error \<Rightarrow> go_error) \<Rightarrow> go_error + 'b \<Rightarrow> ('b \<Rightarrow> ('w, 'a outcome) state) \<Rightarrow> ('w, 'a outcome) state" where
  "fatal_in report x next = (case x of Inl err \<Rightarrow> ret (Fatal (report err)) | Inr b \<Rightarrow> next b)"

definition add_schemes :: "('w, 's) manager \<Rightarrow> go_error + 's" where
  "add_schemes M =
     (case mg_AddClientGo M (sc_New (mg_Scheme M)) of
        Inl e \<Rightarrow> Inl (Wrap ''failed to add client-go scheme'' e)
      | Inr s1 \<Rightarrow>
          (case mg_AddBatch M s1 of
             Inl e \<Rightarrow> Inl (Wrap ''failed to add batchv1 scheme'' e)
           | Inr s2 \<Rightarrow>
               (case addRemediationTypes (mg_Scheme M) s2 of
                  (Some e, _) \<Rightarrow> Inl (Wrap ''failed to add v1alpha1 remediation scheme'' e)
                | (None, s3) \<Rightarrow> Inr s3)))"

text \<open>The loop over the providers.\<close>

fun setup_providers :: "('w, 's) manager \<Rightarrow> 'v SourceProvider list \<Rightarrow> ('w, 'a outcome) state \<Rightarrow> ('w, 'a outcome) state" where
  "setup_providers M [] next = next"
| "setup_providers M (p # ps) next = fatal_on ''provider setup failed'' (SourceProvider_SetupWithManager M p) (setup_providers M ps next)"

text \<open>The end of \<open>main\<close>: the checks and the run of the manager.\<close>

definition run_manager :: "('w, 's) manager \<Rightarrow> 'a \<Rightarrow> ('w, 'a outcome) state" where
  "run_manager M parts =
     fatal_on ''unable to set up health check'' (mg_AddHealthzCheck M ''healthz'')
       (fatal_on ''unable to set up ready check'' (mg_AddReadyzCheck M ''readyz'')
         (fatal_on ''problem running manager'' (mg_Start M) (ret (Ran parts))))"

type_synonym ('w, 'h) parts = "Config \<times> ('w, 'h) watcher reconciler \<times> (('w, 'h) watcher, kobject) source_reconciler list"

text \<open>\<open>main\<close> after the manager has been created.\<close>

definition wire :: "('w, 'h) platform \<Rightarrow> ('w, 's) manager \<Rightarrow> Config \<Rightarrow> ('w, ('w, 'h) parts outcome) state" where
  "wire P M cfg =
     fatal_in (Wrap ''jobbuilder init failed'') (NewBuilder (builder_config cfg)) (\<lambda>jb.
     fatal_in (Wrap ''failed to initialise redactor'') (NewRedactor (pf_Compile P) (cfg_ExtraRedactPatterns cfg)) (\<lambda>redactor.
     fatal_in (Wrap ''buildCorrelator failed'') (buildCorrelator (lift_kube (pf_Kube P)) (cfg_DisableCorrelation cfg) (cfg_MultiPodThreshold cfg)) (\<lambda>corr.
     fatal_on ''RemediationJobReconciler setup failed'' (RemediationJob_SetupWithManager M) (
     fatal_in id (enabledProviders (Some (native_client P redactor))) (\<lambda>providers.
     fatal_in id (credentials (pf_Env P) (pf_KeyErr P) cfg) (\<lambda>tp.
     setup_providers M providers
       (run_manager M (cfg, controller_of P cfg jb corr, map (source_reconciler_of P cfg tp) providers))))))))"

definition main_program :: "string list \<Rightarrow> string \<Rightarrow> ('w, 'h) platform \<Rightarrow> ('w, 's) manager \<Rightarrow> ('w, ('w, 'h) parts outcome) state" where
  "main_program args version P M =
     (if list_ex (\<lambda>arg. arg = ''--version'') args then ret (PrintVersion version)
      else
        fatal_in (Wrap ''config error'') (FromEnv (pf_Compile P) (pf_Quantity P) (pf_Env P)) (\<lambda>cfg.
        fatal_in (Wrap ''logger init failed'') (logging_New (pf_ZapLevel P) (cfg_LogLevel cfg)) (\<lambda>_.
        fatal_in id (add_schemes M) (\<lambda>scheme.
        fatal_in id (mg_GetConfig M) (\<lambda>_. do {
          m \<leftarrow> manager_loop (mg_New M scheme (manager_cache cfg)) 1;
          fatal_in id m (\<lambda>_. wire P M cfg)
        })))))"

section \<open>Lemmas\<close>

lemma wp_fatal_on:
  "wp (fatal_on msg c k) Q w \<longleftrightarrow> wp c (\<lambda>e w'. case e of Some err \<Rightarrow> Q (Fatal (Wrap msg err)) w' | None \<Rightarrow> wp k Q w') w"
  by (auto simp: fatal_on_def wp_bind wp_all [of c] wp_return split: option.split)

lemma wp_fatal_in: "wp (fatal_in report x k) Q w \<longleftrightarrow> (case x of Inl err \<Rightarrow> Q (Fatal (report err)) w | Inr b \<Rightarrow> wp (k b) Q w)"
  by (simp add: fatal_in_def wp_return split: sum.split)

lemma fatal_on_responds:
  "responds I c None N \<Longrightarrow> I w \<Longrightarrow> (\<And>w'. N w' \<Longrightarrow> wp k Q w') \<Longrightarrow> wp (fatal_on msg c k) Q w"
  unfolding wp_fatal_on by (rule wpI) (auto dest: respondsD)

text \<open>A fatal error ends the program, so a postcondition that admits it is kept by what follows a call.\<close>

lemma fatal_on_any: "(\<And>e w. Q (Fatal e) w) \<Longrightarrow> (\<And>w. wp k Q w) \<Longrightarrow> wp (fatal_on msg c k) Q w"
  unfolding wp_fatal_on by (rule wpI) (simp split: option.split)

lemma setup_providers_any: "(\<And>e w. Q (Fatal e) w) \<Longrightarrow> (\<And>w. wp k Q w) \<Longrightarrow> wp (setup_providers M ps k) Q w"
  by (induction ps arbitrary: w) (auto intro!: fatal_on_any)

text \<open>What runs is what was set up.\<close>

lemma wire_outcome:
  assumes "FromEnv (pf_Compile P) (pf_Quantity P) (pf_Env P) = Inr cfg" "logging_New (pf_ZapLevel P) (cfg_LogLevel cfg) = Inr x"
  shows "wp (wire P M cfg) (\<lambda>x _. case x of PrintVersion v \<Rightarrow> False | Fatal e \<Rightarrow> True
    | Ran parts \<Rightarrow> main_setup P = Inr parts \<and> fst parts = cfg) w"
  unfolding wire_def run_manager_def
  by (auto simp: wp_fatal_in wp_return main_setup_def assms intro!: fatal_on_any setup_providers_any split: sum.split)

text \<open>
  The manager is asked for only after the configuration was accepted, and the program ends in one of
  three ways.
\<close>

lemma main_program_outcome:
  "wp (main_program args version P M) (\<lambda>x w'. case x of
       PrintVersion v \<Rightarrow> ''--version'' \<in> set args \<and> v = version \<and> w' = w
     | Fatal e \<Rightarrow> ''--version'' \<notin> set args
     | Ran parts \<Rightarrow> ''--version'' \<notin> set args \<and> main_setup P = Inr parts
         \<and> (\<exists>scheme k u u'. 1 \<le> k \<and> k \<le> 10 \<and> run_state (mg_New M scheme (manager_cache (fst parts)) k) u = (None, u'))) w"
proof -
  have m: "wp (manager_loop (mg_New M scheme (manager_cache cfg)) 1 \<bind> (\<lambda>m. fatal_in id m (\<lambda>_. wire P M cfg))) (\<lambda>x w'. case x of
       PrintVersion v \<Rightarrow> False | Fatal e \<Rightarrow> True
     | Ran parts \<Rightarrow> main_setup P = Inr parts
         \<and> (\<exists>scheme k u u'. 1 \<le> k \<and> k \<le> 10 \<and> run_state (mg_New M scheme (manager_cache (fst parts)) k) u = (None, u'))) w"
    if "FromEnv (pf_Compile P) (pf_Quantity P) (pf_Env P) = Inr cfg" "logging_New (pf_ZapLevel P) (cfg_LogLevel cfg) = Inr x" for cfg x scheme
    unfolding wp_bind
    by (rule wp_mono [OF manager_loop_from])
      (auto simp: wp_fatal_in manager_result_def split: sum.splits outcome.splits intro!: wp_mono [OF wire_outcome [OF that]], blast)
  show ?thesis
    unfolding main_program_def
    by (auto simp: wp_fatal_in wp_return list_ex_iff simp del: One_nat_def split: sum.split intro!: wp_mono [OF m] split: outcome.splits)
qed

text \<open>
  What controller-runtime documents of the registration of controllers: the name of a controller is the
  kind it watches in lower case, and a name that is not taken is accepted. \<open>names\<close> are the names taken.
\<close>

definition controller_name :: "string \<Rightarrow> string" where
  "controller_name kind = map (\<lambda>c. let n = of_char c :: nat in if 65 \<le> n \<and> n \<le> 90 then char_of (n + 32) else c) kind"

definition accepts_free_names :: "('w, 's) manager \<Rightarrow> ('w \<Rightarrow> string set) \<Rightarrow> bool" where
  "accepts_free_names M names = (\<forall>reg ns. controller_name (reg_For reg) \<notin> ns \<longrightarrow>
     responds (\<lambda>w. names w = ns) (mg_Complete M reg) None (\<lambda>w. names w = insert (controller_name (reg_For reg)) ns))"

lemma setup_providers_accepted:
  assumes "accepts_free_names M names" "distinct (map (controller_name \<circ> pv_ObjectType) ps)"
    and "(controller_name \<circ> pv_ObjectType) ` set ps \<inter> ns = {}" "names w = ns"
    and "\<And>w'. names w' = ns \<union> (controller_name \<circ> pv_ObjectType) ` set ps \<Longrightarrow> wp k Q w'"
  shows "wp (setup_providers M ps k) Q w"
  using assms(2-5)
proof (induction ps arbitrary: ns w)
  case (Cons p ps)
  have "responds (\<lambda>w. names w = ns) (SourceProvider_SetupWithManager M p) None
      (\<lambda>w. names w = insert (controller_name (pv_ObjectType p)) ns)"
    using assms(1) Cons.prems(2) unfolding accepts_free_names_def SourceProvider_SetupWithManager_def
    by (metis Int_iff comp_apply empty_iff image_eqI list.set_intros(1) registration.select_convs(1))
  then show ?case
    unfolding setup_providers.simps
    by (rule fatal_on_responds) (use Cons.prems in \<open>auto simp: image_iff disjoint_iff intro!: Cons.IH [where ns = "insert (controller_name (pv_ObjectType p)) ns"]\<close>)
qed simp

text \<open>The attempts at creating the manager: refused for want of a token before the \<open>k\<close>-th, which succeeds.\<close>

definition created_at :: "('w \<Rightarrow> bool) \<Rightarrow> (nat \<Rightarrow> ('w, string option) state) \<Rightarrow> nat \<Rightarrow> bool" where
  "created_at I new_manager k = (1 \<le> k \<and> k \<le> 10 \<and> answers_in I (new_manager k) None
     \<and> (\<forall>i. 1 \<le> i \<and> i < k \<longrightarrow> (\<exists>msg. sublist ''Unauthorized'' msg \<and> answers_in I (new_manager i) (Some msg))))"

lemma manager_loop_created:
  assumes "created_at I new_manager k" "1 \<le> i" "i \<le> k"
  shows "answers_in I (manager_loop new_manager i) (Inr k)"
  using assms(2,3)
proof (induction "k - i" arbitrary: i)
  case 0
  then show ?case
    using assms(1) unfolding manager_loop.simps [of _ i] created_at_def by (auto intro!: responds_bind)
next
  case (Suc n)
  then obtain msg where "sublist ''Unauthorized'' msg" "answers_in I (new_manager i) (Some msg)"
    using assms(1) unfolding created_at_def by (metis Suc_neq_Zero diff_is_0_eq' le_less_linear)
  moreover have "i < 10" using Suc assms(1) by (auto simp: created_at_def)
  moreover have "answers_in I (manager_loop new_manager (i + 1)) (Inr k)" using Suc by (intro Suc.hyps) auto
  ultimately show ?case unfolding manager_loop.simps [of _ i] by (auto intro!: responds_bind)
qed

text \<open>The seven controllers of the watcher.\<close>

definition watcher_kinds :: "string list" where
  "watcher_kinds = [''RemediationJob'', ''Pod'', ''Deployment'', ''PersistentVolumeClaim'', ''Node'', ''StatefulSet'', ''Job'']"

lemma watcher_names: "map controller_name watcher_kinds =
    [''remediationjob'', ''pod'', ''deployment'', ''persistentvolumeclaim'', ''node'', ''statefulset'', ''job'']"
  by code_simp

lemma wire_runs:
  assumes "FromEnv (pf_Compile P) (pf_Quantity P) (pf_Env P) = Inr cfg" "credentials (pf_Env P) (pf_KeyErr P) cfg = Inr tp"
    and "accepts_free_names M names" "names w = {}"
    and "\<And>c. c \<in> {mg_AddHealthzCheck M ''healthz'', mg_AddReadyzCheck M ''readyz'', mg_Start M} \<Longrightarrow>
      answers_in (\<lambda>w. names w = controller_name ` set watcher_kinds) c None"
  shows "wp (wire P M cfg) (\<lambda>x w'. (\<exists>ctl srcs. x = Ran (cfg, ctl, srcs) \<and> length srcs = 6) \<and> names w' = controller_name ` set watcher_kinds) w"
proof -
  from accepted_config [OF assms(1)] have ok: "config_ok cfg" "settings_valid (pf_Compile P) (pf_Quantity P) cfg" by simp_all
  obtain redactor where red: "NewRedactor (pf_Compile P) (cfg_ExtraRedactPatterns cfg) = Inr redactor"
    using ok(2) by (auto simp: settings_valid_def)
  obtain corr where corr: "buildCorrelator (lift_kube (pf_Kube P)) (cfg_DisableCorrelation cfg) (cfg_MultiPodThreshold cfg)
      = Inr (corr :: ('a, 'b) watcher rule list option)"
    using ok(1) by (cases "cfg_DisableCorrelation cfg") (auto simp: buildCorrelator_def config_ok_def)
  obtain providers where ps: "enabledProviders (Some (native_client P redactor)) = Inr providers"
    "map pv_ObjectType providers = tl watcher_kinds" by (simp add: enabledProviders_Some watcher_kinds_def)
  have names: "map (controller_name \<circ> pv_ObjectType) providers = tl (map controller_name watcher_kinds)"
    using ps(2) by (metis map_map map_tl)
  then have set: "(controller_name \<circ> pv_ObjectType) ` set providers = set (tl (map controller_name watcher_kinds))"
    by (metis list.set_map)
  have first: "responds (\<lambda>w. names w = {}) (RemediationJob_SetupWithManager M) None (\<lambda>w. names w = {controller_name ''RemediationJob''})"
    using assms(3) unfolding accepts_free_names_def RemediationJob_SetupWithManager_def by (metis empty_iff registration.select_convs(1))
  have all: "controller_name ` set watcher_kinds = {controller_name ''RemediationJob''} \<union> set (tl (map controller_name watcher_kinds))"
    by (auto simp: watcher_kinds_def)
  have len: "length providers = 6" using arg_cong [OF ps(2), of length] by (simp add: watcher_kinds_def)
  have run: "wp (run_manager M parts) (\<lambda>x w'. x = Ran parts \<and> names w' = controller_name ` set watcher_kinds) w'"
    if "names w' = controller_name ` set watcher_kinds" for parts :: "('a, 'b) parts" and w'
    unfolding run_manager_def
    using that by (intro fatal_on_responds [OF assms(5)]) (auto simp: wp_return)
  have "controller_name ''RemediationJob'' = hd (map controller_name watcher_kinds)" by (simp add: watcher_kinds_def)
  then have dist: "distinct (map (controller_name \<circ> pv_ObjectType) providers)"
      "(controller_name \<circ> pv_ObjectType) ` set providers \<inter> {controller_name ''RemediationJob''} = {}"
    unfolding set names watcher_names by simp_all
  have rest: "wp (setup_providers M providers (run_manager M parts)) (\<lambda>x w'. x = Ran parts \<and> names w' = controller_name ` set watcher_kinds) w'"
    if "names w' = {controller_name ''RemediationJob''}" for parts :: "('a, 'b) parts" and w'
    by (rule setup_providers_accepted [OF assms(3) dist that], rule run) (unfold all set, simp)
  show ?thesis
    unfolding wire_def wp_fatal_in builder_of_valid(1) [OF ok] red corr sum.case
    by (rule fatal_on_responds [OF first assms(4)])
      (auto simp: wp_fatal_in ps(1) assms(2) len intro!: wp_mono [OF rest])
qed

section \<open>Property\<close>

text \<open>
  C20. A watcher that can start does start: if the environment is accepted, the log level and the
  GitHub credentials are valid, the manager is created at the first attempt or at one of the nine that
  follow refusals for want of a token, and controller-runtime accepts every controller whose name is
  free, then \<open>main\<close> gets to run the manager with the controller and all six sources: the names
  under which they are registered are pairwise different, so that none is refused, and they are the
  only ones; what runs is what the configuration says.
\<close>

theorem watcher_runs:
  assumes "''--version'' \<notin> set args" "FromEnv (pf_Compile P) (pf_Quantity P) (pf_Env P) = Inr cfg"
    and "logging_New (pf_ZapLevel P) (cfg_LogLevel cfg) = Inr ()" "credentials (pf_Env P) (pf_KeyErr P) cfg = Inr tp"
    and "add_schemes M = Inr scheme" "mg_GetConfig M = Inr ()"
    and "created_at (\<lambda>w. names w = {}) (mg_New M scheme (manager_cache cfg)) k"
    and "accepts_free_names M names" "names w = {}"
    and "\<And>c. c \<in> {mg_AddHealthzCheck M ''healthz'', mg_AddReadyzCheck M ''readyz'', mg_Start M} \<Longrightarrow>
      answers_in (\<lambda>w. names w = controller_name ` set watcher_kinds) c None"
  shows "wp (main_program args version P M) (\<lambda>x w'. \<exists>ctl srcs. x = Ran (cfg, ctl, srcs) \<and> main_setup P = Inr (cfg, ctl, srcs)
    \<and> length srcs = 6 \<and> names w' = {''remediationjob'', ''pod'', ''deployment'', ''persistentvolumeclaim'', ''node'', ''statefulset'', ''job''}) w"
proof -
  have n: "controller_name ` set watcher_kinds
      = {''remediationjob'', ''pod'', ''deployment'', ''persistentvolumeclaim'', ''node'', ''statefulset'', ''job''}"
    unfolding list.set_map [symmetric] watcher_names by simp
  have wired: "wp (wire P M cfg) (\<lambda>x w'. \<exists>ctl srcs. x = Ran (cfg, ctl, srcs) \<and> main_setup P = Inr (cfg, ctl, srcs)
      \<and> length srcs = 6 \<and> names w' = controller_name ` set watcher_kinds) w'" if "names w' = {}" for w'
    by (rule wp_mono [OF wp_conjI [OF wire_runs [OF assms(2,4,8) that assms(10)] wire_outcome [OF assms(2,3)]]]) auto
  have "answers_in (\<lambda>w. names w = {}) (manager_loop (mg_New M scheme (manager_cache cfg)) 1) (Inr k)"
    by (rule manager_loop_created [OF assms(7)]) (use assms(7) in \<open>simp_all add: created_at_def\<close>)
  then have "wp (manager_loop (mg_New M scheme (manager_cache cfg)) 1) (\<lambda>m w'. m = Inr k \<and> names w' = {}) w"
    using assms(9) by (auto intro!: wpI dest: respondsD)
  then show ?thesis
    using assms(1) unfolding main_program_def n [symmetric]
    by (auto simp: wp_fatal_in assms(2,3,5,6) list_ex_iff wp_bind wired elim!: wp_mono)
qed

text \<open>A manager in memory, whose world is the list of the names taken; the second attempt at creating it succeeds.\<close>

definition memory_manager :: "(string list, unit) manager" where
  "memory_manager = \<lparr>mg_Scheme = \<lparr>sc_New = (), sc_AddKnownTypes = (\<lambda>gv kinds s. s), sc_AddToGroupVersion = (\<lambda>gv s. s)\<rparr>,
     mg_AddClientGo = Inr, mg_AddBatch = Inr, mg_GetConfig = Inr (),
     mg_New = (\<lambda>s opts k. ret (if k = 1 then Some ''Unauthorized'' else None)),
     mg_Complete = (\<lambda>reg. State (\<lambda>ns. if controller_name (reg_For reg) \<in> set ns then (Some (Err ''already exists''), ns)
       else (None, controller_name (reg_For reg) # ns))),
     mg_AddHealthzCheck = (\<lambda>_. ret None), mg_AddReadyzCheck = (\<lambda>_. ret None), mg_Start = ret None\<rparr>"

definition names_platform :: "(string list, unit) platform" where
  "names_platform = \<lparr>pf_Env = pf_Env sample_platform, pf_Kube = empty_cluster 0,
     pf_APIReader = (\<lambda>ns name. ret (Inl (NotFound name))), pf_GetOwners = (\<lambda>kind ns name. ret (Inl (NotFound name))),
     pf_ListEvents = (\<lambda>ns. ret (Inr [])), pf_Sort = (\<lambda>es. es),
     pf_GetObject = (\<lambda>kind name ns. ret (Inr (KPod (web_pod ''1'')))), pf_GetSecret = (\<lambda>ns name. ret (Inl (NotFound name))),
     pf_CtxErr = ret None, pf_GitHub = pf_GitHub sample_platform, pf_KeyErr = None, pf_Compile = pf_Compile sample_platform,
     pf_Quantity = pf_Quantity sample_platform, pf_ZapLevel = pf_ZapLevel sample_platform, pf_Range = (\<lambda>xs. xs)\<rparr>"

theorem watcher_runs_witness:
  "wp (main_program [] ''dev'' names_platform memory_manager) (\<lambda>x ns. (\<exists>ctl srcs. x = Ran (sample_settings, ctl, srcs) \<and> length srcs = 6)
     \<and> ''persistentvolumeclaim'' \<in> set ns) []"
proof -
  have env: "FromEnv (pf_Compile names_platform) (pf_Quantity names_platform) (pf_Env names_platform) = Inr sample_settings"
    "logging_New (pf_ZapLevel names_platform) (cfg_LogLevel sample_settings) = Inr ()"
    "credentials (pf_Env names_platform) (pf_KeyErr names_platform) sample_settings = Inr None"
    using sample_platform_env by (simp_all add: names_platform_def sample_platform_def)
  have schemes: "add_schemes memory_manager = Inr ()" by (simp add: add_schemes_def memory_manager_def addRemediationTypes_def Let_def)
  have created: "created_at (\<lambda>ns. set ns = {}) (mg_New memory_manager () opts) 2" for opts
    by (auto simp: created_at_def memory_manager_def intro!: exI [of _ "''Unauthorized''"])
  have conf: "mg_GetConfig memory_manager = Inr ()" by (simp add: memory_manager_def)
  have free: "accepts_free_names memory_manager set" by (simp add: accepts_free_names_def memory_manager_def responds_def)
  show ?thesis
    by (rule wp_mono [OF watcher_runs [OF _ env schemes conf created free]]) (auto simp: memory_manager_def)
qed

end
