(* ===== verification/Recorder.thy ===== *)
theory Recorder
  imports Kube
begin

text \<open>
  \<open>src/internal/testutil\<close>: the event recorder with which the tests see what the reconcilers report, and
  the draining of a fake recorder's channel. Objects are of an arbitrary type, and so are the arguments
  of a format; \<open>sprintf\<close> is \<open>fmt.Sprintf\<close> on them. Each method holds the mutex throughout, so it is
  one step on the recorded events.
\<close>

record 'o RecordedEvent =
  re_Object :: 'o
  re_EType :: string
  re_Reason :: string
  re_Message :: string

record 'o ObjectRecorder =
  rec_Events :: "'o RecordedEvent list"

definition Recorder_Event :: "'o \<Rightarrow> string \<Rightarrow> string \<Rightarrow> string \<Rightarrow> 'o ObjectRecorder \<Rightarrow> 'o ObjectRecorder" where
  "Recorder_Event object eventtype reason message r =
     r\<lparr>rec_Events := rec_Events r @ [\<lparr>re_Object = object, re_EType = eventtype, re_Reason = reason, re_Message = message\<rparr>]\<rparr>"

definition Eventf :: "(string \<Rightarrow> 'a list \<Rightarrow> string) \<Rightarrow> 'o \<Rightarrow> string \<Rightarrow> string \<Rightarrow> string \<Rightarrow> 'a list \<Rightarrow>
    'o ObjectRecorder \<Rightarrow> 'o ObjectRecorder" where
  "Eventf sprintf object eventtype reason messageFmt args r = Recorder_Event object eventtype reason (sprintf messageFmt args) r"

definition AnnotatedEventf :: "(string \<Rightarrow> 'a list \<Rightarrow> string) \<Rightarrow> 'o \<Rightarrow> (string \<rightharpoonup> string) \<Rightarrow> string \<Rightarrow> string \<Rightarrow> string \<Rightarrow> 'a list \<Rightarrow>
    'o ObjectRecorder \<Rightarrow> 'o ObjectRecorder" where
  "AnnotatedEventf sprintf object annotations eventtype reason messageFmt args r =
     Recorder_Event object eventtype reason (sprintf messageFmt args) r"

text \<open>The loop of \<open>FindByReason\<close>.\<close>

fun find_loop :: "string \<Rightarrow> 'o RecordedEvent list \<Rightarrow> 'o RecordedEvent list \<Rightarrow> 'o RecordedEvent list" where
  "find_loop reason [] out = out"
| "find_loop reason (e # es) out = find_loop reason es (if re_Reason e = reason then out @ [e] else out)"

definition FindByReason :: "string \<Rightarrow> 'o ObjectRecorder \<Rightarrow> 'o RecordedEvent list" where
  "FindByReason reason r = find_loop reason (rec_Events r) []"

text \<open>\<open>DrainEvents\<close> on the buffered channel: what was read, and what the channel holds at the end.\<close>

fun drain_loop :: "string list \<Rightarrow> string list \<Rightarrow> string list \<times> string list" where
  "drain_loop (e # es) out = drain_loop es (out @ [e])"
| "drain_loop [] out = (out, [])"

definition DrainEvents :: "string list \<Rightarrow> string list \<times> string list" where
  "DrainEvents channel = drain_loop channel []"

section \<open>Lemmas\<close>

lemma find_loop_filter: "find_loop reason es out = out @ filter (\<lambda>e. re_Reason e = reason) es"
  by (induction es arbitrary: out) auto

text \<open>An emission is found under its reason, after the earlier ones, and under no other.\<close>

lemma find_after_event:
  "FindByReason reason (Recorder_Event obj t reason' m r) =
     FindByReason reason r @ (if reason' = reason then [\<lparr>re_Object = obj, re_EType = t, re_Reason = reason', re_Message = m\<rparr>] else [])"
  by (simp add: FindByReason_def Recorder_Event_def find_loop_filter)

text \<open>
  A recorder attached to a reconciler: the events of its trace are recorded, and a search finds those
  with the reason, in the order of emission.
\<close>

fun attach :: "effect \<Rightarrow> event_target ObjectRecorder \<Rightarrow> event_target ObjectRecorder" where
  "attach (Event obj t reason m) r = Recorder_Event obj t reason m r"
| "attach _ r = r"

fun emitted :: "string \<Rightarrow> effect \<Rightarrow> event_target RecordedEvent list" where
  "emitted reason (Event obj t reason' m) =
     (if reason' = reason then [\<lparr>re_Object = obj, re_EType = t, re_Reason = reason', re_Message = m\<rparr>] else [])"
| "emitted reason _ = []"

lemma find_in_trace: "FindByReason reason (fold attach tr r) = FindByReason reason r @ concat (map (emitted reason) tr)"
proof (induction tr arbitrary: r)
  case (Cons a tr)
  have "FindByReason reason (attach a r) = FindByReason reason r @ emitted reason a"
    by (cases a) (simp_all add: find_after_event)
  with Cons show ?case by simp
qed simp

text \<open>Draining hands out the buffer in order and leaves the channel empty, so a second drain has nothing.\<close>

lemma drain_all: "DrainEvents channel = (channel, [])"
proof -
  have "drain_loop es out = (out @ es, [])" for es out :: "string list"
    by (induction es arbitrary: out) auto
  then show ?thesis by (simp add: DrainEvents_def)
qed

end
