(* ===== verification/Spec2Isabelle.thy ===== *)
theory Spec2Isabelle
  imports Anomalies Deep_Copy Injection Delimiters Delivery Program Recorder
begin

text \<open>
  A verification development for k8s-mechanic, a Kubernetes operator that watches cluster objects,
  turns failures into \<open>RemediationJob\<close> resources, and drives each of them through an agent job that
  investigates the failure and proposes a fix as a pull request.

  How the program works. A native provider (\<open>src/internal/provider/native\<close>) extracts a finding from
  a failing object. The source reconciler (\<open>src/internal/provider/provider.go\<close>) filters it (injection,
  namespace, severity, self-remediation depth with the circuit breaker), computes its fingerprint, waits
  for the stabilisation window, removes duplicates, checks readiness, and creates a \<open>RemediationJob\<close>. The
  controller (\<open>src/internal/controller/remediationjob_controller.go\<close>) correlates pending jobs, limits the
  number of agents, builds the agent job, follows it to a terminal phase and removes old jobs. The sink
  (\<open>src/internal/sink/github\<close>) closes pull requests whose cause has gone. \<open>src/cmd/watcher/main.go\<close>
  builds all of this from the environment.

  The model. Pure code is translated to functions. A handler is a program of the state monad over
  a record that has the world and the trace of effects (writes, events, metrics, sink calls) in the order of
  the source; the world is a type parameter, and every call that leaves the repository (the API server,
  the clock, random bytes, HTTP, the signing of tokens, zap levels, regular expressions given by the
  user, quantities) is a field of a record or an argument, about which a theorem assumes only what it names.
  A mutex makes a method atomic, so concurrent use is a sequence of calls; \<open>CachedChecker\<close>, which releases
  its lock in the middle, is modelled as its two critical sections. Errors and panics are values of sum
  types, integers are kept at their width by \<open>wrap32\<close> and \<open>wrap64\<close>, times are unbounded nanoseconds with the
  saturating subtraction of the package \<open>time\<close>, strings are lists of bytes, and the iteration order
  of a Go map or the order of equal elements in \<open>sort.Slice\<close> is an argument wherever it can be observed.

  The theories, from the bottom up:

  \<open>Prelude\<close>: the state monad with its weakest preconditions, Go integers, times, strings and lists, and the
  collections of facts that the other theories extend.

  \<open>Api_Types\<close>: the resource of \<open>src/api/v1alpha1/remediationjob_types.go\<close> and the Kubernetes objects that
  the program builds. \<open>Deep_Copy\<close>: its deep copies with pointers, slices and maps in a store; a copy, the base of
  every patch, shares no address with the object that is changed after it. \<open>Api_Scheme\<close>: the registration of the
  API group. \<open>Kube\<close>: the client, the effects, and the rules for what a program may emit
  (\<open>gives\<close>, \<open>emits\<close>) and how often (\<open>spends\<close>).

  \<open>Go_Text\<close>, \<open>Go_Json\<close>, \<open>Go_Sha256\<close>: what the source uses of the standard library: UTF-8 decoding and a
  leftmost-first regular expression matcher, the JSON encoder and decoder with the proof that encoded text is
  read back, and SHA-256. The decoder's nesting limit is the 10000 of \<open>encoding/json\<close>.

  \<open>Domain\<close>, \<open>Sanitise\<close>, \<open>Fingerprint\<close>: the vocabulary of \<open>src/internal/domain\<close>: severities, annotations
  with their dates, kind ranks, redaction, injection patterns, delimiters, truncation, the redact
  filter of \<open>src/cmd/redact\<close>, and the fingerprint. The payload round-trips, so two findings share a
  fingerprint only if they agree on their identity or collide in SHA-256. \<open>Matching\<close>: the languages of regular
  expressions as an inductive relation, and that the backtracking search finds a match exactly where a part of the
  text is in the language. \<open>Injection\<close>: an explicit list of phrases, without regular expressions, that the five
  injection patterns search for exactly. \<open>Redaction\<close>: a redactor only cuts pieces out and puts labels in their
  place, what it leaves contains no credential of the six kinds that are recognised by their own shape, whatever
  extra patterns it has, and \<open>src/cmd/redact\<close> ends with such a text. \<open>Delimiters\<close>: what the removal of the prompt
  delimiters does, and the gaps that it leaves after the redaction: an access key split by a delimiter and a
  delimiter wrapped around another pass, and one envelope of the prompt is not in the list.

  \<open>Circuit_Breaker\<close>, \<open>Bounded_Map\<close>, \<open>Metrics\<close>, \<open>Config\<close>, \<open>Correlator\<close>, \<open>Readiness\<close>, \<open>GitHub\<close>: one theory
  per package. The breaker and the map are interpretations of the locales \<open>gater\<close> and \<open>first_seen\<close>, each
  correlation rule is an interpretation of \<open>correlation_rule\<close>, and the properties of sequences of calls and of
  the correlator's groups are proved in the locales.

  \<open>Controller\<close> and \<open>Controller_Safety\<close>: the whole \<open>Reconcile\<close>, and that it refines an abstract life cycle (an
  inductive relation on phase and retry counter) on a server whose answers to patches report what was sent; one
  job per reconcile, none outside \<open>Pending\<close>. \<open>Source_Provider\<close> and \<open>Source_Safety\<close>: the reconciler of the sources and its gates: what may be
  created, after which time, and what the deletion of a source does.

  \<open>Native\<close> and \<open>Native_Findings\<close>: the six providers with their constructors (the interface \<open>SourceProvider\<close> is
  a record), and the walk along owner references, at most ten steps as in
  the source; the locale \<open>source_provider\<close> is their contract and is interpreted for each of them. Replicas
  of one workload share a fingerprint, and self-remediation cannot go deeper than configured.

  \<open>Job_Builder\<close>: the agent job with all its fields; the locale \<open>job_builder\<close> is what the controller relies on. The
  pod is well formed and confined, and from its environment the agent reads back the findings it was built for.

  \<open>Progress\<close>: what happens when nothing stands in the way: a finding becomes a job after its window, a pending
  job gets its agent. \<open>Starvation\<close>: the circuit breaker and the window together can keep a finding waiting
  for ever. \<open>Watcher\<close>: the construction of the program from its environment; an accepted configuration
  can only fail for the log level or the credentials, and the controller can build every job that the sources create.
  \<open>Program\<close>: \<open>main\<close> as a whole and \<open>SetupWithManager\<close>, with the manager of controller-runtime as a parameter; with
  an accepted configuration and a manager that accepts free names, the watcher runs with all its controllers.
  \<open>Recorder\<close>: the event recorder of the tests (\<open>src/internal/testutil\<close>).

  The system as a whole. \<open>Guards\<close>: rely-guarantee rules: what every call of a reconciler keeps
  (\<open>upholds\<close>), with the locales \<open>guarded_kube\<close>, \<open>guarded_controller\<close> and \<open>guarded_source\<close>, in which it is proved
  once that \<open>Reconcile\<close> keeps whatever its single calls keep. \<open>Server\<close>: the API server as the locale
  \<open>api_server\<close>: reads may be stale, answers may be lost, and other writers act between any two calls within
  a relation \<open>rely\<close>; it is interpreted on a server in memory. \<open>System\<close>: the step relation \<open>system_step\<close> of a
  running watcher (a reconcile of the controller, a reconcile of a source, a step of the others, a restart),
  and that no interleaving gives a finding a second \<open>RemediationJob\<close> or a second agent job. \<open>Concurrency\<close>: in
  every reachable state of a watcher without correlation the number of active agents is within the limit, up to
  the number of active jobs that a listing from the cache may miss. \<open>Delivery\<close>: the way of a finding through the
  whole program, over the locale \<open>responsive_server\<close> (a server that answers and to which nobody else writes
  meanwhile), which the server in memory interprets and which is lifted to the shared state of the watcher: two
  visits of the source and two reconciles of the controller store the \<open>RemediationJob\<close> and start its agent. \<open>Anomalies\<close>: the places where the
  composed program does not do what its settings suggest: correlated primaries pass the limit, an object
  closes the pull requests of its namesakes of other kinds, a watcher whose agents are confined to other
  namespaces is inert, peers are suppressed by a stale listing, and the expiry of a job ends in an error.

  Loops. Every loop over a list is structural recursion. The walk along owners is bounded by the
  source's own limit of ten, the start of the manager by its ten attempts (with a termination proof); no
  other fuel is used.

  Not modelled: log lines; the inside of controller-runtime (work queues, caches, leader election, the health
  and metrics servers), which the program only calls and of which each theorem names what it assumes; help
  texts of the metrics; markers and comments from which manifests are generated; the shell scripts of the agent
  image. Requests of GitHub carry the method, the URL, the authorization and the body; constant headers are
  left out.
\<close>

end
